theory Spec2Isabelle
  imports Complex_Main
begin

section \<open>JavaScript values\<close>

text \<open>
  A JavaScript string is a sequence of UTF-16 code units; property names, identifiers and
  texts are all of this type. \<open>js\<close> turns an ASCII literal of the source into one.
\<close>

type_synonym jsstring = "nat list"

definition js :: "string \<Rightarrow> jsstring" where
  "js s = map of_char s"

text \<open>
  \<open>String.prototype.trim\<close> strips the WhiteSpace and LineTerminator code points of
  ECMAScript from both ends: TAB, LF, VT, FF, CR, SP, NBSP, U+1680, U+2000..U+200A, U+2028,
  U+2029, U+202F, U+205F, U+3000 and U+FEFF.
\<close>

definition is_ws :: "nat \<Rightarrow> bool" where
  "is_ws c \<longleftrightarrow>
     c \<in> set [9, 10, 11, 12, 13, 32, 160, 5760, 8232, 8233, 8239, 8287, 12288, 65279]
     \<or> (8192 \<le> c \<and> c \<le> 8202)"

definition trim :: "jsstring \<Rightarrow> jsstring" where
  "trim s = rev (dropWhile is_ws (rev (dropWhile is_ws s)))"

text \<open>
  \<open>toLowerCase\<close> on the ASCII letters. The source only compares the result with, or searches
  it for, the words \<open>openai\<close>, \<open>common\<close> and \<open>claude\<close>; the only code point
  outside ASCII whose lower case is a single ASCII letter is U+212A (to \<open>k\<close>), which none of
  these words contains, so the other mappings of Unicode cannot change those tests.
\<close>

definition toLowerCase :: "jsstring \<Rightarrow> jsstring" where
  "toLowerCase s = map (\<lambda>c. if 65 \<le> c \<and> c \<le> 90 then c + 32 else c) s"

text \<open>
  A parsed response body. A JSON text has no \<open>undefined\<close>: reading a property that is not
  there gives \<open>None\<close>. An object is the list of its properties; the first binding of a
  name is the property's value.
\<close>

datatype json =
    JNull
  | JBool bool
  | JNum real
  | JStr jsstring
  | JArr "json list"
  | JObj "(jsstring \<times> json) list"

fun jsget :: "jsstring \<Rightarrow> json \<Rightarrow> json option" where
  "jsget k (JObj kvs) = map_of kvs k"
| "jsget k other = None"

fun truthy :: "json \<Rightarrow> bool" where
  "truthy JNull = False"
| "truthy (JBool b) = b"
| "truthy (JNum r) = (r \<noteq> 0)"
| "truthy (JStr s) = (s \<noteq> [])"
| "truthy (JArr xs) = True"
| "truthy (JObj kvs) = True"

fun is_object :: "json \<Rightarrow> bool" where
  "is_object JNull = True"
| "is_object (JArr xs) = True"
| "is_object (JObj kvs) = True"
| "is_object other = False"

text \<open>What the services throw or see thrown: the \<open>error\<close> values of the catch blocks.\<close>

datatype failure =
    TypeError
  | RangeError
  | HttpFailure int json
  | NetworkFailure jsstring jsstring
  | CollaboratorFailure

section \<open>Timestamps\<close>

text \<open>
  A timestamp field of a persisted record, as the code reads it: falsy (\<open>undefined\<close>,
  \<open>null\<close> or the empty string), a non-empty string that \<open>Date.parse\<close> maps to a finite
  number of milliseconds, or a non-empty string that \<open>Date.parse\<close> maps to \<open>NaN\<close>. The
  string is modelled by the instant it denotes. \<open>new Date(ms).toISOString()\<close> gives the
  string of the instant \<open>ms\<close>, and throws a RangeError for \<open>NaN\<close> (here \<open>None\<close>) and
  outside the range of \<open>Date\<close>, 8.64e15 milliseconds either side of the epoch.
\<close>

datatype tsfield = TsFalsy | TsDate int | TsBad

fun ts_truthy :: "tsfield \<Rightarrow> bool" where
  "ts_truthy TsFalsy = False"
| "ts_truthy other = True"

fun Date_parse :: "tsfield \<Rightarrow> int option" where
  "Date_parse (TsDate ms) = Some ms"
| "Date_parse other = None"

definition toISOString :: "int option \<Rightarrow> failure + tsfield" where
  "toISOString t =
     (case t of
        None \<Rightarrow> Inl RangeError
      | Some ms \<Rightarrow>
          if - 8640000000000000 \<le> ms \<and> ms \<le> 8640000000000000 then Inr (TsDate ms)
          else Inl RangeError)"

section \<open>Key recovery: response text extraction\<close>

text \<open>\<open>collect\<close> of \<open>_extractResponseText\<close>: push the trimmed value when it is a non-blank string.\<close>

fun collect :: "jsstring list \<Rightarrow> json option \<Rightarrow> jsstring list" where
  "collect texts (Some (JStr s)) = (if trim s \<noteq> [] then texts @ [trim s] else texts)"
| "collect texts other = texts"

definition collect_each :: "jsstring list \<Rightarrow> json list \<Rightarrow> jsstring list" where
  "collect_each texts xs = foldl collect texts (map Some xs)"

text \<open>The body of the three loops over a content array: a string, or an object with a string \<open>text\<close>.\<close>

fun collect_block :: "jsstring list \<Rightarrow> json \<Rightarrow> jsstring list" where
  "collect_block texts (JStr s) = collect texts (Some (JStr s))"
| "collect_block texts c =
     (if truthy c then
        (case jsget (js ''text'') c of
           Some (JStr t) \<Rightarrow> collect texts (Some (JStr t))
         | _ \<Rightarrow> texts)
      else texts)"

definition collect_blocks :: "jsstring list \<Rightarrow> json list \<Rightarrow> jsstring list" where
  "collect_blocks texts cs = foldl collect_block texts cs"

definition collect_output_item :: "jsstring list \<Rightarrow> json \<Rightarrow> jsstring list" where
  "collect_output_item texts item =
     (if truthy item then
        (let t1 = (case jsget (js ''text'') item of
                     Some (JStr t) \<Rightarrow> collect texts (Some (JStr t))
                   | _ \<Rightarrow> texts)
         in (case jsget (js ''content'') item of
               Some (JArr cs) \<Rightarrow> collect_blocks t1 cs
             | _ \<Rightarrow> t1))
      else texts)"

text \<open>
  One round of the loop over \<open>data.choices\<close>. \<open>choice && choice.message\<close> guards the read of
  \<open>message\<close>; the read of \<open>choice.output_text\<close> that follows is not guarded, and throws a
  TypeError when the choice is \<open>null\<close>.
\<close>

definition collect_choice :: "jsstring list \<Rightarrow> json \<Rightarrow> failure + jsstring list" where
  "collect_choice texts choice =
     (let message = (if truthy choice then jsget (js ''message'') choice else Some choice);
          t1 = (case message of
                  None \<Rightarrow> texts
                | Some m \<Rightarrow>
                    if truthy m then
                      (case jsget (js ''content'') m of
                         Some (JStr s) \<Rightarrow> collect texts (Some (JStr s))
                       | Some (JArr cs) \<Rightarrow> collect_blocks texts cs
                       | _ \<Rightarrow> texts)
                    else texts)
      in (case choice of
            JNull \<Rightarrow> Inl TypeError
          | _ \<Rightarrow>
              (case jsget (js ''output_text'') choice of
                 Some (JArr xs) \<Rightarrow> Inr (collect_each t1 xs)
               | _ \<Rightarrow> Inr t1)))"

fun collect_choices :: "jsstring list \<Rightarrow> json list \<Rightarrow> failure + jsstring list" where
  "collect_choices texts [] = Inr texts"
| "collect_choices texts (choice # cs) =
     (case collect_choice texts choice of
        Inl e \<Rightarrow> Inl e
      | Inr t1 \<Rightarrow> collect_choices t1 cs)"

text \<open>The fragments \<open>_extractResponseText\<close> has pushed when it reaches its \<open>return\<close>, in order.\<close>

definition collected_texts :: "json \<Rightarrow> failure + jsstring list" where
  "collected_texts data =
     (let t1 = (case jsget (js ''output_text'') data of
                  Some (JArr xs) \<Rightarrow> collect_each [] xs
                | Some (JStr s) \<Rightarrow> collect [] (Some (JStr s))
                | _ \<Rightarrow> []);
          t2 = (case jsget (js ''output'') data of
                  Some (JArr items) \<Rightarrow> foldl collect_output_item t1 items
                | _ \<Rightarrow> t1);
          t3 = (case jsget (js ''content'') data of
                  Some (JArr cs) \<Rightarrow> collect_blocks t2 cs
                | _ \<Rightarrow> t2)
      in (case (case jsget (js ''choices'') data of
                  Some (JArr cs) \<Rightarrow> collect_choices t3 cs
                | _ \<Rightarrow> Inr t3) of
            Inl e \<Rightarrow> Inl e
          | Inr t4 \<Rightarrow>
              Inr (case jsget (js ''text'') data of
                     Some (JStr s) \<Rightarrow> collect t4 (Some (JStr s))
                   | _ \<Rightarrow> t4)))"

definition extractResponseText :: "json \<Rightarrow> failure + jsstring" where
  "extractResponseText data =
     (if truthy data \<and> is_object data then
        (case collected_texts data of
           Inl e \<Rightarrow> Inl e
         | Inr texts \<Rightarrow> Inr (case texts of [] \<Rightarrow> [] | t # ts \<Rightarrow> t))
      else Inr [])"

section \<open>Key recovery: the service\<close>

text \<open>
  The constructor of \<open>DroidApiKeyRecoveryService\<close>. A configured number is present or not;
  \<open>x || d\<close> takes the default when it is absent or 0. Milliseconds are integers.
\<close>

record raw_config =
  cfg_enabled :: "bool option"
  cfg_scanIntervalMs :: "int option"
  cfg_probeIntervalMs :: "int option"
  cfg_recoveryWindowMs :: "int option"
  cfg_maxConcurrentProbes :: "int option"
  cfg_requestTimeout :: "int option"

record recovery_service =
  enabled :: bool
  scanIntervalMs :: int
  probeIntervalMs :: int
  recoveryWindowMs :: int
  maxConcurrentProbes :: int
  requestTimeoutMs :: int

definition or_default :: "int option \<Rightarrow> int \<Rightarrow> int" where
  "or_default x d = (case x of None \<Rightarrow> d | Some n \<Rightarrow> if n = 0 then d else n)"

definition new_service :: "raw_config \<Rightarrow> recovery_service" where
  "new_service cfg =
     \<lparr> enabled = (cfg_enabled cfg \<noteq> Some False),
       scanIntervalMs = or_default (cfg_scanIntervalMs cfg) 30000,
       probeIntervalMs = or_default (cfg_probeIntervalMs cfg) (2 * 60 * 1000),
       recoveryWindowMs = or_default (cfg_recoveryWindowMs cfg) (24 * 60 * 60 * 1000),
       maxConcurrentProbes = or_default (cfg_maxConcurrentProbes cfg) 3,
       requestTimeoutMs = min (max (or_default (cfg_requestTimeout cfg) 600000) 1000) 600000 \<rparr>"

datatype endpoint = Anthropic | OpenAI

definition normalizeEndpointType :: "jsstring option \<Rightarrow> endpoint" where
  "normalizeEndpointType endpointType =
     (case endpointType of
        None \<Rightarrow> Anthropic
      | Some t \<Rightarrow>
          if t = [] then Anthropic
          else if toLowerCase t = js ''openai'' \<or> toLowerCase t = js ''common'' then OpenAI
          else Anthropic)"

text \<open>
  The request \<open>_sendProbeRequest\<close> hands to axios: the endpoint, the key of the
  \<open>authorization\<close> header and the timeout. (The proxy agent, the fixed payload and the other
  headers change nothing below.)
\<close>

record probe_request =
  req_endpoint :: endpoint
  req_apiKey :: jsstring
  req_timeout :: int

definition probeRequest :: "recovery_service \<Rightarrow> endpoint \<Rightarrow> jsstring \<Rightarrow> probe_request" where
  "probeRequest svc endpointType apiKey =
     \<lparr> req_endpoint = endpointType,
       req_apiKey = apiKey,
       req_timeout = max (min (requestTimeoutMs svc) 60000) 5000 \<rparr>"

text \<open>What axios answers: a response of any status (\<open>validateStatus\<close> accepts all), or a rejection.\<close>

datatype probe_outcome = Responded int json | Rejected failure

definition sendProbeRequest :: "probe_outcome \<Rightarrow> failure + json" where
  "sendProbeRequest outcome =
     (case outcome of
        Rejected err \<Rightarrow> Inl err
      | Responded code data \<Rightarrow> if code \<ge> 400 then Inl (HttpFailure code data) else Inr data)"

text \<open>
  \<open>lastRecoveryResult\<close>: the three template strings of \<open>_attemptRecovery\<close>, each with what
  it interpolates (the rendering of \<open>_formatFailureReason\<close> is left out).
\<close>

datatype recovery_note = RecoveredAt tsfield | EmptyResponseAt tsfield | FailedWith failure

record api_key_entry =
  entry_id :: jsstring
  entry_key :: jsstring
  entry_status :: jsstring
  errorMessage :: jsstring
  errorSince :: tsfield
  recoveryExpiresAt :: tsfield
  nextRecoveryAt :: tsfield
  recoveryAttempts :: "nat option"
  lastRecoveryAttemptAt :: tsfield
  lastRecoveryResult :: "recovery_note option"

text \<open>The object literal passed to \<open>updateApiKeyRecoveryState\<close>: each property is there or not.\<close>

record recovery_update =
  upd_status :: "jsstring option"
  upd_errorMessage :: "jsstring option"
  upd_errorSince :: "tsfield option"
  upd_recoveryExpiresAt :: "tsfield option"
  upd_nextRecoveryAt :: "tsfield option"
  upd_recoveryAttempts :: "nat option"
  upd_lastRecoveryAttemptAt :: "tsfield option"
  upd_lastRecoveryResult :: "recovery_note option"

definition no_update :: recovery_update where
  "no_update =
     \<lparr> upd_status = None, upd_errorMessage = None, upd_errorSince = None,
       upd_recoveryExpiresAt = None, upd_nextRecoveryAt = None, upd_recoveryAttempts = None,
       upd_lastRecoveryAttemptAt = None, upd_lastRecoveryResult = None \<rparr>"

text \<open>
  Modelled from the spec: \<open>droidAccountService.updateApiKeyRecoveryState\<close> is not among the
  sources. The spec's registry interface is \<open>update-recovery-entry(id, keyId, partial)\<close>,
  where "partial updates must not clobber unrelated fields": the properties of the update
  replace the entry's, the others stay.
\<close>

definition apply_update :: "recovery_update \<Rightarrow> api_key_entry \<Rightarrow> api_key_entry" where
  "apply_update u e =
     e \<lparr> entry_status := (case upd_status u of None \<Rightarrow> entry_status e | Some v \<Rightarrow> v),
         errorMessage := (case upd_errorMessage u of None \<Rightarrow> errorMessage e | Some v \<Rightarrow> v),
         errorSince := (case upd_errorSince u of None \<Rightarrow> errorSince e | Some v \<Rightarrow> v),
         recoveryExpiresAt :=
           (case upd_recoveryExpiresAt u of None \<Rightarrow> recoveryExpiresAt e | Some v \<Rightarrow> v),
         nextRecoveryAt := (case upd_nextRecoveryAt u of None \<Rightarrow> nextRecoveryAt e | Some v \<Rightarrow> v),
         recoveryAttempts :=
           (case upd_recoveryAttempts u of None \<Rightarrow> recoveryAttempts e | Some v \<Rightarrow> Some v),
         lastRecoveryAttemptAt :=
           (case upd_lastRecoveryAttemptAt u of None \<Rightarrow> lastRecoveryAttemptAt e | Some v \<Rightarrow> v),
         lastRecoveryResult :=
           (case upd_lastRecoveryResult u of None \<Rightarrow> lastRecoveryResult e | Some v \<Rightarrow> Some v) \<rparr>"

text \<open>The parent account, as \<open>_reactivateAccountIfNeeded\<close> reads it.\<close>

datatype jsflag = FlagAbsent | FlagBool bool | FlagStr jsstring

record droid_account =
  da_status :: jsstring
  da_schedulable :: jsflag
  da_errorMessage :: jsstring

datatype rcall =
    UpdateApiKeyRecoveryState jsstring jsstring recovery_update
  | ProbeRequest probe_request
  | GetAccount jsstring
  | UpdateAccount jsstring

text \<open>
  The state a recovery cycle works on: the guard of the service, the registry's entries
  (by account id and key id) and accounts, and the calls made to the collaborators and to
  the upstream, in order.
\<close>

record recovery_state =
  isTickRunning :: bool
  intervalHandle :: bool
  entries :: "jsstring \<times> jsstring \<Rightarrow> api_key_entry option"
  accounts :: "jsstring \<Rightarrow> droid_account option"
  calls :: "rcall list"

text \<open>
  What the world answers during one attempt: the clock, the upstream's answer to the probe,
  and whether each call to the registry resolves or rejects. A write that rejects changes
  nothing in the registry.
\<close>

record attempt_env =
  env_now :: int
  pendingWriteOk :: bool
  probeOutcome :: probe_outcome
  resultWriteOk :: bool
  failureWriteOk :: bool
  getAccountOk :: bool
  updateAccountOk :: bool

record recovery_target =
  tgt_accountId :: jsstring
  tgt_endpointType :: "jsstring option"
  tgt_entry :: api_key_entry

definition updateApiKeyRecoveryState ::
  "bool \<Rightarrow> jsstring \<Rightarrow> jsstring \<Rightarrow> recovery_update \<Rightarrow> recovery_state \<Rightarrow> recovery_state" where
  "updateApiKeyRecoveryState ok accountId keyId u s =
     s \<lparr> calls := calls s @ [UpdateApiKeyRecoveryState accountId keyId u],
         entries :=
           (if ok then
              (entries s) ((accountId, keyId) :=
                 map_option (apply_update u) (entries s (accountId, keyId)))
            else entries s) \<rparr>"

definition reactivateAccountIfNeeded :: "attempt_env \<Rightarrow> jsstring \<Rightarrow> recovery_state \<Rightarrow> recovery_state" where
  "reactivateAccountIfNeeded env accountId s =
     (let s1 = s \<lparr> calls := calls s @ [GetAccount accountId] \<rparr> in
      if getAccountOk env then
        (case accounts s accountId of
           None \<Rightarrow> s1
         | Some account \<Rightarrow>
             if da_status account \<noteq> js ''active''
                \<or> da_schedulable account = FlagStr (js ''false'')
                \<or> da_schedulable account = FlagBool False
             then
               s1 \<lparr> calls := calls s1 @ [UpdateAccount accountId],
                    accounts :=
                      (if updateAccountOk env then
                         (accounts s1) (accountId :=
                            Some (account \<lparr> da_status := js ''active'',
                                            da_schedulable := FlagBool True,
                                            da_errorMessage := [] \<rparr>))
                       else accounts s1) \<rparr>
             else s1)
      else s1)"

definition recoveryDeadlineMs :: "recovery_service \<Rightarrow> api_key_entry \<Rightarrow> int \<Rightarrow> int option" where
  "recoveryDeadlineMs svc entry now =
     (case (if ts_truthy (recoveryExpiresAt entry) then Date_parse (recoveryExpiresAt entry)
            else None) of
        Some parsed \<Rightarrow> Some parsed
      | None \<Rightarrow>
          (case (if ts_truthy (errorSince entry) then Date_parse (errorSince entry)
                 else Some now) of
             None \<Rightarrow> None
           | Some errorSinceMs \<Rightarrow> Some (errorSinceMs + recoveryWindowMs svc)))"

text \<open>\<open>entry.recoveryAttempts || 0\<close>: the attempts made so far.\<close>

definition previousAttempts :: "api_key_entry \<Rightarrow> nat" where
  "previousAttempts entry = (case recoveryAttempts entry of None \<Rightarrow> 0 | Some n \<Rightarrow> n)"

definition pendingUpdate :: "api_key_entry \<Rightarrow> tsfield \<Rightarrow> tsfield \<Rightarrow> tsfield \<Rightarrow> recovery_update" where
  "pendingUpdate entry nowIso nextAttemptIso recoveryDeadlineIso =
     no_update
       \<lparr> upd_lastRecoveryAttemptAt := Some nowIso,
         upd_recoveryAttempts := Some (previousAttempts entry + 1),
         upd_nextRecoveryAt := Some nextAttemptIso,
         upd_errorSince := (if ts_truthy (errorSince entry) then None else Some nowIso),
         upd_recoveryExpiresAt :=
           (if ts_truthy (recoveryExpiresAt entry) then None else Some recoveryDeadlineIso) \<rparr>"

definition recoveredUpdate :: "tsfield \<Rightarrow> recovery_update" where
  "recoveredUpdate nowIso =
     \<lparr> upd_status = Some (js ''active''),
       upd_errorMessage = Some [],
       upd_errorSince = Some TsFalsy,
       upd_recoveryExpiresAt = Some TsFalsy,
       upd_nextRecoveryAt = Some TsFalsy,
       upd_recoveryAttempts = Some 0,
       upd_lastRecoveryAttemptAt = Some nowIso,
       upd_lastRecoveryResult = Some (RecoveredAt nowIso) \<rparr>"

definition retryUpdate :: "recovery_note \<Rightarrow> tsfield \<Rightarrow> tsfield \<Rightarrow> recovery_update" where
  "retryUpdate note nextAttemptIso recoveryDeadlineIso =
     no_update
       \<lparr> upd_lastRecoveryResult := Some note,
         upd_nextRecoveryAt := Some nextAttemptIso,
         upd_recoveryExpiresAt := Some recoveryDeadlineIso \<rparr>"

text \<open>
  The three timestamps \<open>_attemptRecovery\<close> formats before its first write, in the order of
  the source: \<open>nowIso\<close>, \<open>nextAttemptIso\<close> and \<open>recoveryDeadlineIso\<close>.
\<close>

definition attemptStamps ::
  "recovery_service \<Rightarrow> api_key_entry \<Rightarrow> int \<Rightarrow> failure + tsfield \<times> tsfield \<times> tsfield" where
  "attemptStamps svc entry now =
     (case toISOString (Some now) of
        Inl err \<Rightarrow> Inl err
      | Inr nowIso \<Rightarrow>
          (case toISOString (Some (now + probeIntervalMs svc)) of
             Inl err \<Rightarrow> Inl err
           | Inr nextAttemptIso \<Rightarrow>
               (case toISOString (recoveryDeadlineMs svc entry now) of
                  Inl err \<Rightarrow> Inl err
                | Inr recoveryDeadlineIso \<Rightarrow>
                    Inr (nowIso, nextAttemptIso, recoveryDeadlineIso))))"

text \<open>The first two statements of the \<open>try\<close> block: the probe, then the extraction from its body.\<close>

definition probeAndExtract :: "probe_outcome \<Rightarrow> failure + jsstring" where
  "probeAndExtract outcome =
     (case sendProbeRequest outcome of
        Inl err \<Rightarrow> Inl err
      | Inr data \<Rightarrow> extractResponseText data)"

text \<open>The call of axios in \<open>_sendProbeRequest\<close>, recorded.\<close>

definition probeIssued :: "recovery_service \<Rightarrow> recovery_target \<Rightarrow> recovery_state \<Rightarrow> recovery_state" where
  "probeIssued svc target s =
     s \<lparr> calls := calls s @
           [ProbeRequest (probeRequest svc (normalizeEndpointType (tgt_endpointType target))
              (entry_key (tgt_entry target)))] \<rparr>"

text \<open>
  The \<open>try\<close> block of \<open>_attemptRecovery\<close>: the state it leaves, and the error it throws into
  the \<open>catch\<close> (\<open>None\<close> when it completes).
\<close>

definition tryProbe ::
  "recovery_service \<Rightarrow> recovery_target \<Rightarrow> attempt_env \<Rightarrow> tsfield \<Rightarrow> tsfield \<Rightarrow> tsfield \<Rightarrow>
     recovery_state \<Rightarrow> recovery_state \<times> failure option" where
  "tryProbe svc target env nowIso nextAttemptIso recoveryDeadlineIso s =
     (let accountId = tgt_accountId target;
          entry = tgt_entry target;
          s1 = probeIssued svc target s
      in (case probeAndExtract (probeOutcome env) of
            Inl err \<Rightarrow> (s1, Some err)
          | Inr extractedText \<Rightarrow>
              if trim extractedText \<noteq> [] then
                (let s2 = updateApiKeyRecoveryState (resultWriteOk env) accountId
                            (entry_id entry) (recoveredUpdate nowIso) s1
                 in if resultWriteOk env
                    then (reactivateAccountIfNeeded env accountId s2, None)
                    else (s2, Some CollaboratorFailure))
              else
                (let s2 = updateApiKeyRecoveryState (resultWriteOk env) accountId
                            (entry_id entry)
                            (retryUpdate (EmptyResponseAt nowIso) nextAttemptIso
                               recoveryDeadlineIso) s1
                 in (s2, if resultWriteOk env then None else Some CollaboratorFailure))))"

text \<open>
  \<open>_attemptRecovery\<close>: the state it leaves, and the error it throws to its caller (\<open>None\<close>
  when it returns). The three timestamps are formatted, and the pending update is written,
  before the \<open>try\<close>; the write in the \<open>catch\<close> is outside it too.
\<close>

definition attemptRecovery ::
  "recovery_service \<Rightarrow> recovery_target \<Rightarrow> attempt_env \<Rightarrow> recovery_state \<Rightarrow>
     recovery_state \<times> failure option" where
  "attemptRecovery svc target env s =
     (let accountId = tgt_accountId target;
          entry = tgt_entry target
      in (case attemptStamps svc entry (env_now env) of
            Inl err \<Rightarrow> (s, Some err)
          | Inr (nowIso, nextAttemptIso, recoveryDeadlineIso) \<Rightarrow>
              (let s1 = updateApiKeyRecoveryState (pendingWriteOk env) accountId (entry_id entry)
                          (pendingUpdate entry nowIso nextAttemptIso recoveryDeadlineIso) s
               in if pendingWriteOk env then
                    (case tryProbe svc target env nowIso nextAttemptIso recoveryDeadlineIso s1 of
                       (s2, None) \<Rightarrow> (s2, None)
                     | (s2, Some err) \<Rightarrow>
                         (let s3 = updateApiKeyRecoveryState (failureWriteOk env) accountId
                                     (entry_id entry)
                                     (retryUpdate (FailedWith err) nextAttemptIso
                                        recoveryDeadlineIso) s2
                          in (s3, if failureWriteOk env then None
                                  else Some CollaboratorFailure)))
                  else (s1, Some CollaboratorFailure))))"

text \<open>
  One cycle. \<open>getRecoverableApiKeyEntries\<close> rejects, or gives nothing, or gives the targets;
  each target comes with what the world answers during its attempt. The loop stops at the
  first attempt that throws.
\<close>

datatype targets_outcome =
    TargetsRejected
  | NoTargets
  | Targets "(recovery_target \<times> attempt_env) list"

fun attemptAll ::
  "recovery_service \<Rightarrow> (recovery_target \<times> attempt_env) list \<Rightarrow> recovery_state \<Rightarrow>
     recovery_state \<times> failure option" where
  "attemptAll svc [] s = (s, None)"
| "attemptAll svc ((target, env) # rest) s =
     (case attemptRecovery svc target env s of
        (s1, Some err) \<Rightarrow> (s1, Some err)
      | (s1, None) \<Rightarrow> attemptAll svc rest s1)"

definition recovery_cycle ::
  "recovery_service \<Rightarrow> targets_outcome \<Rightarrow> recovery_state \<Rightarrow> recovery_state \<times> failure option" where
  "recovery_cycle svc outcome s =
     (case outcome of
        TargetsRejected \<Rightarrow> (s, Some CollaboratorFailure)
      | NoTargets \<Rightarrow> (s, None)
      | Targets ts \<Rightarrow> attemptAll svc ts s)"

text \<open>
  \<open>_tick\<close>, run from its call to its end: skipped under the guard; otherwise the cycle, whose
  error the \<open>catch\<close> logs and drops, and the \<open>finally\<close>. The second component tells whether
  \<open>_tick\<close> itself threw (it never does).
\<close>

definition recovery_tick ::
  "recovery_service \<Rightarrow> targets_outcome \<Rightarrow> recovery_state \<Rightarrow> recovery_state \<times> failure option" where
  "recovery_tick svc outcome s =
     (if isTickRunning s then (s, None)
      else
        (case recovery_cycle svc outcome (s \<lparr> isTickRunning := True \<rparr>) of
           (s1, r) \<Rightarrow> (s1 \<lparr> isTickRunning := False \<rparr>, None)))"

definition recovery_stop :: "recovery_state \<Rightarrow> recovery_state" where
  "recovery_stop s = s \<lparr> intervalHandle := False \<rparr>"

section \<open>Keepalive: the heartbeat service\<close>

text \<open>
  An account as \<open>redis.getAllClaudeAccounts\<close> gives it: a hash of strings, each field there
  or not. \<open>scopes\<close> and \<open>subscriptionInfo\<close> are read at several types by the source.
\<close>

datatype scopes_field =
    ScopesAbsent
  | ScopesString jsstring
  | ScopesArray "json list"
  | ScopesOther

datatype subscription_field =
    SubAbsent
  | SubObject json
  | SubString jsstring
  | SubOther

record claude_account =
  acc_id :: jsstring
  acc_platform :: "jsstring option"
  acc_accountType :: "jsstring option"
  acc_scopes :: scopes_field
  acc_isActive :: "jsstring option"
  acc_schedulable :: "jsstring option"
  acc_fiveHourAutoStopped :: "jsstring option"
  acc_rateLimitAutoStopped :: "jsstring option"
  acc_rateLimitStatus :: "jsstring option"
  acc_rateLimitedAt :: "jsstring option"
  acc_status :: "jsstring option"
  acc_subscriptionInfo :: subscription_field
  acc_claudeUsageUpdatedAt :: tsfield

text \<open>\<open>snapshot?.fiveHour?.remainingSeconds\<close>, when it is a number.\<close>

record usage_snapshot =
  remainingSeconds :: "int option"

text \<open>
  What the service uses and the sources do not hold: \<open>JSON.parse\<close> (\<open>None\<close> when it throws),
  \<open>claudeAccountService.buildClaudeUsageSnapshot\<close>, and the Number an engine makes of an
  integer beyond 2^53 (the double it rounds to, \<open>None\<close> when that is \<open>Infinity\<close>); up to
  2^53 every integer is a Number.
\<close>

record heartbeat_deps =
  JSON_parse :: "jsstring \<Rightarrow> json option"
  buildClaudeUsageSnapshot :: "claude_account \<Rightarrow> usage_snapshot"
  bigNumber :: "int \<Rightarrow> int option"

text \<open>The heartbeat configuration: each number as \<open>parseInt\<close> reads it (\<open>None\<close> for \<open>NaN\<close>).\<close>

record heartbeat_config =
  hb_cooldownMinutes :: "int option"
  hb_usageRefreshMaxAgeMs :: "int option"
  hb_apiUrl :: bool

definition cooldownMsOf :: "heartbeat_config \<Rightarrow> int" where
  "cooldownMsOf cfg = max (or_default (hb_cooldownMinutes cfg) 10) 0 * 60 * 1000"

text \<open>The error a \<open>catch\<close> of the service sees: \<open>error.response?.status\<close> and the reset header.\<close>

datatype herror = HError "int option" "jsstring option"

datatype hcall =
    GetAllClaudeAccounts
  | GetValidAccessToken jsstring
  | CreateProxyAgent jsstring
  | PostHeartbeat jsstring jsstring
  | FetchOAuthUsage jsstring
  | UpdateClaudeUsageSnapshot jsstring
  | GetClaudeAccount jsstring
  | MarkAccountRateLimited jsstring "int option"
  | MarkAccountOverloaded jsstring

record heartbeat_state =
  isRunning :: bool
  interval :: bool
  recentHeartbeats :: "jsstring \<Rightarrow> int option"
  hcalls :: "hcall list"

definition opt_truthy :: "jsstring option \<Rightarrow> bool" where
  "opt_truthy x = (case x of None \<Rightarrow> False | Some v \<Rightarrow> v \<noteq> [])"

fun str_includes :: "jsstring \<Rightarrow> jsstring \<Rightarrow> bool" where
  "str_includes [] w = (w = [])"
| "str_includes (c # cs) w = (take (length w) (c # cs) = w \<or> str_includes cs w)"

fun split_on :: "nat \<Rightarrow> jsstring \<Rightarrow> jsstring list" where
  "split_on sep [] = [[]]"
| "split_on sep (c # cs) =
     (if c = sep then [] # split_on sep cs
      else (case split_on sep cs of
              [] \<Rightarrow> [[c]]
            | w # ws \<Rightarrow> (c # w) # ws))"

definition isClaudePlatform :: "claude_account \<Rightarrow> bool" where
  "isClaudePlatform account =
     str_includes
       (toLowerCase
          (if opt_truthy (acc_platform account) then the (acc_platform account)
           else if opt_truthy (acc_accountType account) then the (acc_accountType account)
           else []))
       (js ''claude'')"

definition isOAuthAccount :: "claude_account \<Rightarrow> bool" where
  "isOAuthAccount account =
     (case acc_scopes account of
        ScopesAbsent \<Rightarrow> False
      | ScopesString str \<Rightarrow>
          str \<noteq> []
          \<and> js ''user:profile'' \<in> set (map trim (split_on 32 str))
          \<and> js ''user:inference'' \<in> set (map trim (split_on 32 str))
      | ScopesArray xs \<Rightarrow>
          JStr (js ''user:profile'') \<in> set xs \<and> JStr (js ''user:inference'') \<in> set xs
      | ScopesOther \<Rightarrow> False)"

definition isAccountHealthy :: "claude_account \<Rightarrow> bool" where
  "isAccountHealthy account =
     (if acc_isActive account = Some (js ''false'') then False
      else if acc_schedulable account = Some (js ''false'') then False
      else if acc_fiveHourAutoStopped account = Some (js ''true'') then False
      else if acc_rateLimitAutoStopped account = Some (js ''true'') then False
      else if acc_rateLimitStatus account = Some (js ''limited'') then False
      else if opt_truthy (acc_rateLimitedAt account) then False
      else if opt_truthy (acc_status account) \<and> acc_status account \<noteq> Some (js ''active'') then False
      else True)"

definition parseSubscriptionInfo :: "heartbeat_deps \<Rightarrow> subscription_field \<Rightarrow> json option" where
  "parseSubscriptionInfo deps subscriptionInfo =
     (case subscriptionInfo of
        SubAbsent \<Rightarrow> None
      | SubObject obj \<Rightarrow> Some obj
      | SubString str \<Rightarrow> if trim str \<noteq> [] then JSON_parse deps str else None
      | SubOther \<Rightarrow> None)"

definition isClaudeMaxAccount :: "heartbeat_deps \<Rightarrow> claude_account \<Rightarrow> bool" where
  "isClaudeMaxAccount deps account =
     (case parseSubscriptionInfo deps (acc_subscriptionInfo account) of
        None \<Rightarrow> False
      | Some info \<Rightarrow>
          if truthy info then
            (if jsget (js ''accountType'') info = Some (JStr (js ''claude_max'')) then True
             else if jsget (js ''hasClaudeMax'') info = Some (JBool True) then True
             else False)
          else False)"

text \<open>
  What the world answers during \<open>_refreshUsageSnapshot\<close>: the usage fetch and the write of
  the snapshot (both inside its \<open>try\<close>), and the read of the account that follows it.
\<close>

datatype fetch_outcome = FetchRejected | FetchedNothing | FetchedUsage

datatype latest_outcome = LatestRejected herror | LatestMissing | LatestAccount claude_account

record refresh_env =
  fetchOutcome :: fetch_outcome
  persistOk :: bool
  latestOutcome :: latest_outcome

definition refreshUsageSnapshot ::
  "heartbeat_deps \<Rightarrow> refresh_env \<Rightarrow> jsstring \<Rightarrow> heartbeat_state \<Rightarrow>
     heartbeat_state \<times> (herror + (claude_account \<times> usage_snapshot) option)" where
  "refreshUsageSnapshot deps env accountId s =
     (let s1 = s \<lparr> hcalls := hcalls s @
                 (case fetchOutcome env of
                    FetchedUsage \<Rightarrow> [FetchOAuthUsage accountId, UpdateClaudeUsageSnapshot accountId]
                  | _ \<Rightarrow> [FetchOAuthUsage accountId]) \<rparr>;
          s2 = s1 \<lparr> hcalls := hcalls s1 @ [GetClaudeAccount accountId] \<rparr>
      in (case latestOutcome env of
            LatestRejected err \<Rightarrow> (s2, Inl err)
          | LatestMissing \<Rightarrow> (s2, Inr None)
          | LatestAccount latestAccount \<Rightarrow>
              (s2, Inr (Some (latestAccount \<lparr> acc_id := accountId \<rparr>,
                              buildClaudeUsageSnapshot deps
                                (latestAccount \<lparr> acc_id := accountId \<rparr>))))))"

definition hasCountdown :: "usage_snapshot \<Rightarrow> bool" where
  "hasCountdown snapshot = (case remainingSeconds snapshot of None \<Rightarrow> False | Some n \<Rightarrow> n > 0)"

definition usageIsStale :: "heartbeat_config \<Rightarrow> claude_account \<Rightarrow> int \<Rightarrow> bool" where
  "usageIsStale cfg accountData nowMs =
     (let usageFreshnessMs = or_default (hb_usageRefreshMaxAgeMs cfg) 120000;
          updatedAtMs = (if ts_truthy (acc_claudeUsageUpdatedAt accountData)
                         then Date_parse (acc_claudeUsageUpdatedAt accountData) else Some 0)
      in usageFreshnessMs > 0
         \<and> (case updatedAtMs of
               None \<Rightarrow> True
             | Some t \<Rightarrow> t = 0 \<or> nowMs - t > usageFreshnessMs))"

text \<open>
  The account and the snapshot \<open>_evaluateAccountForHeartbeat\<close> holds after its refresh, if
  it makes one: the state, and the pair or the error the refresh threw.
\<close>

definition currentSnapshot ::
  "heartbeat_deps \<Rightarrow> heartbeat_config \<Rightarrow> refresh_env \<Rightarrow> claude_account \<Rightarrow> int \<Rightarrow>
     heartbeat_state \<Rightarrow> heartbeat_state \<times> (herror + claude_account \<times> usage_snapshot)" where
  "currentSnapshot deps cfg env account nowMs s =
     (let snapshot = buildClaudeUsageSnapshot deps account in
      if \<not> hasCountdown snapshot \<and> usageIsStale cfg account nowMs then
        (case refreshUsageSnapshot deps env (acc_id account) s of
           (s1, Inl err) \<Rightarrow> (s1, Inl err)
         | (s1, Inr None) \<Rightarrow> (s1, Inr (account, snapshot))
         | (s1, Inr (Some refreshed)) \<Rightarrow> (s1, Inr refreshed))
      else (s, Inr (account, snapshot)))"

text \<open>
  \<open>_evaluateAccountForHeartbeat\<close>: \<open>Inr None\<close> is its \<open>null\<close>, \<open>Inr (Some account)\<close> its
  \<open>{ shouldHeartbeat: true, account }\<close>, \<open>Inl\<close> the error it throws.
\<close>

definition evaluateAccountForHeartbeat ::
  "heartbeat_deps \<Rightarrow> heartbeat_config \<Rightarrow> refresh_env \<Rightarrow> claude_account \<Rightarrow> int \<Rightarrow> int \<Rightarrow>
     heartbeat_state \<Rightarrow> heartbeat_state \<times> (herror + claude_account option)" where
  "evaluateAccountForHeartbeat deps cfg env account nowMs cooldownMs s =
     (if \<not> isClaudePlatform account then (s, Inr None)
      else if \<not> isOAuthAccount account then (s, Inr None)
      else if \<not> isAccountHealthy account then (s, Inr None)
      else if \<not> isClaudeMaxAccount deps account then (s, Inr None)
      else if (case recentHeartbeats s (acc_id account) of
                 None \<Rightarrow> False
               | Some lastHeartbeatAt \<Rightarrow>
                   lastHeartbeatAt \<noteq> 0 \<and> nowMs - lastHeartbeatAt < cooldownMs)
           then (s, Inr None)
      else
        (case currentSnapshot deps cfg env account nowMs s of
           (s1, Inl err) \<Rightarrow> (s1, Inl err)
         | (s1, Inr (accountData, snapshot)) \<Rightarrow>
             if hasCountdown snapshot then (s1, Inr None)
             else (s1, Inr (Some accountData))))"

text \<open>
  \<open>parseInt(str, 10)\<close>: leading white space, a sign, then the longest run of digits;
  \<open>None\<close> is \<open>NaN\<close>.
\<close>

definition is_digit :: "nat \<Rightarrow> bool" where
  "is_digit c \<longleftrightarrow> 48 \<le> c \<and> c \<le> 57"

definition digits_value :: "nat list \<Rightarrow> int" where
  "digits_value ds = foldl (\<lambda>acc c. acc * 10 + int (c - 48)) 0 ds"

definition parseInt10 :: "jsstring \<Rightarrow> int option" where
  "parseInt10 str =
     (let s1 = dropWhile is_ws str;
          negative = (case s1 of [] \<Rightarrow> False | c # cs \<Rightarrow> c = 45);
          s2 = (case s1 of [] \<Rightarrow> [] | c # cs \<Rightarrow> if c = 45 \<or> c = 43 then cs else s1);
          ds = takeWhile is_digit s2
      in if ds = [] then None
         else Some (if negative then - digits_value ds else digits_value ds))"

text \<open>
  The third argument of \<open>markAccountRateLimited\<close>:
  \<open>Number.isFinite(parsedReset) ? parsedReset : null\<close>, where \<open>parsedReset\<close> is
  \<open>resetHeader ? parseInt(resetHeader, 10) : null\<close>.
\<close>

definition parsedResetOf :: "heartbeat_deps \<Rightarrow> jsstring option \<Rightarrow> int option" where
  "parsedResetOf deps resetHeader =
     (if opt_truthy resetHeader then
        (case parseInt10 (the resetHeader) of
           None \<Rightarrow> None
         | Some v \<Rightarrow> if \<bar>v\<bar> \<le> 2 ^ 53 then Some v else bigNumber deps v)
      else None)"

text \<open>
  What the world answers during \<open>_sendHeartbeatForAccount\<close>: the token (or its rejection),
  the proxy agent, the POST (axios rejects outside 2xx and on a network error), the refresh
  after a success, the marking call of the \<open>catch\<close>, and the clock read in the \<open>finally\<close>.
\<close>

datatype token_outcome = TokenRejected herror | TokenResolved "jsstring option"

record send_env =
  tokenOutcome :: token_outcome
  proxyAgentError :: "herror option"
  postOutcome :: "herror option"
  postRefresh :: refresh_env
  markError :: "herror option"
  dateNow :: int

text \<open>The \<open>try\<close> block: the state it leaves, and the error it throws into the \<open>catch\<close>, if any.\<close>

definition tryHeartbeat ::
  "heartbeat_deps \<Rightarrow> heartbeat_config \<Rightarrow> claude_account \<Rightarrow> send_env \<Rightarrow> heartbeat_state \<Rightarrow>
     heartbeat_state \<times> herror option" where
  "tryHeartbeat deps cfg account env s =
     (let s1 = s \<lparr> hcalls := hcalls s @ [GetValidAccessToken (acc_id account)] \<rparr> in
      case tokenOutcome env of
        TokenRejected err \<Rightarrow> (s1, Some err)
      | TokenResolved token \<Rightarrow>
          if \<not> opt_truthy token then (s1, None)
          else
            (let s2 = s1 \<lparr> hcalls := hcalls s1 @ [CreateProxyAgent (acc_id account)] \<rparr> in
             case proxyAgentError env of
               Some err \<Rightarrow> (s2, Some err)
             | None \<Rightarrow>
                 if \<not> hb_apiUrl cfg then (s2, Some (HError None None))
                 else
                   (let s3 = s2 \<lparr> hcalls := hcalls s2 @
                               [PostHeartbeat (acc_id account) (the token)] \<rparr> in
                    case postOutcome env of
                      Some err \<Rightarrow> (s3, Some err)
                    | None \<Rightarrow>
                        (case refreshUsageSnapshot deps (postRefresh env) (acc_id account) s3 of
                           (s4, Inl err) \<Rightarrow> (s4, Some err)
                         | (s4, Inr refreshed) \<Rightarrow> (s4, None)))))"

text \<open>The \<open>catch\<close> block: the marking call it makes, and the error that call throws, if any.\<close>

definition catchHeartbeat ::
  "heartbeat_deps \<Rightarrow> claude_account \<Rightarrow> send_env \<Rightarrow> herror \<Rightarrow> heartbeat_state \<Rightarrow>
     heartbeat_state \<times> herror option" where
  "catchHeartbeat deps account env err s =
     (case err of
        HError code resetHeader \<Rightarrow>
          if code = Some 429 then
            (s \<lparr> hcalls := hcalls s @
                   [MarkAccountRateLimited (acc_id account) (parsedResetOf deps resetHeader)] \<rparr>,
             markError env)
          else if code = Some 529 then
            (s \<lparr> hcalls := hcalls s @ [MarkAccountOverloaded (acc_id account)] \<rparr>, markError env)
          else (s, None))"

definition sendHeartbeatForAccount ::
  "heartbeat_deps \<Rightarrow> heartbeat_config \<Rightarrow> claude_account \<Rightarrow> send_env \<Rightarrow> heartbeat_state \<Rightarrow>
     heartbeat_state \<times> herror option" where
  "sendHeartbeatForAccount deps cfg account env s =
     (case (case tryHeartbeat deps cfg account env s of
              (s1, None) \<Rightarrow> (s1, None)
            | (s1, Some err) \<Rightarrow> catchHeartbeat deps account env err s1) of
        (s2, thrown) \<Rightarrow>
          (s2 \<lparr> recentHeartbeats := (recentHeartbeats s2) (acc_id account := Some (dateNow env)) \<rparr>,
           thrown))"

definition cleanupRecentHeartbeats :: "int \<Rightarrow> heartbeat_state \<Rightarrow> heartbeat_state" where
  "cleanupRecentHeartbeats nowMs s =
     s \<lparr> recentHeartbeats :=
           (\<lambda>accountId.
              case recentHeartbeats s accountId of
                None \<Rightarrow> None
              | Some timestamp \<Rightarrow>
                  if timestamp = 0 \<or> nowMs - timestamp > 24 * 60 * 60 * 1000 then None
                  else Some timestamp) \<rparr>"

text \<open>
  The loop of \<open>_runHeartbeatCycle\<close>: each raw account comes with what the world answers
  during its evaluation and its heartbeat. The loop stops at the first call that throws.
\<close>

fun heartbeatLoop ::
  "heartbeat_deps \<Rightarrow> heartbeat_config \<Rightarrow> int \<Rightarrow> (claude_account \<times> refresh_env \<times> send_env) list \<Rightarrow>
     heartbeat_state \<Rightarrow> heartbeat_state \<times> herror option" where
  "heartbeatLoop deps cfg nowMs [] s = (s, None)"
| "heartbeatLoop deps cfg nowMs ((rawAccount, renv, senv) # rest) s =
     (case evaluateAccountForHeartbeat deps cfg renv rawAccount nowMs (cooldownMsOf cfg) s of
        (s1, Inl err) \<Rightarrow> (s1, Some err)
      | (s1, Inr None) \<Rightarrow> heartbeatLoop deps cfg nowMs rest s1
      | (s1, Inr (Some account)) \<Rightarrow>
          (case sendHeartbeatForAccount deps cfg account senv s1 of
             (s2, Some err) \<Rightarrow> (s2, Some err)
           | (s2, None) \<Rightarrow> heartbeatLoop deps cfg nowMs rest s2))"

text \<open>
  One round of that loop on its own: the evaluation of the raw account and, when it says
  so, the heartbeat; with the error that ends the loop, if any.
\<close>

definition heartbeatRound ::
  "heartbeat_deps \<Rightarrow> heartbeat_config \<Rightarrow> int \<Rightarrow> claude_account \<times> refresh_env \<times> send_env \<Rightarrow>
     heartbeat_state \<Rightarrow> heartbeat_state \<times> herror option" where
  "heartbeatRound deps cfg nowMs candidate s =
     (case candidate of
        (rawAccount, renv, senv) \<Rightarrow>
          (case evaluateAccountForHeartbeat deps cfg renv rawAccount nowMs (cooldownMsOf cfg) s of
             (s1, Inl err) \<Rightarrow> (s1, Some err)
           | (s1, Inr None) \<Rightarrow> (s1, None)
           | (s1, Inr (Some account)) \<Rightarrow> sendHeartbeatForAccount deps cfg account senv s1))"

datatype accounts_outcome =
    AccountsRejected herror
  | Accounts "(claude_account \<times> refresh_env \<times> send_env) list"

definition runHeartbeatCycle ::
  "heartbeat_deps \<Rightarrow> heartbeat_config \<Rightarrow> int \<Rightarrow> accounts_outcome \<Rightarrow> heartbeat_state \<Rightarrow>
     heartbeat_state \<times> herror option" where
  "runHeartbeatCycle deps cfg nowMs outcome s =
     (let s0 = s \<lparr> hcalls := hcalls s @ [GetAllClaudeAccounts] \<rparr> in
      case outcome of
        AccountsRejected err \<Rightarrow> (s0, Some err)
      | Accounts rawAccounts \<Rightarrow>
          if rawAccounts = [] then (s0, None)
          else heartbeatLoop deps cfg nowMs rawAccounts (cleanupRecentHeartbeats nowMs s0))"

text \<open>
  \<open>_tick\<close> of the heartbeat service, run from its call to its end. The second component
  tells whether \<open>_tick\<close> itself threw (it never does).
\<close>

definition heartbeat_tick ::
  "heartbeat_deps \<Rightarrow> heartbeat_config \<Rightarrow> int \<Rightarrow> accounts_outcome \<Rightarrow> heartbeat_state \<Rightarrow>
     heartbeat_state \<times> herror option" where
  "heartbeat_tick deps cfg nowMs outcome s =
     (if isRunning s then (s, None)
      else
        (case runHeartbeatCycle deps cfg nowMs outcome (s \<lparr> isRunning := True \<rparr>) of
           (s1, r) \<Rightarrow> (s1 \<lparr> isRunning := False \<rparr>, None)))"

definition heartbeat_stop :: "heartbeat_state \<Rightarrow> heartbeat_state" where
  "heartbeat_stop s =
     s \<lparr> interval := False, isRunning := False, recentHeartbeats := (\<lambda>accountId. None) \<rparr>"

section \<open>The two ticks, interleaved\<close>

text \<open>
  \<open>_tick\<close> is asynchronous: between its first statements and its \<open>finally\<close> the timer can
  fire again, and \<open>start\<close> and \<open>stop\<close> can be called. A run of a monitor is a sequence of
  events: a timer fires \<open>_tick\<close>; the cycle of a tick in flight ends, by returning or by
  throwing (the \<open>catch\<close> drops the error and the \<open>finally\<close> runs in both cases);
  \<open>start\<close> is called (on an enabled service); \<open>stop\<close> is called. Beside the service's
  state the model counts the cycle bodies in flight. An event that cannot happen (a cycle
  ends when none is in flight) gives \<open>None\<close>. The timers are not modelled: \<open>start\<close> of
  the heartbeat service sets a timeout and an interval each time it is called, and \<open>stop\<close>
  clears the last interval only, so a tick may fire at any moment.
\<close>

datatype tick_event = TickFires | CycleReturns | CycleThrows | StartCalled | StopCalled

fun recovery_step ::
  "tick_event \<Rightarrow> recovery_state \<times> nat \<Rightarrow> (recovery_state \<times> nat) option" where
  "recovery_step TickFires (s, inFlight) =
     (if isTickRunning s then Some (s, inFlight)
      else Some (s \<lparr> isTickRunning := True \<rparr>, inFlight + 1))"
| "recovery_step CycleReturns (s, inFlight) =
     (if inFlight = 0 then None
      else Some (s \<lparr> isTickRunning := False \<rparr>, inFlight - 1))"
| "recovery_step CycleThrows (s, inFlight) =
     (if inFlight = 0 then None
      else Some (s \<lparr> isTickRunning := False \<rparr>, inFlight - 1))"
| "recovery_step StartCalled (s, inFlight) =
     (if intervalHandle s then Some (s, inFlight)
      else if isTickRunning s then Some (s \<lparr> intervalHandle := True \<rparr>, inFlight)
      else Some (s \<lparr> intervalHandle := True, isTickRunning := True \<rparr>, inFlight + 1))"
| "recovery_step StopCalled (s, inFlight) = Some (recovery_stop s, inFlight)"

fun heartbeat_step ::
  "tick_event \<Rightarrow> heartbeat_state \<times> nat \<Rightarrow> (heartbeat_state \<times> nat) option" where
  "heartbeat_step TickFires (s, inFlight) =
     (if isRunning s then Some (s, inFlight)
      else Some (s \<lparr> isRunning := True \<rparr>, inFlight + 1))"
| "heartbeat_step CycleReturns (s, inFlight) =
     (if inFlight = 0 then None
      else Some (s \<lparr> isRunning := False \<rparr>, inFlight - 1))"
| "heartbeat_step CycleThrows (s, inFlight) =
     (if inFlight = 0 then None
      else Some (s \<lparr> isRunning := False \<rparr>, inFlight - 1))"
| "heartbeat_step StartCalled (s, inFlight) = Some (s \<lparr> interval := True \<rparr>, inFlight)"
| "heartbeat_step StopCalled (s, inFlight) = Some (heartbeat_stop s, inFlight)"

fun run_events :: "(tick_event \<Rightarrow> 'st \<Rightarrow> 'st option) \<Rightarrow> tick_event list \<Rightarrow> 'st \<Rightarrow> 'st option" where
  "run_events step [] st = Some st"
| "run_events step (e # es) st =
     (case step e st of
        None \<Rightarrow> None
      | Some st1 \<Rightarrow> run_events step es st1)"

text \<open>A run of the heartbeat service in which \<open>stop\<close> is only called while no cycle is in flight.\<close>

fun stop_only_idle :: "tick_event list \<Rightarrow> heartbeat_state \<times> nat \<Rightarrow> bool" where
  "stop_only_idle [] st = True"
| "stop_only_idle (e # es) (s, inFlight) =
     ((e \<noteq> StopCalled \<or> inFlight = 0)
      \<and> (case heartbeat_step e (s, inFlight) of
            None \<Rightarrow> True
          | Some st1 \<Rightarrow> stop_only_idle es st1))"

section \<open>Notions the statements use\<close>

text \<open>
  An attempt reaches its first write when its three timestamps format. The probe finds a text
  when the request is answered below status 400 and the extraction returns a non-blank
  string: the condition of the \<open>if\<close> in the \<open>try\<close> block. The attempt recovers the key
  when it then also gets its two writes through.
\<close>

definition reachesFirstWrite :: "recovery_service \<Rightarrow> recovery_target \<Rightarrow> attempt_env \<Rightarrow> bool" where
  "reachesFirstWrite svc target env =
     (case attemptStamps svc (tgt_entry target) (env_now env) of
        Inl err \<Rightarrow> False
      | Inr stamps \<Rightarrow> True)"

definition textFound :: "attempt_env \<Rightarrow> bool" where
  "textFound env =
     (case probeAndExtract (probeOutcome env) of
        Inl err \<Rightarrow> False
      | Inr extractedText \<Rightarrow> trim extractedText \<noteq> [])"

definition recovers :: "recovery_service \<Rightarrow> recovery_target \<Rightarrow> attempt_env \<Rightarrow> bool" where
  "recovers svc target env \<longleftrightarrow>
     reachesFirstWrite svc target env \<and> pendingWriteOk env \<and> textFound env \<and> resultWriteOk env"

text \<open>The probes among the calls of a recovery cycle.\<close>

fun is_probe :: "rcall \<Rightarrow> bool" where
  "is_probe (ProbeRequest request) = True"
| "is_probe other = False"

text \<open>The calls an attempt, a cycle or a heartbeat added to the log.\<close>

definition new_calls :: "recovery_state \<Rightarrow> recovery_state \<Rightarrow> rcall list" where
  "new_calls s s' = drop (length (calls s)) (calls s')"

definition new_hcalls :: "heartbeat_state \<Rightarrow> heartbeat_state \<Rightarrow> hcall list" where
  "new_hcalls s s' = drop (length (hcalls s)) (hcalls s')"

section \<open>Scenarios\<close>

text \<open>
  A service with the default configuration, and one failing key of account \<open>acct-1\<close>: in
  error for an hour at the time of the attempt, never retried, its parent account
  unschedulable.
\<close>

definition ex_service :: recovery_service where
  "ex_service =
     new_service \<lparr> cfg_enabled = None, cfg_scanIntervalMs = None, cfg_probeIntervalMs = None,
                   cfg_recoveryWindowMs = None, cfg_maxConcurrentProbes = None,
                   cfg_requestTimeout = None \<rparr>"

definition ex_entry :: api_key_entry where
  "ex_entry =
     \<lparr> entry_id = js ''key-1'', entry_key = js ''fk-1'', entry_status = js ''error'',
       errorMessage = js ''401'', errorSince = TsDate 1700000000000,
       recoveryExpiresAt = TsFalsy, nextRecoveryAt = TsFalsy, recoveryAttempts = None,
       lastRecoveryAttemptAt = TsFalsy, lastRecoveryResult = None \<rparr>"

definition ex_target :: recovery_target where
  "ex_target =
     \<lparr> tgt_accountId = js ''acct-1'', tgt_endpointType = Some (js ''openai''),
       tgt_entry = ex_entry \<rparr>"

definition ex_entry2 :: api_key_entry where
  "ex_entry2 = ex_entry \<lparr> entry_id := js ''key-2'', entry_key := js ''fk-2'' \<rparr>"

definition ex_target2 :: recovery_target where
  "ex_target2 = ex_target \<lparr> tgt_entry := ex_entry2 \<rparr>"

definition ex_registry :: recovery_state where
  "ex_registry =
     \<lparr> isTickRunning = False, intervalHandle = True,
       entries = (\<lambda>k. if k = (js ''acct-1'', js ''key-1'') then Some ex_entry
                      else if k = (js ''acct-1'', js ''key-2'') then Some ex_entry2
                      else None),
       accounts = (\<lambda>a. if a = js ''acct-1''
                       then Some \<lparr> da_status = js ''active'', da_schedulable = FlagStr (js ''false''),
                                   da_errorMessage = [] \<rparr>
                       else None),
       calls = [] \<rparr>"

text \<open>The upstream answers 200 with \<open>hello\<close> in a nested content block; every write goes through.\<close>

definition ex_hello :: attempt_env where
  "ex_hello =
     \<lparr> env_now = 1700003600000, pendingWriteOk = True,
       probeOutcome =
         Responded 200
           (JObj [(js ''output'',
                   JArr [JObj [(js ''content'',
                                JArr [JObj [(js ''text'', JStr (js '' hello''))]])]])]),
       resultWriteOk = True, failureWriteOk = True, getAccountOk = True,
       updateAccountOk = True \<rparr>"

text \<open>The connection is refused.\<close>

definition ex_refused :: attempt_env where
  "ex_refused =
     ex_hello \<lparr> probeOutcome := Rejected (NetworkFailure (js ''ECONNREFUSED'') (js ''connect'')) \<rparr>"

text \<open>The registry rejects the pending write.\<close>

definition ex_registry_down :: attempt_env where
  "ex_registry_down = ex_hello \<lparr> pendingWriteOk := False \<rparr>"

text \<open>The upstream answers 200 with a text, and a \<open>null\<close> among the choices.\<close>

definition ex_null_choice :: json where
  "ex_null_choice =
     JObj [(js ''output_text'', JStr (js ''hello'')), (js ''choices'', JArr [JNull])]"

text \<open>The same with no text anywhere: only the \<open>null\<close> choice.\<close>

definition ex_null_only :: json where
  "ex_null_only = JObj [(js ''choices'', JArr [JNull])]"

text \<open>
  A Claude Max OAuth account in good health, never probed, with no usage on record. Its
  \<open>subscriptionInfo\<close> is the JSON text of an object whose \<open>accountType\<close> is
  \<open>claude_max\<close> (34 is the double quote, 123 and 125 the braces, 58 the colon), and the
  \<open>JSON.parse\<close> of the scenarios is the parse of that one text: no other text is parsed
  in them. The snapshot builder reports 20 minutes left once a usage timestamp is on
  record, and nothing left before. The engine rounds an integer beyond 2^53 to the nearest
  double, ties to even, and gives \<open>Infinity\<close> from 2^1024 on.
\<close>

definition ex_subscription_text :: jsstring where
  "ex_subscription_text =
     [123, 34] @ js ''accountType'' @ [34, 58, 34] @ js ''claude_max'' @ [34, 125]"

fun bit_length :: "nat \<Rightarrow> nat" where
  "bit_length n = (if n = 0 then 0 else Suc (bit_length (n div 2)))"

declare bit_length.simps [simp del]

definition nearest_double :: "int \<Rightarrow> int option" where
  "nearest_double v =
     (let a = nat \<bar>v\<bar>;
          e = bit_length a - 53;
          q = a div 2 ^ e;
          r = a mod 2 ^ e;
          up = (2 * r > 2 ^ e \<or> (2 * r = 2 ^ e \<and> odd q));
          m = (if up then q + 1 else q) * 2 ^ e
      in if m \<ge> 2 ^ 1024 then None
         else Some (if v < 0 then - int m else int m))"

definition ex_deps :: heartbeat_deps where
  "ex_deps =
     \<lparr> JSON_parse = (\<lambda>str. if str = ex_subscription_text
                            then Some (JObj [(js ''accountType'', JStr (js ''claude_max''))])
                            else None),
       buildClaudeUsageSnapshot =
         (\<lambda>account. \<lparr> remainingSeconds =
                         (if ts_truthy (acc_claudeUsageUpdatedAt account) then Some 1200
                          else Some 0) \<rparr>),
       bigNumber = nearest_double \<rparr>"

definition ex_hb_config :: heartbeat_config where
  "ex_hb_config =
     \<lparr> hb_cooldownMinutes = None, hb_usageRefreshMaxAgeMs = None, hb_apiUrl = True \<rparr>"

definition ex_account :: claude_account where
  "ex_account =
     \<lparr> acc_id = js ''acct-9'', acc_platform = Some (js ''Claude''), acc_accountType = None,
       acc_scopes = ScopesString (js ''user:profile user:inference''),
       acc_isActive = Some (js ''true''), acc_schedulable = Some (js ''true''),
       acc_fiveHourAutoStopped = None, acc_rateLimitAutoStopped = None,
       acc_rateLimitStatus = None, acc_rateLimitedAt = None, acc_status = Some (js ''active''),
       acc_subscriptionInfo = SubString ex_subscription_text,
       acc_claudeUsageUpdatedAt = TsFalsy \<rparr>"

definition ex_hb_state :: heartbeat_state where
  "ex_hb_state =
     \<lparr> isRunning = False, interval = True, recentHeartbeats = (\<lambda>accountId. None),
       hcalls = [] \<rparr>"

text \<open>The refresh finds nothing new; or it finds a usage, and the account with its timestamp.\<close>

definition ex_refresh_none :: refresh_env where
  "ex_refresh_none =
     \<lparr> fetchOutcome = FetchedNothing, persistOk = True, latestOutcome = LatestMissing \<rparr>"

definition ex_refresh_fresh :: refresh_env where
  "ex_refresh_fresh =
     \<lparr> fetchOutcome = FetchedUsage, persistOk = True,
       latestOutcome =
         LatestAccount (ex_account \<lparr> acc_claudeUsageUpdatedAt := TsDate 1700003600000 \<rparr>) \<rparr>"

text \<open>The probe is answered 429 with the reset header \<open>1700000000\<close>; or there is no token.\<close>

definition ex_send_429 :: send_env where
  "ex_send_429 =
     \<lparr> tokenOutcome = TokenResolved (Some (js ''tok'')), proxyAgentError = None,
       postOutcome = Some (HError (Some 429) (Some (js ''1700000000''))),
       postRefresh = ex_refresh_none, markError = None, dateNow = 1700003601000 \<rparr>"

definition ex_send_notoken :: send_env where
  "ex_send_notoken = ex_send_429 \<lparr> tokenOutcome := TokenResolved None \<rparr>"

text \<open>The marking call of the \<open>catch\<close> rejects.\<close>

definition ex_send_mark_down :: send_env where
  "ex_send_mark_down = ex_send_429 \<lparr> markError := Some (HError None None) \<rparr>"

definition ex_account2 :: claude_account where
  "ex_account2 = ex_account \<lparr> acc_id := js ''acct-10'' \<rparr>"

text \<open>The probe is answered 401: nothing is marked.\<close>

definition ex_send_401 :: send_env where
  "ex_send_401 = ex_send_429 \<lparr> postOutcome := Some (HError (Some 401) None) \<rparr>"

text \<open>A cooldown of 2000 minutes, a little over 33 hours.\<close>

definition ex_hb_long :: heartbeat_config where
  "ex_hb_long = ex_hb_config \<lparr> hb_cooldownMinutes := Some 2000 \<rparr>"

text \<open>A third key of the account, retried five times already.\<close>

definition ex_entry5 :: api_key_entry where
  "ex_entry5 = ex_entry \<lparr> entry_id := js ''key-5'', recoveryAttempts := Some 5 \<rparr>"

definition ex_target5 :: recovery_target where
  "ex_target5 = ex_target \<lparr> tgt_entry := ex_entry5 \<rparr>"

definition ex_registry5 :: recovery_state where
  "ex_registry5 =
     ex_registry \<lparr> entries := (entries ex_registry) ((js ''acct-1'', js ''key-5'') := Some ex_entry5) \<rparr>"

section \<open>Key recovery: the branches of one attempt\<close>

lemma reactivate_entries: "entries (reactivateAccountIfNeeded env a s) = entries s"
  by (simp add: reactivateAccountIfNeeded_def Let_def split: option.splits)

lemma reactivate_guard: "isTickRunning (reactivateAccountIfNeeded env a s) = isTickRunning s"
  by (simp add: reactivateAccountIfNeeded_def Let_def split: option.splits)

lemma reactivate_calls:
  "\<exists>cs. calls (reactivateAccountIfNeeded env a s) = calls s @ GetAccount a # cs"
  by (simp add: reactivateAccountIfNeeded_def Let_def split: option.splits)

lemma update_entries:
  "entries (updateApiKeyRecoveryState ok a i u s) (a, i) =
     (if ok then map_option (apply_update u) (entries s (a, i)) else entries s (a, i))"
  by (simp add: updateApiKeyRecoveryState_def)

lemma update_calls:
  "calls (updateApiKeyRecoveryState ok a i u s) = calls s @ [UpdateApiKeyRecoveryState a i u]"
  by (simp add: updateApiKeyRecoveryState_def)

lemma update_guard: "isTickRunning (updateApiKeyRecoveryState ok a i u s) = isTickRunning s"
  by (simp add: updateApiKeyRecoveryState_def)

lemma probeIssued_entries: "entries (probeIssued svc tgt s) = entries s"
  by (simp add: probeIssued_def)

lemma probeIssued_guard: "isTickRunning (probeIssued svc tgt s) = isTickRunning s"
  by (simp add: probeIssued_def)

lemma probeIssued_calls:
  "calls (probeIssued svc tgt s) =
     calls s @ [ProbeRequest (probeRequest svc (normalizeEndpointType (tgt_endpointType tgt))
                  (entry_key (tgt_entry tgt)))]"
  by (simp add: probeIssued_def)

text \<open>The seven ways through \<open>_attemptRecovery\<close>, and what each leaves.\<close>

lemma attempt_range_error:
  "attemptStamps svc (tgt_entry tgt) (env_now env) = Inl err \<Longrightarrow>
   attemptRecovery svc tgt env s = (s, Some err)"
  by (simp add: attemptRecovery_def Let_def)

lemma attempt_pending_rejected:
  "attemptStamps svc (tgt_entry tgt) (env_now env) = Inr (n, x, d) \<Longrightarrow> \<not> pendingWriteOk env \<Longrightarrow>
   attemptRecovery svc tgt env s =
     (updateApiKeyRecoveryState False (tgt_accountId tgt) (entry_id (tgt_entry tgt))
        (pendingUpdate (tgt_entry tgt) n x d) s, Some CollaboratorFailure)"
  by (simp add: attemptRecovery_def Let_def)

lemma attempt_probe_failed:
  "attemptStamps svc (tgt_entry tgt) (env_now env) = Inr (n, x, d) \<Longrightarrow> pendingWriteOk env \<Longrightarrow>
   probeAndExtract (probeOutcome env) = Inl err \<Longrightarrow>
   attemptRecovery svc tgt env s =
     (updateApiKeyRecoveryState (failureWriteOk env) (tgt_accountId tgt) (entry_id (tgt_entry tgt))
        (retryUpdate (FailedWith err) x d)
        (probeIssued svc tgt
          (updateApiKeyRecoveryState True (tgt_accountId tgt) (entry_id (tgt_entry tgt))
            (pendingUpdate (tgt_entry tgt) n x d) s)),
      if failureWriteOk env then None else Some CollaboratorFailure)"
  by (simp add: attemptRecovery_def tryProbe_def Let_def)

lemma attempt_recovered:
  "attemptStamps svc (tgt_entry tgt) (env_now env) = Inr (n, x, d) \<Longrightarrow> pendingWriteOk env \<Longrightarrow>
   probeAndExtract (probeOutcome env) = Inr t \<Longrightarrow> trim t \<noteq> [] \<Longrightarrow> resultWriteOk env \<Longrightarrow>
   attemptRecovery svc tgt env s =
     (reactivateAccountIfNeeded env (tgt_accountId tgt)
        (updateApiKeyRecoveryState True (tgt_accountId tgt) (entry_id (tgt_entry tgt))
           (recoveredUpdate n)
           (probeIssued svc tgt
             (updateApiKeyRecoveryState True (tgt_accountId tgt) (entry_id (tgt_entry tgt))
               (pendingUpdate (tgt_entry tgt) n x d) s))), None)"
  by (simp add: attemptRecovery_def tryProbe_def Let_def)

lemma attempt_recovered_rejected:
  "attemptStamps svc (tgt_entry tgt) (env_now env) = Inr (n, x, d) \<Longrightarrow> pendingWriteOk env \<Longrightarrow>
   probeAndExtract (probeOutcome env) = Inr t \<Longrightarrow> trim t \<noteq> [] \<Longrightarrow> \<not> resultWriteOk env \<Longrightarrow>
   attemptRecovery svc tgt env s =
     (updateApiKeyRecoveryState (failureWriteOk env) (tgt_accountId tgt) (entry_id (tgt_entry tgt))
        (retryUpdate (FailedWith CollaboratorFailure) x d)
        (updateApiKeyRecoveryState False (tgt_accountId tgt) (entry_id (tgt_entry tgt))
           (recoveredUpdate n)
           (probeIssued svc tgt
             (updateApiKeyRecoveryState True (tgt_accountId tgt) (entry_id (tgt_entry tgt))
               (pendingUpdate (tgt_entry tgt) n x d) s))),
      if failureWriteOk env then None else Some CollaboratorFailure)"
  by (simp add: attemptRecovery_def tryProbe_def Let_def)

lemma attempt_empty:
  "attemptStamps svc (tgt_entry tgt) (env_now env) = Inr (n, x, d) \<Longrightarrow> pendingWriteOk env \<Longrightarrow>
   probeAndExtract (probeOutcome env) = Inr t \<Longrightarrow> trim t = [] \<Longrightarrow> resultWriteOk env \<Longrightarrow>
   attemptRecovery svc tgt env s =
     (updateApiKeyRecoveryState True (tgt_accountId tgt) (entry_id (tgt_entry tgt))
        (retryUpdate (EmptyResponseAt n) x d)
        (probeIssued svc tgt
          (updateApiKeyRecoveryState True (tgt_accountId tgt) (entry_id (tgt_entry tgt))
            (pendingUpdate (tgt_entry tgt) n x d) s)), None)"
  by (simp add: attemptRecovery_def tryProbe_def Let_def)

lemma attempt_empty_rejected:
  "attemptStamps svc (tgt_entry tgt) (env_now env) = Inr (n, x, d) \<Longrightarrow> pendingWriteOk env \<Longrightarrow>
   probeAndExtract (probeOutcome env) = Inr t \<Longrightarrow> trim t = [] \<Longrightarrow> \<not> resultWriteOk env \<Longrightarrow>
   attemptRecovery svc tgt env s =
     (updateApiKeyRecoveryState (failureWriteOk env) (tgt_accountId tgt) (entry_id (tgt_entry tgt))
        (retryUpdate (FailedWith CollaboratorFailure) x d)
        (updateApiKeyRecoveryState False (tgt_accountId tgt) (entry_id (tgt_entry tgt))
           (retryUpdate (EmptyResponseAt n) x d)
           (probeIssued svc tgt
             (updateApiKeyRecoveryState True (tgt_accountId tgt) (entry_id (tgt_entry tgt))
               (pendingUpdate (tgt_entry tgt) n x d) s))),
      if failureWriteOk env then None else Some CollaboratorFailure)"
  by (simp add: attemptRecovery_def tryProbe_def Let_def)

lemma attempt_cases
  [case_names range_error pending_rejected probe_failed recovered recovered_rejected
     empty empty_rejected]:
  obtains err where "attemptStamps svc (tgt_entry tgt) (env_now env) = Inl err"
  | n x d where "attemptStamps svc (tgt_entry tgt) (env_now env) = Inr (n, x, d)"
      "\<not> pendingWriteOk env"
  | n x d err where "attemptStamps svc (tgt_entry tgt) (env_now env) = Inr (n, x, d)"
      "pendingWriteOk env" "probeAndExtract (probeOutcome env) = Inl err"
  | n x d t where "attemptStamps svc (tgt_entry tgt) (env_now env) = Inr (n, x, d)"
      "pendingWriteOk env" "probeAndExtract (probeOutcome env) = Inr t" "trim t \<noteq> []"
      "resultWriteOk env"
  | n x d t where "attemptStamps svc (tgt_entry tgt) (env_now env) = Inr (n, x, d)"
      "pendingWriteOk env" "probeAndExtract (probeOutcome env) = Inr t" "trim t \<noteq> []"
      "\<not> resultWriteOk env"
  | n x d t where "attemptStamps svc (tgt_entry tgt) (env_now env) = Inr (n, x, d)"
      "pendingWriteOk env" "probeAndExtract (probeOutcome env) = Inr t" "trim t = []"
      "resultWriteOk env"
  | n x d t where "attemptStamps svc (tgt_entry tgt) (env_now env) = Inr (n, x, d)"
      "pendingWriteOk env" "probeAndExtract (probeOutcome env) = Inr t" "trim t = []"
      "\<not> resultWriteOk env"
proof (cases "attemptStamps svc (tgt_entry tgt) (env_now env)")
  case (Inl err)
  then show ?thesis using that(1) by blast
next
  case stamps: (Inr st)
  obtain n x d where st: "st = (n, x, d)" by (cases st)
  show ?thesis
  proof (cases "pendingWriteOk env")
    case False
    with stamps st show ?thesis using that(2) by blast
  next
    case True
    show ?thesis
    proof (cases "probeAndExtract (probeOutcome env)")
      case (Inl err)
      with stamps st True show ?thesis using that(3) by blast
    next
      case (Inr t)
      with stamps st True show ?thesis
        using that(4,5,6,7) by (cases "trim t = []"; cases "resultWriteOk env") blast+
    qed
  qed
qed

lemma stamps_facts:
  "attemptStamps svc e now = Inr (n, x, d) \<Longrightarrow>
     n = TsDate now \<and> x = TsDate (now + probeIntervalMs svc)
     \<and> (\<exists>dm. recoveryDeadlineMs svc e now = Some dm \<and> d = TsDate dm)"
  by (auto simp add: attemptStamps_def toISOString_def split: sum.splits option.splits if_splits)

lemma attempt_first_call:
  assumes "attemptStamps svc (tgt_entry tgt) (env_now env) = Inr (n, x, d)"
  shows "\<exists>cs. calls (fst (attemptRecovery svc tgt env s)) =
           calls s @ UpdateApiKeyRecoveryState (tgt_accountId tgt) (entry_id (tgt_entry tgt))
                       (pendingUpdate (tgt_entry tgt) n x d) # cs"
proof (cases rule: attempt_cases[of svc tgt env])
  case (range_error err)
  with assms show ?thesis by simp
next
  case (pending_rejected n' x' d')
  with assms show ?thesis by (simp add: attempt_pending_rejected update_calls)
next
  case (probe_failed n' x' d' err)
  with assms show ?thesis
    by (simp add: attempt_probe_failed update_calls probeIssued_calls)
next
  case (recovered n' x' d' t)
  with assms show ?thesis
    using reactivate_calls[of env "tgt_accountId tgt"
        "updateApiKeyRecoveryState True (tgt_accountId tgt) (entry_id (tgt_entry tgt))
           (recoveredUpdate n)
           (probeIssued svc tgt
             (updateApiKeyRecoveryState True (tgt_accountId tgt) (entry_id (tgt_entry tgt))
               (pendingUpdate (tgt_entry tgt) n x d) s))"]
    by (auto simp add: attempt_recovered update_calls probeIssued_calls)
next
  case (recovered_rejected n' x' d' t)
  with assms show ?thesis
    by (simp add: attempt_recovered_rejected update_calls probeIssued_calls)
next
  case (empty n' x' d' t)
  with assms show ?thesis
    by (simp add: attempt_empty update_calls probeIssued_calls)
next
  case (empty_rejected n' x' d' t)
  with assms show ?thesis
    by (simp add: attempt_empty_rejected update_calls probeIssued_calls)
qed

text \<open>What the three updates do to an entry.\<close>

lemma status_pending: "entry_status (apply_update (pendingUpdate e n x d) e0) = entry_status e0"
  by (simp add: apply_update_def pendingUpdate_def no_update_def)

lemma status_retry: "entry_status (apply_update (retryUpdate note x d) e0) = entry_status e0"
  by (simp add: apply_update_def retryUpdate_def no_update_def)

lemma status_recovered: "entry_status (apply_update (recoveredUpdate n) e0) = js ''active''"
  by (simp add: apply_update_def recoveredUpdate_def)

lemma attempts_pending:
  "recoveryAttempts (apply_update (pendingUpdate e n x d) e0) = Some (previousAttempts e + 1)"
  by (simp add: apply_update_def pendingUpdate_def no_update_def)

lemma attempts_retry:
  "recoveryAttempts (apply_update (retryUpdate note x d) e0) = recoveryAttempts e0"
  by (simp add: apply_update_def retryUpdate_def no_update_def)

lemma attempts_recovered: "recoveryAttempts (apply_update (recoveredUpdate n) e0) = Some 0"
  by (simp add: apply_update_def recoveredUpdate_def)

lemma expires_retry: "recoveryExpiresAt (apply_update (retryUpdate note x d) e0) = d"
  by (simp add: apply_update_def retryUpdate_def no_update_def)

lemma next_retry: "nextRecoveryAt (apply_update (retryUpdate note x d) e0) = x"
  by (simp add: apply_update_def retryUpdate_def no_update_def)

lemma deadline_pending:
  "recoveryDeadlineMs svc e now = Some dm \<Longrightarrow>
   recoveryDeadlineMs svc (apply_update (pendingUpdate e (TsDate now) x (TsDate dm)) e) now'
     = Some dm"
  by (cases "recoveryExpiresAt e"; cases "errorSince e")
     (auto simp add: recoveryDeadlineMs_def apply_update_def pendingUpdate_def no_update_def)

lemma deadline_retry:
  "recoveryDeadlineMs svc (apply_update (retryUpdate note x (TsDate dm)) e0) now' = Some dm"
  by (simp add: recoveryDeadlineMs_def apply_update_def retryUpdate_def no_update_def)

lemmas entry_after =
  update_entries probeIssued_entries reactivate_entries
  status_pending status_retry status_recovered
  attempts_pending attempts_retry attempts_recovered

lemma js_active_error: "js ''active'' \<noteq> js ''error''"
  by (simp add: js_def)

text \<open>The scenarios, evaluated.\<close>

lemma ex_stored:
  "entries ex_registry (tgt_accountId ex_target, entry_id (tgt_entry ex_target))
     = Some (tgt_entry ex_target)"
  by (simp add: ex_registry_def ex_target_def ex_entry_def)

lemma ex_status: "entry_status (tgt_entry ex_target) = js ''error''"
  by (simp add: ex_target_def ex_entry_def)

lemma ex_stamps:
  "attemptStamps ex_service (tgt_entry ex_target) 1700003600000 =
     Inr (TsDate 1700003600000, TsDate 1700003720000, TsDate 1700086400000)"
  by (simp add: ex_service_def ex_target_def ex_entry_def new_service_def or_default_def
        attemptStamps_def toISOString_def recoveryDeadlineMs_def)

lemma ex_hello_text: "probeAndExtract (probeOutcome ex_hello) = Inr (js ''hello'')"
  by (simp add: ex_hello_def probeAndExtract_def sendProbeRequest_def extractResponseText_def
        collected_texts_def collect_output_item_def collect_blocks_def js_def trim_def is_ws_def)

lemma ex_hello_trim: "trim (js ''hello'') = js ''hello''"
  by (simp add: js_def trim_def is_ws_def)

lemma ex_hello_recovers: "recovers ex_service ex_target ex_hello"
  using ex_stamps ex_hello_text ex_hello_trim
  by (simp add: recovers_def reachesFirstWrite_def textFound_def ex_hello_def js_def)

lemma ex_refused_text:
  "probeAndExtract (probeOutcome ex_refused) =
     Inl (NetworkFailure (js ''ECONNREFUSED'') (js ''connect''))"
  by (simp add: ex_refused_def probeAndExtract_def sendProbeRequest_def)

lemma ex_refused_fails:
  "reachesFirstWrite ex_service ex_target ex_refused \<and> pendingWriteOk ex_refused
   \<and> \<not> recovers ex_service ex_target ex_refused"
  using ex_stamps ex_refused_text
  by (simp add: recovers_def reachesFirstWrite_def textFound_def ex_refused_def ex_hello_def)

section \<open>Key recovery: the timeout of a probe\<close>

text \<open>
  C10. Whatever \<open>requestTimeout\<close> is configured (or none), the constructor leaves
  \<open>requestTimeoutMs\<close> in [1000, 600000]: it is the configured value, 600000 when that is
  absent or 0, clamped to that range. The timeout of the request that \<open>_sendProbeRequest\<close>
  builds from it is \<open>requestTimeoutMs\<close> clamped to [5000, 60000]: a configured 30000 is kept,
  none gives 60000, and a configured 100 gives 5000.
\<close>

theorem probe_timeout_bounds:
  "1000 \<le> requestTimeoutMs (new_service cfg)
   \<and> requestTimeoutMs (new_service cfg) \<le> 600000
   \<and> req_timeout (probeRequest (new_service cfg) endpointType apiKey)
       = max (min (requestTimeoutMs (new_service cfg)) 60000) 5000
   \<and> 5000 \<le> req_timeout (probeRequest (new_service cfg) endpointType apiKey)
   \<and> req_timeout (probeRequest (new_service cfg) endpointType apiKey) \<le> 60000
   \<and> requestTimeoutMs (new_service cfg)
       = min (max (case cfg_requestTimeout cfg of None \<Rightarrow> 600000
                   | Some n \<Rightarrow> if n = 0 then 600000 else n) 1000) 600000
   \<and> req_timeout (probeRequest (new_service (cfg \<lparr> cfg_requestTimeout := Some 30000 \<rparr>))
                     endpointType apiKey) = 30000
   \<and> req_timeout (probeRequest (new_service (cfg \<lparr> cfg_requestTimeout := None \<rparr>))
                     endpointType apiKey) = 60000
   \<and> req_timeout (probeRequest (new_service (cfg \<lparr> cfg_requestTimeout := Some 100 \<rparr>))
                     endpointType apiKey) = 5000"
  by (simp add: probeRequest_def new_service_def or_default_def split: option.split)

section \<open>Key recovery: the attempt counter\<close>

text \<open>
  The outcome of one attempt on an entry in status \<open>error\<close>, with the attempts made so far
  written \<open>previousAttempts\<close>.
\<close>

lemma attempt_counter:
  assumes stored: "entries s (tgt_accountId tgt, entry_id (tgt_entry tgt)) = Some (tgt_entry tgt)"
      and status: "entry_status (tgt_entry tgt) = js ''error''"
      and run: "attemptRecovery svc tgt env s = (s', r)"
  shows "\<exists>e'. entries s' (tgt_accountId tgt, entry_id (tgt_entry tgt)) = Some e'
     \<and> (entry_status e' = js ''active'') = recovers svc tgt env
     \<and> (if recovers svc tgt env then recoveryAttempts e' = Some 0
         else entry_status e' = js ''error''
              \<and> previousAttempts (tgt_entry tgt) \<le> previousAttempts e'
              \<and> (if reachesFirstWrite svc tgt env \<and> pendingWriteOk env
                  then recoveryAttempts e' = Some (previousAttempts (tgt_entry tgt) + 1)
                  else e' = tgt_entry tgt))
     \<and> (reachesFirstWrite svc tgt env \<longrightarrow>
           (\<exists>u cs. new_calls s s' =
                      UpdateApiKeyRecoveryState (tgt_accountId tgt) (entry_id (tgt_entry tgt)) u # cs
                    \<and> upd_recoveryAttempts u = Some (previousAttempts (tgt_entry tgt) + 1)))"
proof -
  have first: "reachesFirstWrite svc tgt env \<longrightarrow>
           (\<exists>u cs. new_calls s s' =
                      UpdateApiKeyRecoveryState (tgt_accountId tgt) (entry_id (tgt_entry tgt)) u # cs
                    \<and> upd_recoveryAttempts u = Some (previousAttempts (tgt_entry tgt) + 1))"
  proof
    assume "reachesFirstWrite svc tgt env"
    then obtain n x d where st: "attemptStamps svc (tgt_entry tgt) (env_now env) = Inr (n, x, d)"
      by (auto simp add: reachesFirstWrite_def split: sum.splits)
    from attempt_first_call[OF st, of s] run obtain cs where
      "calls s' = calls s @ UpdateApiKeyRecoveryState (tgt_accountId tgt) (entry_id (tgt_entry tgt))
                       (pendingUpdate (tgt_entry tgt) n x d) # cs" by auto
    then show "\<exists>u cs. new_calls s s' =
                      UpdateApiKeyRecoveryState (tgt_accountId tgt) (entry_id (tgt_entry tgt)) u # cs
                    \<and> upd_recoveryAttempts u = Some (previousAttempts (tgt_entry tgt) + 1)"
      by (simp add: new_calls_def pendingUpdate_def no_update_def)
  qed
  have "\<exists>e'. entries s' (tgt_accountId tgt, entry_id (tgt_entry tgt)) = Some e'
     \<and> (entry_status e' = js ''active'') = recovers svc tgt env
     \<and> (if recovers svc tgt env then recoveryAttempts e' = Some 0
         else entry_status e' = js ''error''
              \<and> previousAttempts (tgt_entry tgt) \<le> previousAttempts e'
              \<and> (if reachesFirstWrite svc tgt env \<and> pendingWriteOk env
                  then recoveryAttempts e' = Some (previousAttempts (tgt_entry tgt) + 1)
                  else e' = tgt_entry tgt))"
  proof (cases rule: attempt_cases[of svc tgt env])
    case (range_error err)
    with run stored status show ?thesis
      by (simp add: attempt_range_error recovers_def reachesFirstWrite_def js_active_error[symmetric])
  next
    case (pending_rejected n x d)
    with run stored status show ?thesis
      using attempt_pending_rejected[of svc tgt env n x d s]
      by (auto simp add: recovers_def entry_after js_active_error[symmetric])
  next
    case (probe_failed n x d err)
    with run stored status show ?thesis
      using attempt_probe_failed[of svc tgt env n x d err s]
      by (auto simp add: recovers_def reachesFirstWrite_def textFound_def entry_after
            previousAttempts_def js_active_error[symmetric])
  next
    case (recovered n x d t)
    with run stored status show ?thesis
      using attempt_recovered[of svc tgt env n x d t s]
      by (auto simp add: recovers_def reachesFirstWrite_def textFound_def entry_after)
  next
    case (recovered_rejected n x d t)
    with run stored status show ?thesis
      using attempt_recovered_rejected[of svc tgt env n x d t s]
      by (auto simp add: recovers_def reachesFirstWrite_def textFound_def entry_after
            previousAttempts_def js_active_error[symmetric])
  next
    case (empty n x d t)
    with run stored status show ?thesis
      using attempt_empty[of svc tgt env n x d t s]
      by (auto simp add: recovers_def reachesFirstWrite_def textFound_def entry_after
            previousAttempts_def js_active_error[symmetric])
  next
    case (empty_rejected n x d t)
    with run stored status show ?thesis
      using attempt_empty_rejected[of svc tgt env n x d t s]
      by (auto simp add: recovers_def reachesFirstWrite_def textFound_def entry_after
            previousAttempts_def js_active_error[symmetric])
  qed
  with first show ?thesis by blast
qed

lemma ex_stored5:
  "entries ex_registry5 (tgt_accountId ex_target5, entry_id (tgt_entry ex_target5))
     = Some (tgt_entry ex_target5)"
  by (simp add: ex_registry5_def ex_target5_def ex_target_def ex_entry5_def)

lemma ex_status5: "entry_status (tgt_entry ex_target5) = js ''error''"
  by (simp add: ex_target5_def ex_entry5_def ex_entry_def)

lemma ex_count5: "recoveryAttempts (tgt_entry ex_target5) = Some 5"
  by (simp add: ex_target5_def ex_entry5_def)

lemma ex_stamps5:
  "attemptStamps ex_service (tgt_entry ex_target5) 1700003600000
     = Inr (TsDate 1700003600000, TsDate 1700003720000, TsDate 1700086400000)"
  by (simp add: ex_service_def ex_target5_def ex_target_def ex_entry5_def ex_entry_def
        new_service_def or_default_def attemptStamps_def toISOString_def recoveryDeadlineMs_def)

lemma ex_refused_fails5:
  "reachesFirstWrite ex_service ex_target5 ex_refused \<and> pendingWriteOk ex_refused
   \<and> \<not> recovers ex_service ex_target5 ex_refused"
  using ex_stamps5 ex_refused_text
  by (simp add: reachesFirstWrite_def recovers_def textFound_def ex_refused_def ex_hello_def)

lemma ex_hello_recovers5: "recovers ex_service ex_target5 ex_hello"
  using ex_stamps5 ex_hello_text ex_hello_trim
  by (simp add: recovers_def reachesFirstWrite_def textFound_def ex_hello_def js_def)

text \<open>
  C2. Take an entry in status \<open>error\<close>, as the registry holds it, and run one attempt on it.
  The entry the registry holds afterwards is \<open>active\<close> exactly when the attempt recovers the
  key: the probe's response yields a non-blank extracted text, and the writes got through.
  In that case its \<open>recoveryAttempts\<close> is 0. Otherwise the entry stays in \<open>error\<close> and the
  counter has not gone down: it is the stored \<open>recoveryAttempts\<close> of the entry (0 when the
  field is absent) plus 1 once the pending write is persisted, and the entry is untouched
  when the attempt never got that far. The first write of every attempt that reaches it
  carries the stored count plus 1.
\<close>

theorem recovery_attempts_counter:
  assumes stored: "entries s (tgt_accountId tgt, entry_id (tgt_entry tgt)) = Some (tgt_entry tgt)"
      and status: "entry_status (tgt_entry tgt) = js ''error''"
      and run: "attemptRecovery svc tgt env s = (s', r)"
  shows "\<exists>e'. entries s' (tgt_accountId tgt, entry_id (tgt_entry tgt)) = Some e'
     \<and> (entry_status e' = js ''active'') = recovers svc tgt env
     \<and> (if recovers svc tgt env then recoveryAttempts e' = Some 0
         else entry_status e' = js ''error''
              \<and> (case recoveryAttempts (tgt_entry tgt) of None \<Rightarrow> 0 | Some c \<Rightarrow> c)
                  \<le> (case recoveryAttempts e' of None \<Rightarrow> 0 | Some c \<Rightarrow> c)
              \<and> (if reachesFirstWrite svc tgt env \<and> pendingWriteOk env
                  then recoveryAttempts e'
                         = Some ((case recoveryAttempts (tgt_entry tgt) of None \<Rightarrow> 0
                                  | Some c \<Rightarrow> c) + 1)
                  else e' = tgt_entry tgt))
     \<and> (reachesFirstWrite svc tgt env \<longrightarrow>
           (\<exists>u cs. new_calls s s' =
                      UpdateApiKeyRecoveryState (tgt_accountId tgt) (entry_id (tgt_entry tgt)) u # cs
                    \<and> upd_recoveryAttempts u
                        = Some ((case recoveryAttempts (tgt_entry tgt) of None \<Rightarrow> 0
                                 | Some c \<Rightarrow> c) + 1)))"
  using attempt_counter[OF stored status run] unfolding previousAttempts_def .

text \<open>
  A key retried five times already. Connection refused: the entry stays in \<open>error\<close>, at 6
  attempts, and the first write carries 6. The scenario of the spec, \<open>hello\<close> in nested
  content: the entry is active, back at 0 attempts.
\<close>

theorem recovery_attempts_counter_witness:
  "entries ex_registry5 (tgt_accountId ex_target5, entry_id (tgt_entry ex_target5))
     = Some (tgt_entry ex_target5)
   \<and> entry_status (tgt_entry ex_target5) = js ''error''
   \<and> recoveryAttempts (tgt_entry ex_target5) = Some 5
   \<and> reachesFirstWrite ex_service ex_target5 ex_refused
   \<and> pendingWriteOk ex_refused
   \<and> \<not> recovers ex_service ex_target5 ex_refused
   \<and> (\<exists>e'. entries (fst (attemptRecovery ex_service ex_target5 ex_refused ex_registry5))
              (tgt_accountId ex_target5, entry_id (tgt_entry ex_target5)) = Some e'
          \<and> entry_status e' = js ''error'' \<and> recoveryAttempts e' = Some 6)
   \<and> (\<exists>u cs. new_calls ex_registry5
                 (fst (attemptRecovery ex_service ex_target5 ex_refused ex_registry5))
               = UpdateApiKeyRecoveryState (tgt_accountId ex_target5)
                   (entry_id (tgt_entry ex_target5)) u # cs
             \<and> upd_recoveryAttempts u = Some 6)
   \<and> recovers ex_service ex_target5 ex_hello
   \<and> (\<exists>e'. entries (fst (attemptRecovery ex_service ex_target5 ex_hello ex_registry5))
              (tgt_accountId ex_target5, entry_id (tgt_entry ex_target5)) = Some e'
          \<and> entry_status e' = js ''active'' \<and> recoveryAttempts e' = Some 0)"
proof -
  note refused =
    recovery_attempts_counter[OF ex_stored5 ex_status5 surjective_pairing,
      where svc = ex_service and env = ex_refused]
  note hello =
    recovery_attempts_counter[OF ex_stored5 ex_status5 surjective_pairing,
      where svc = ex_service and env = ex_hello]
  have a: "\<exists>e'. entries (fst (attemptRecovery ex_service ex_target5 ex_refused ex_registry5))
              (tgt_accountId ex_target5, entry_id (tgt_entry ex_target5)) = Some e'
          \<and> entry_status e' = js ''error'' \<and> recoveryAttempts e' = Some 6"
    using refused ex_refused_fails5 ex_count5 by auto
  have b: "\<exists>u cs. new_calls ex_registry5
                 (fst (attemptRecovery ex_service ex_target5 ex_refused ex_registry5))
               = UpdateApiKeyRecoveryState (tgt_accountId ex_target5)
                   (entry_id (tgt_entry ex_target5)) u # cs
             \<and> upd_recoveryAttempts u = Some 6"
    using refused ex_refused_fails5 ex_count5 by auto
  have c: "\<exists>e'. entries (fst (attemptRecovery ex_service ex_target5 ex_hello ex_registry5))
              (tgt_accountId ex_target5, entry_id (tgt_entry ex_target5)) = Some e'
          \<and> entry_status e' = js ''active'' \<and> recoveryAttempts e' = Some 0"
    using hello ex_hello_recovers5 by auto
  from a b c show ?thesis
    using ex_stored5 ex_status5 ex_count5 ex_refused_fails5 ex_hello_recovers5 by simp
qed

section \<open>Key recovery: the deadline\<close>

text \<open>
  C3. Take an attempt that persists its pending update and does not recover the key (the
  probe failed, or was inconclusive, or the result could not be written). The deadline
  \<open>d\<close> the attempt computes is the persisted \<open>recoveryExpiresAt\<close> when that parses, and
  otherwise \<open>errorSince\<close> plus the recovery window (the time of the attempt plus the
  window when \<open>errorSince\<close> is not set either). The last write of the attempt carries
  exactly \<open>d\<close> as \<open>recoveryExpiresAt\<close> (and now plus the probe interval as
  \<open>nextRecoveryAt\<close>), and when the attempt returns, the entry holds them, in its old status.
  From the entry the registry holds afterwards, an attempt at any later time computes the
  same \<open>d\<close>: the deadline is stable from one failed attempt to the next.
\<close>

theorem recovery_deadline_stable:
  assumes stored: "entries s (tgt_accountId tgt, entry_id (tgt_entry tgt)) = Some (tgt_entry tgt)"
      and run: "attemptRecovery svc tgt env s = (s', r)"
      and started: "reachesFirstWrite svc tgt env"
      and pending: "pendingWriteOk env"
      and failed: "\<not> recovers svc tgt env"
  shows "\<exists>e' d note.
     entries s' (tgt_accountId tgt, entry_id (tgt_entry tgt)) = Some e'
     \<and> recoveryDeadlineMs svc (tgt_entry tgt) (env_now env) = Some d
     \<and> (\<forall>p. recoveryExpiresAt (tgt_entry tgt) = TsDate p \<longrightarrow> d = p)
     \<and> (\<forall>t. Date_parse (recoveryExpiresAt (tgt_entry tgt)) = None \<longrightarrow>
              errorSince (tgt_entry tgt) = TsDate t \<longrightarrow> d = t + recoveryWindowMs svc)
     \<and> (Date_parse (recoveryExpiresAt (tgt_entry tgt)) = None \<longrightarrow>
              errorSince (tgt_entry tgt) = TsFalsy \<longrightarrow> d = env_now env + recoveryWindowMs svc)
     \<and> (\<forall>now'. recoveryDeadlineMs svc e' now' = Some d)
     \<and> last (calls s') =
         UpdateApiKeyRecoveryState (tgt_accountId tgt) (entry_id (tgt_entry tgt))
           (retryUpdate note (TsDate (env_now env + probeIntervalMs svc)) (TsDate d))
     \<and> (r = None \<longrightarrow> recoveryExpiresAt e' = TsDate d
                      \<and> nextRecoveryAt e' = TsDate (env_now env + probeIntervalMs svc)
                      \<and> entry_status e' = entry_status (tgt_entry tgt))"
proof -
  from started obtain n x d where st: "attemptStamps svc (tgt_entry tgt) (env_now env) = Inr (n, x, d)"
    by (auto simp add: reachesFirstWrite_def split: sum.splits)
  from stamps_facts[OF st] obtain dm where
    f: "n = TsDate (env_now env)" "x = TsDate (env_now env + probeIntervalMs svc)"
       "recoveryDeadlineMs svc (tgt_entry tgt) (env_now env) = Some dm" "d = TsDate dm" by auto
  have src: "(\<forall>p. recoveryExpiresAt (tgt_entry tgt) = TsDate p \<longrightarrow> dm = p)
     \<and> (\<forall>t. Date_parse (recoveryExpiresAt (tgt_entry tgt)) = None \<longrightarrow>
              errorSince (tgt_entry tgt) = TsDate t \<longrightarrow> dm = t + recoveryWindowMs svc)
     \<and> (Date_parse (recoveryExpiresAt (tgt_entry tgt)) = None \<longrightarrow>
              errorSince (tgt_entry tgt) = TsFalsy \<longrightarrow> dm = env_now env + recoveryWindowMs svc)"
    using f(3) by (cases "recoveryExpiresAt (tgt_entry tgt)"; cases "errorSince (tgt_entry tgt)")
      (auto simp add: recoveryDeadlineMs_def)
  have "\<exists>e' note.
     entries s' (tgt_accountId tgt, entry_id (tgt_entry tgt)) = Some e'
     \<and> (\<forall>now'. recoveryDeadlineMs svc e' now' = Some dm)
     \<and> last (calls s') =
         UpdateApiKeyRecoveryState (tgt_accountId tgt) (entry_id (tgt_entry tgt))
           (retryUpdate note (TsDate (env_now env + probeIntervalMs svc)) (TsDate dm))
     \<and> (r = None \<longrightarrow> recoveryExpiresAt e' = TsDate dm
                      \<and> nextRecoveryAt e' = TsDate (env_now env + probeIntervalMs svc)
                      \<and> entry_status e' = entry_status (tgt_entry tgt))"
  proof (cases rule: attempt_cases[of svc tgt env])
    case (range_error err)
    with st show ?thesis by simp
  next
    case (pending_rejected n' x' d')
    with pending show ?thesis by simp
  next
    case (probe_failed n' x' d' err)
    with st f run stored show ?thesis
      using attempt_probe_failed[of svc tgt env n x d err s]
      by (auto simp add: entry_after update_calls deadline_pending deadline_retry expires_retry next_retry)
  next
    case (recovered n' x' d' t)
    with failed started show ?thesis by (simp add: recovers_def textFound_def)
  next
    case (recovered_rejected n' x' d' t)
    with st f run stored show ?thesis
      using attempt_recovered_rejected[of svc tgt env n x d t s]
      by (auto simp add: entry_after update_calls deadline_pending deadline_retry expires_retry next_retry)
  next
    case (empty n' x' d' t)
    with st f run stored show ?thesis
      using attempt_empty[of svc tgt env n x d t s]
      by (auto simp add: entry_after update_calls deadline_pending deadline_retry expires_retry next_retry)
  next
    case (empty_rejected n' x' d' t)
    with st f run stored show ?thesis
      using attempt_empty_rejected[of svc tgt env n x d t s]
      by (auto simp add: entry_after update_calls deadline_pending deadline_retry expires_retry next_retry)
  qed
  then obtain e' nt where k:
     "entries s' (tgt_accountId tgt, entry_id (tgt_entry tgt)) = Some e'
     \<and> (\<forall>now'. recoveryDeadlineMs svc e' now' = Some dm)
     \<and> last (calls s') =
         UpdateApiKeyRecoveryState (tgt_accountId tgt) (entry_id (tgt_entry tgt))
           (retryUpdate nt (TsDate (env_now env + probeIntervalMs svc)) (TsDate dm))
     \<and> (r = None \<longrightarrow> recoveryExpiresAt e' = TsDate dm
                      \<and> nextRecoveryAt e' = TsDate (env_now env + probeIntervalMs svc)
                      \<and> entry_status e' = entry_status (tgt_entry tgt))"
    by blast
  show ?thesis
    apply (rule exI[where x = e'])
    apply (rule exI[where x = dm])
    apply (rule exI[where x = nt])
    using f(3) src k apply (intro conjI)
           apply (elim conjE, assumption)+
    done
qed

text \<open>The connection-refused scenario: the deadline is \<open>errorSince\<close> plus 24 hours, and stays.\<close>

theorem recovery_deadline_stable_witness:
  "entries ex_registry (tgt_accountId ex_target, entry_id (tgt_entry ex_target))
     = Some (tgt_entry ex_target)
   \<and> reachesFirstWrite ex_service ex_target ex_refused
   \<and> pendingWriteOk ex_refused
   \<and> \<not> recovers ex_service ex_target ex_refused
   \<and> (\<exists>e'. entries (fst (attemptRecovery ex_service ex_target ex_refused ex_registry))
              (tgt_accountId ex_target, entry_id (tgt_entry ex_target)) = Some e'
          \<and> recoveryDeadlineMs ex_service (tgt_entry ex_target) (env_now ex_refused)
              = Some 1700086400000
          \<and> (\<forall>now'. recoveryDeadlineMs ex_service e' now' = Some 1700086400000))"
proof -
  have now: "env_now ex_refused = 1700003600000"
    by (simp add: ex_refused_def ex_hello_def)
  have d: "recoveryDeadlineMs ex_service (tgt_entry ex_target) (env_now ex_refused)
             = Some 1700086400000"
    using stamps_facts[OF ex_stamps] now by simp
  from recovery_deadline_stable[OF ex_stored surjective_pairing, of ex_service ex_refused]
    ex_refused_fails d
  show ?thesis using ex_stored by auto
qed

section \<open>Key recovery: a null among the choices\<close>

text \<open>
  C7, at the input where the code leaves it. The loop over \<open>data.choices\<close> reads
  \<open>choice.output_text\<close> without the guard it gives \<open>choice.message\<close>. With a \<open>null\<close>
  choice the extraction throws a TypeError: with a text collected before (here
  \<open>output_text\<close> is \<open>hello\<close>) the key is not recovered, and with no text anywhere the attempt
  is recorded as failed (\<open>Failed: ...\<close>), not as an empty response.
\<close>

theorem extraction_null_choice:
  "jsget (js ''output_text'') ex_null_choice = Some (JStr (js ''hello''))
   \<and> extractResponseText ex_null_choice = Inl TypeError
   \<and> \<not> recovers ex_service ex_target (ex_hello \<lparr> probeOutcome := Responded 200 ex_null_choice \<rparr>)
   \<and> extractResponseText ex_null_only = Inl TypeError
   \<and> last (calls (fst (attemptRecovery ex_service ex_target
                          (ex_hello \<lparr> probeOutcome := Responded 200 ex_null_only \<rparr>) ex_registry)))
       = UpdateApiKeyRecoveryState (tgt_accountId ex_target) (entry_id (tgt_entry ex_target))
           (retryUpdate (FailedWith TypeError) (TsDate 1700003720000) (TsDate 1700086400000))"
proof -
  have get: "jsget (js ''output_text'') ex_null_choice = Some (JStr (js ''hello''))"
    by (simp add: ex_null_choice_def js_def)
  have x1: "extractResponseText ex_null_choice = Inl TypeError"
    by (simp add: ex_null_choice_def extractResponseText_def collected_texts_def
          collect_choice_def js_def trim_def is_ws_def)
  have x2: "extractResponseText ex_null_only = Inl TypeError"
    by (simp add: ex_null_only_def extractResponseText_def collected_texts_def
          collect_choice_def js_def)
  have n1: "\<not> recovers ex_service ex_target (ex_hello \<lparr> probeOutcome := Responded 200 ex_null_choice \<rparr>)"
    using x1 by (simp add: recovers_def textFound_def probeAndExtract_def sendProbeRequest_def)
  have st: "attemptStamps ex_service (tgt_entry ex_target)
              (env_now (ex_hello \<lparr> probeOutcome := Responded 200 ex_null_only \<rparr>))
            = Inr (TsDate 1700003600000, TsDate 1700003720000, TsDate 1700086400000)"
    using ex_stamps by (simp add: ex_hello_def)
  have pw: "pendingWriteOk (ex_hello \<lparr> probeOutcome := Responded 200 ex_null_only \<rparr>)"
    and fw: "failureWriteOk (ex_hello \<lparr> probeOutcome := Responded 200 ex_null_only \<rparr>)"
    by (simp_all add: ex_hello_def)
  have pe: "probeAndExtract (probeOutcome (ex_hello \<lparr> probeOutcome := Responded 200 ex_null_only \<rparr>))
            = Inl TypeError"
    using x2 by (simp add: probeAndExtract_def sendProbeRequest_def)
  show ?thesis
    using get x1 n1 x2 fw
    by (simp add: attempt_probe_failed[OF st pw pe] update_calls)
qed

section \<open>Errors within a cycle\<close>

text \<open>What one attempt, one heartbeat and one evaluation let escape.\<close>

lemma reactivate_probes:
  "\<exists>cs. calls (reactivateAccountIfNeeded env a s) = calls s @ cs \<and> filter is_probe cs = []"
  by (simp add: reactivateAccountIfNeeded_def Let_def split: option.splits)

lemma attempt_contained:
  assumes started: "reachesFirstWrite svc tgt env"
      and pending: "pendingWriteOk env"
      and failure: "failureWriteOk env"
  shows "snd (attemptRecovery svc tgt env s) = None
     \<and> (\<exists>cs. calls (fst (attemptRecovery svc tgt env s)) = calls s @ cs
              \<and> length (filter is_probe cs) = 1)"
proof (cases rule: attempt_cases[of svc tgt env])
  case (range_error err)
  with started show ?thesis by (simp add: reachesFirstWrite_def)
next
  case (pending_rejected n x d)
  with pending show ?thesis by simp
next
  case (probe_failed n x d err)
  with failure show ?thesis
    by (simp add: attempt_probe_failed update_calls probeIssued_calls)
next
  case (recovered n x d t)
  then show ?thesis
    using reactivate_probes[of env "tgt_accountId tgt"
        "updateApiKeyRecoveryState True (tgt_accountId tgt) (entry_id (tgt_entry tgt))
           (recoveredUpdate n)
           (probeIssued svc tgt
             (updateApiKeyRecoveryState True (tgt_accountId tgt) (entry_id (tgt_entry tgt))
               (pendingUpdate (tgt_entry tgt) n x d) s))"]
    by (auto simp add: attempt_recovered update_calls probeIssued_calls)
next
  case (recovered_rejected n x d t)
  with failure show ?thesis
    by (simp add: attempt_recovered_rejected update_calls probeIssued_calls)
next
  case (empty n x d t)
  then show ?thesis
    by (simp add: attempt_empty update_calls probeIssued_calls)
next
  case (empty_rejected n x d t)
  with failure show ?thesis
    by (simp add: attempt_empty_rejected update_calls probeIssued_calls)
qed

lemma attemptAll_contained:
  assumes "\<forall>(target, env) \<in> set targets.
             reachesFirstWrite svc target env \<and> pendingWriteOk env \<and> failureWriteOk env"
  shows "snd (attemptAll svc targets s) = None
     \<and> (\<exists>cs. calls (fst (attemptAll svc targets s)) = calls s @ cs
              \<and> length (filter is_probe cs) = length targets)"
  using assms
proof (induction targets arbitrary: s)
  case Nil
  then show ?case by simp
next
  case (Cons p rest)
  obtain target env where p: "p = (target, env)" by (cases p)
  from Cons.prems p have ok: "reachesFirstWrite svc target env" "pendingWriteOk env" "failureWriteOk env"
    by auto
  from attempt_contained[OF ok, of s] obtain cs1 where
    a: "snd (attemptRecovery svc target env s) = None"
       "calls (fst (attemptRecovery svc target env s)) = calls s @ cs1"
       "length (filter is_probe cs1) = 1" by blast
  obtain s1 where s1: "attemptRecovery svc target env s = (s1, None)"
    using a(1) by (cases "attemptRecovery svc target env s") simp
  from Cons.prems have "\<forall>(target, env) \<in> set rest.
             reachesFirstWrite svc target env \<and> pendingWriteOk env \<and> failureWriteOk env" by simp
  from Cons.IH[OF this, of s1] obtain cs2 where
    b: "snd (attemptAll svc rest s1) = None"
       "calls (fst (attemptAll svc rest s1)) = calls s1 @ cs2"
       "length (filter is_probe cs2) = length rest" by blast
  from a s1 b p show ?case by simp
qed

lemma attemptAll_fold:
  assumes "\<forall>(target, env) \<in> set targets.
             reachesFirstWrite svc target env \<and> pendingWriteOk env \<and> failureWriteOk env"
  shows "attemptAll svc targets s
     = (foldl (\<lambda>st (target, env). fst (attemptRecovery svc target env st)) s targets, None)"
  using assms
proof (induction targets arbitrary: s)
  case Nil
  then show ?case by simp
next
  case (Cons p rest)
  obtain target env where p: "p = (target, env)" by (cases p)
  from Cons.prems p have ok: "reachesFirstWrite svc target env" "pendingWriteOk env" "failureWriteOk env"
    by auto
  from attempt_contained[OF ok, of s] obtain s1 where
    s1: "attemptRecovery svc target env s = (s1, None)"
    by (cases "attemptRecovery svc target env s") simp
  from Cons.prems have "\<forall>(target, env) \<in> set rest.
             reachesFirstWrite svc target env \<and> pendingWriteOk env \<and> failureWriteOk env" by simp
  from Cons.IH[OF this, of s1] s1 p show ?case by simp
qed

lemma recovery_tick_guard:
  "snd (recovery_tick svc outcome s) = None
   \<and> (isTickRunning s \<longrightarrow> recovery_tick svc outcome s = (s, None))
   \<and> (\<not> isTickRunning s \<longrightarrow> \<not> isTickRunning (fst (recovery_tick svc outcome s)))"
  by (simp add: recovery_tick_def split: prod.splits)

lemma send_contained:
  "markError env = None \<Longrightarrow> snd (sendHeartbeatForAccount deps cfg account env s) = None"
  by (auto simp add: sendHeartbeatForAccount_def catchHeartbeat_def
        split: prod.splits option.splits herror.splits)

lemma currentSnapshot_contained:
  "(\<forall>err. latestOutcome renv \<noteq> LatestRejected err) \<Longrightarrow>
   \<exists>r. snd (currentSnapshot deps cfg renv account nowMs s) = Inr r"
  by (auto simp add: currentSnapshot_def refreshUsageSnapshot_def Let_def
        split: latest_outcome.splits)

lemma evaluate_contained:
  assumes "\<forall>err. latestOutcome renv \<noteq> LatestRejected err"
  shows "\<exists>r. snd (evaluateAccountForHeartbeat deps cfg renv account nowMs cooldownMs s) = Inr r"
  using currentSnapshot_contained[OF assms, of deps cfg account nowMs s]
  by (auto simp add: evaluateAccountForHeartbeat_def split: prod.splits sum.splits)

lemma heartbeatLoop_contained:
  assumes "\<forall>(account, renv, senv) \<in> set rawAccounts.
             (\<forall>err. latestOutcome renv \<noteq> LatestRejected err) \<and> markError senv = None"
  shows "snd (heartbeatLoop deps cfg nowMs rawAccounts s) = None"
  using assms
proof (induction rawAccounts arbitrary: s)
  case Nil
  then show ?case by simp
next
  case (Cons p rest)
  obtain account renv senv where p: "p = (account, renv, senv)" by (cases p)
  from Cons.prems p have ok: "\<forall>err. latestOutcome renv \<noteq> LatestRejected err" "markError senv = None"
    by auto
  from Cons.prems have rest: "\<forall>(account, renv, senv) \<in> set rest.
             (\<forall>err. latestOutcome renv \<noteq> LatestRejected err) \<and> markError senv = None" by simp
  from evaluate_contained[OF ok(1), of deps cfg account nowMs "cooldownMsOf cfg" s]
  obtain s1 r where ev: "evaluateAccountForHeartbeat deps cfg renv account nowMs (cooldownMsOf cfg) s
      = (s1, Inr r)"
    by (cases "evaluateAccountForHeartbeat deps cfg renv account nowMs (cooldownMsOf cfg) s") auto
  show ?case
  proof (cases r)
    case None
    with ev p Cons.IH[OF rest, of s1] show ?thesis by simp
  next
    case (Some a)
    from send_contained[OF ok(2), of deps cfg a s1] obtain s2 where
      sd: "sendHeartbeatForAccount deps cfg a senv s1 = (s2, None)"
      by (cases "sendHeartbeatForAccount deps cfg a senv s1") simp
    with Some ev p Cons.IH[OF rest, of s2] show ?thesis by simp
  qed
qed

text \<open>The loop, round by round.\<close>

lemma heartbeatLoop_round:
  "heartbeatLoop deps cfg nowMs (candidate # rest) s =
     (case heartbeatRound deps cfg nowMs candidate s of
        (s1, Some err) \<Rightarrow> (s1, Some err)
      | (s1, None) \<Rightarrow> heartbeatLoop deps cfg nowMs rest s1)"
  by (cases candidate)
    (simp add: heartbeatRound_def split: prod.splits sum.splits option.splits)

lemma round_contained:
  assumes "\<forall>err. latestOutcome renv \<noteq> LatestRejected err" "markError senv = None"
  shows "snd (heartbeatRound deps cfg nowMs (account, renv, senv) s) = None"
proof -
  from evaluate_contained[OF assms(1), of deps cfg account nowMs "cooldownMsOf cfg" s]
  obtain s1 r where ev:
    "evaluateAccountForHeartbeat deps cfg renv account nowMs (cooldownMsOf cfg) s = (s1, Inr r)"
    by (cases "evaluateAccountForHeartbeat deps cfg renv account nowMs (cooldownMsOf cfg) s") auto
  show ?thesis
  proof (cases r)
    case None
    with ev show ?thesis by (simp add: heartbeatRound_def)
  next
    case (Some a)
    with ev send_contained[OF assms(2), of deps cfg a s1] show ?thesis
      by (simp add: heartbeatRound_def)
  qed
qed

lemma heartbeatLoop_fold:
  assumes "\<forall>(account, renv, senv) \<in> set rawAccounts.
             (\<forall>err. latestOutcome renv \<noteq> LatestRejected err) \<and> markError senv = None"
  shows "heartbeatLoop deps cfg nowMs rawAccounts s
     = (foldl (\<lambda>st candidate. fst (heartbeatRound deps cfg nowMs candidate st)) s rawAccounts, None)"
  using assms
proof (induction rawAccounts arbitrary: s)
  case Nil
  then show ?case by simp
next
  case (Cons p rest)
  obtain account renv senv where p: "p = (account, renv, senv)" by (cases p)
  from Cons.prems p have ok: "\<forall>err. latestOutcome renv \<noteq> LatestRejected err" "markError senv = None"
    by auto
  from Cons.prems have rest: "\<forall>(account, renv, senv) \<in> set rest.
             (\<forall>err. latestOutcome renv \<noteq> LatestRejected err) \<and> markError senv = None" by simp
  obtain s1 where r: "heartbeatRound deps cfg nowMs p s = (s1, None)"
    using round_contained[OF ok, of deps cfg nowMs account s] p
    by (cases "heartbeatRound deps cfg nowMs p s") simp
  show ?case
    using r Cons.IH[OF rest, of s1] by (simp add: heartbeatLoop_round)
qed

lemma heartbeat_tick_guard:
  "snd (heartbeat_tick deps cfg nowMs outcome s) = None
   \<and> (isRunning s \<longrightarrow> heartbeat_tick deps cfg nowMs outcome s = (s, None))
   \<and> (\<not> isRunning s \<longrightarrow> \<not> isRunning (fst (heartbeat_tick deps cfg nowMs outcome s)))"
  by (simp add: heartbeat_tick_def split: prod.splits)

text \<open>The scenarios, evaluated.\<close>

lemma ex_stored2:
  "entries ex_registry (tgt_accountId ex_target2, entry_id (tgt_entry ex_target2))
     = Some (tgt_entry ex_target2)"
  by (simp add: ex_registry_def ex_target2_def ex_target_def ex_entry2_def ex_entry_def js_def)

lemma ex_stamps2:
  "attemptStamps ex_service (tgt_entry ex_target2) 1700003600000 =
     Inr (TsDate 1700003600000, TsDate 1700003720000, TsDate 1700086400000)"
  by (simp add: ex_service_def ex_target2_def ex_target_def ex_entry2_def ex_entry_def
        new_service_def or_default_def attemptStamps_def toISOString_def recoveryDeadlineMs_def)

lemma ex_hello_now: "env_now ex_hello = 1700003600000"
  by (simp add: ex_hello_def)

lemma ex_hello_recovers2: "recovers ex_service ex_target2 ex_hello"
  using ex_stamps2 ex_hello_text ex_hello_trim
  by (simp add: recovers_def reachesFirstWrite_def textFound_def ex_hello_def js_def)

lemma ex_down:
  "env_now ex_registry_down = 1700003600000 \<and> \<not> pendingWriteOk ex_registry_down"
  by (simp add: ex_registry_down_def ex_hello_def)

lemma ex_down_attempt:
  "attemptRecovery ex_service ex_target ex_registry_down s =
     (updateApiKeyRecoveryState False (tgt_accountId ex_target) (entry_id (tgt_entry ex_target))
        (pendingUpdate (tgt_entry ex_target) (TsDate 1700003600000) (TsDate 1700003720000)
           (TsDate 1700086400000)) s,
      Some CollaboratorFailure)"
  using ex_down ex_stamps
  by (simp add: attempt_pending_rejected)

lemma ex_subscription_trim: "trim ex_subscription_text \<noteq> []"
  by (simp add: ex_subscription_text_def trim_def is_ws_def js_def)

lemma ex_gates:
  "isClaudePlatform ex_account \<and> isOAuthAccount ex_account \<and> isAccountHealthy ex_account
   \<and> isClaudeMaxAccount ex_deps ex_account"
  using ex_subscription_trim
  by (simp add: isClaudePlatform_def isOAuthAccount_def isAccountHealthy_def isClaudeMaxAccount_def
        parseSubscriptionInfo_def ex_account_def ex_deps_def opt_truthy_def toLowerCase_def js_def
        trim_def is_ws_def)

lemma ex_gates2:
  "isClaudePlatform ex_account2 \<and> isOAuthAccount ex_account2 \<and> isAccountHealthy ex_account2
   \<and> isClaudeMaxAccount ex_deps ex_account2"
  using ex_subscription_trim
  by (simp add: isClaudePlatform_def isOAuthAccount_def isAccountHealthy_def isClaudeMaxAccount_def
        parseSubscriptionInfo_def ex_account2_def ex_account_def ex_deps_def opt_truthy_def
        toLowerCase_def js_def trim_def is_ws_def)

lemma ex_ids: "acc_id ex_account = js ''acct-9''" "acc_id ex_account2 = js ''acct-10''"
  "js ''acct-9'' \<noteq> js ''acct-10''"
  by (simp_all add: ex_account_def ex_account2_def js_def)

lemma ex_stale_any:
  assumes "hb_usageRefreshMaxAgeMs cfg = None"
      and "account = ex_account \<or> account = ex_account2"
  shows "currentSnapshot ex_deps cfg ex_refresh_none account nowMs s
     = (s \<lparr> hcalls := hcalls s @ [FetchOAuthUsage (acc_id account),
                                   GetClaudeAccount (acc_id account)] \<rparr>,
        Inr (account, \<lparr> remainingSeconds = Some 0 \<rparr>))"
  using assms
  by (auto simp add: currentSnapshot_def refreshUsageSnapshot_def hasCountdown_def usageIsStale_def
        or_default_def Let_def ex_deps_def ex_refresh_none_def ex_account_def ex_account2_def)

lemma ex_evaluate_any:
  assumes "hb_usageRefreshMaxAgeMs cfg = None"
      and "account = ex_account \<or> account = ex_account2"
      and "recentHeartbeats s (acc_id account) = None"
  shows "evaluateAccountForHeartbeat ex_deps cfg ex_refresh_none account nowMs cooldownMs s
     = (s \<lparr> hcalls := hcalls s @ [FetchOAuthUsage (acc_id account),
                                   GetClaudeAccount (acc_id account)] \<rparr>,
        Inr (Some account))"
proof -
  have g: "isClaudePlatform account \<and> isOAuthAccount account \<and> isAccountHealthy account
   \<and> isClaudeMaxAccount ex_deps account"
    using assms(2) ex_gates ex_gates2 by blast
  show ?thesis
    using g assms(3)
    by (simp add: evaluateAccountForHeartbeat_def ex_stale_any[OF assms(1) assms(2)] hasCountdown_def)
qed

lemma ex_parse_reset: "parsedResetOf ex_deps (Some (js ''1700000000'')) = Some 1700000000"
  by (simp add: parsedResetOf_def opt_truthy_def parseInt10_def js_def is_ws_def is_digit_def
        digits_value_def Let_def)

lemma ex_send_429_any:
  assumes "hb_apiUrl cfg"
  shows "sendHeartbeatForAccount ex_deps cfg account ex_send_429 s
     = (s \<lparr> hcalls := hcalls s @ [GetValidAccessToken (acc_id account),
               CreateProxyAgent (acc_id account), PostHeartbeat (acc_id account) (js ''tok''),
               MarkAccountRateLimited (acc_id account) (Some 1700000000)],
            recentHeartbeats := (recentHeartbeats s) (acc_id account := Some 1700003601000) \<rparr>,
        None)"
  using assms ex_parse_reset
  by (simp add: sendHeartbeatForAccount_def tryHeartbeat_def catchHeartbeat_def Let_def
        ex_send_429_def opt_truthy_def js_def)

lemma ex_send_401_any:
  assumes "hb_apiUrl cfg"
  shows "sendHeartbeatForAccount deps cfg account ex_send_401 s
     = (s \<lparr> hcalls := hcalls s @ [GetValidAccessToken (acc_id account),
               CreateProxyAgent (acc_id account), PostHeartbeat (acc_id account) (js ''tok'')],
            recentHeartbeats := (recentHeartbeats s) (acc_id account := Some 1700003601000) \<rparr>,
        None)"
  using assms
  by (simp add: sendHeartbeatForAccount_def tryHeartbeat_def catchHeartbeat_def Let_def
        ex_send_401_def ex_send_429_def opt_truthy_def js_def)

lemma ex_configs:
  "hb_apiUrl ex_hb_config" "hb_usageRefreshMaxAgeMs ex_hb_config = None"
  "hb_apiUrl ex_hb_long" "hb_usageRefreshMaxAgeMs ex_hb_long = None"
  "cooldownMsOf ex_hb_config = 600000" "cooldownMsOf ex_hb_long = 120000000"
  by (simp_all add: ex_hb_config_def ex_hb_long_def cooldownMsOf_def or_default_def)

lemma ex_round_429:
  "heartbeatRound ex_deps ex_hb_config nowMs (ex_account, ex_refresh_none, ex_send_429) ex_hb_state
     = (ex_hb_state
         \<lparr> hcalls := [FetchOAuthUsage (js ''acct-9''), GetClaudeAccount (js ''acct-9''),
                      GetValidAccessToken (js ''acct-9''), CreateProxyAgent (js ''acct-9''),
                      PostHeartbeat (js ''acct-9'') (js ''tok''),
                      MarkAccountRateLimited (js ''acct-9'') (Some 1700000000)],
           recentHeartbeats := (recentHeartbeats ex_hb_state) (js ''acct-9'' := Some 1700003601000) \<rparr>,
        None)"
proof -
  have e: "recentHeartbeats ex_hb_state (acc_id ex_account) = None" "hcalls ex_hb_state = []"
    by (simp_all add: ex_hb_state_def)
  show ?thesis
    using e ex_ids
    by (simp add: heartbeatRound_def ex_evaluate_any[OF ex_configs(2)] ex_send_429_any[OF ex_configs(1)])
qed

lemma ex_round_401:
  assumes "recentHeartbeats s (js ''acct-10'') = None"
  shows "heartbeatRound ex_deps ex_hb_config nowMs (ex_account2, ex_refresh_none, ex_send_401) s
     = (s \<lparr> hcalls := hcalls s @
                     [FetchOAuthUsage (js ''acct-10''), GetClaudeAccount (js ''acct-10''),
                      GetValidAccessToken (js ''acct-10''), CreateProxyAgent (js ''acct-10''),
                      PostHeartbeat (js ''acct-10'') (js ''tok'')],
           recentHeartbeats := (recentHeartbeats s) (js ''acct-10'' := Some 1700003601000) \<rparr>,
        None)"
  using assms ex_ids
  by (simp add: heartbeatRound_def ex_evaluate_any[OF ex_configs(2)] ex_send_401_any[OF ex_configs(1)])

lemma ex_stale_snapshot:
  "currentSnapshot ex_deps ex_hb_config ex_refresh_none ex_account 1700003600000 s
     = (s \<lparr> hcalls := hcalls s @ [FetchOAuthUsage (acc_id ex_account),
                                   GetClaudeAccount (acc_id ex_account)] \<rparr>,
        Inr (ex_account, \<lparr> remainingSeconds = Some 0 \<rparr>))"
  by (simp add: currentSnapshot_def refreshUsageSnapshot_def hasCountdown_def usageIsStale_def
        or_default_def Let_def ex_deps_def ex_hb_config_def ex_refresh_none_def ex_account_def)

lemma ex_evaluate:
  "recentHeartbeats s (acc_id ex_account) = None \<Longrightarrow>
   evaluateAccountForHeartbeat ex_deps ex_hb_config ex_refresh_none ex_account 1700003600000
       cooldownMs s
     = (s \<lparr> hcalls := hcalls s @ [FetchOAuthUsage (acc_id ex_account),
                                   GetClaudeAccount (acc_id ex_account)] \<rparr>,
        Inr (Some ex_account))"
  using ex_gates
  by (simp add: evaluateAccountForHeartbeat_def ex_stale_snapshot hasCountdown_def)

lemma ex_mark_down_send:
  "sendHeartbeatForAccount ex_deps ex_hb_config ex_account ex_send_mark_down s
     = (s \<lparr> hcalls := hcalls s @ [GetValidAccessToken (acc_id ex_account),
               CreateProxyAgent (acc_id ex_account), PostHeartbeat (acc_id ex_account) (js ''tok''),
               MarkAccountRateLimited (acc_id ex_account) (Some 1700000000)],
            recentHeartbeats := (recentHeartbeats s) (acc_id ex_account := Some 1700003601000) \<rparr>,
        Some (HError None None))"
proof -
  have p: "parsedResetOf ex_deps (Some (js ''1700000000'')) = Some 1700000000"
    by (simp add: parsedResetOf_def opt_truthy_def parseInt10_def js_def is_ws_def is_digit_def
          digits_value_def Let_def)
  show ?thesis
    using p
    by (simp add: sendHeartbeatForAccount_def tryHeartbeat_def catchHeartbeat_def Let_def
          ex_send_mark_down_def ex_send_429_def ex_hb_config_def opt_truthy_def js_def)
qed

lemma ex_marking_rejected_loop:
  "heartbeatLoop ex_deps ex_hb_config 1700003600000
      [(ex_account, ex_refresh_none, ex_send_mark_down), (ex_account2, ex_refresh_none, ex_send_429)]
      ex_hb_state
   = (ex_hb_state
        \<lparr> hcalls := [FetchOAuthUsage (acc_id ex_account), GetClaudeAccount (acc_id ex_account),
                     GetValidAccessToken (acc_id ex_account), CreateProxyAgent (acc_id ex_account),
                     PostHeartbeat (acc_id ex_account) (js ''tok''),
                     MarkAccountRateLimited (acc_id ex_account) (Some 1700000000)],
          recentHeartbeats := (recentHeartbeats ex_hb_state)
                                (acc_id ex_account := Some 1700003601000) \<rparr>,
      Some (HError None None))"
proof -
  have e: "recentHeartbeats ex_hb_state (acc_id ex_account) = None" "hcalls ex_hb_state = []"
    by (simp_all add: ex_hb_state_def)
  show ?thesis
    using e by (simp add: ex_evaluate ex_mark_down_send)
qed

text \<open>
  C6, as the claim states it, fails in both monitors. Key recovery: two keys are due; the
  registry rejects the pending write of the first (the write before the \<open>try\<close>); the
  cycle makes that one call and ends, and the second key, which this very probe would
  have recovered, is not attempted. Keepalive: the first account's probe is answered 429
  and the marking call of the \<open>catch\<close> rejects; the loop ends there, and the second
  account is not evaluated.
\<close>

theorem rejected_call_aborts_cycle:
  "recovers ex_service ex_target2 ex_hello
   \<and> snd (attemptAll ex_service [(ex_target, ex_registry_down), (ex_target2, ex_hello)] ex_registry)
       = Some CollaboratorFailure
   \<and> calls (fst (recovery_tick ex_service
                    (Targets [(ex_target, ex_registry_down), (ex_target2, ex_hello)]) ex_registry))
       = [UpdateApiKeyRecoveryState (tgt_accountId ex_target) (entry_id (tgt_entry ex_target))
            (pendingUpdate (tgt_entry ex_target) (TsDate 1700003600000) (TsDate 1700003720000)
               (TsDate 1700086400000))]
   \<and> entries (fst (recovery_tick ex_service
                    (Targets [(ex_target, ex_registry_down), (ex_target2, ex_hello)]) ex_registry))
        (tgt_accountId ex_target2, entry_id (tgt_entry ex_target2))
       = Some (tgt_entry ex_target2)
   \<and> heartbeatLoop ex_deps ex_hb_config 1700003600000
        [(ex_account, ex_refresh_none, ex_send_mark_down),
         (ex_account2, ex_refresh_none, ex_send_429)] ex_hb_state
       = (ex_hb_state
            \<lparr> hcalls := [FetchOAuthUsage (acc_id ex_account), GetClaudeAccount (acc_id ex_account),
                         GetValidAccessToken (acc_id ex_account),
                         CreateProxyAgent (acc_id ex_account),
                         PostHeartbeat (acc_id ex_account) (js ''tok''),
                         MarkAccountRateLimited (acc_id ex_account) (Some 1700000000)],
              recentHeartbeats := (recentHeartbeats ex_hb_state)
                                    (acc_id ex_account := Some 1700003601000) \<rparr>,
          Some (HError None None))"
proof -
  have g: "\<not> isTickRunning ex_registry" "calls ex_registry = []"
    by (simp_all add: ex_registry_def)
  have t: "recovery_tick ex_service
             (Targets [(ex_target, ex_registry_down), (ex_target2, ex_hello)]) ex_registry
           = ((updateApiKeyRecoveryState False (tgt_accountId ex_target)
                 (entry_id (tgt_entry ex_target))
                 (pendingUpdate (tgt_entry ex_target) (TsDate 1700003600000)
                    (TsDate 1700003720000) (TsDate 1700086400000))
                 (ex_registry \<lparr> isTickRunning := True \<rparr>)) \<lparr> isTickRunning := False \<rparr>, None)"
    using g by (simp add: recovery_tick_def recovery_cycle_def ex_down_attempt)
  have a: "snd (attemptAll ex_service [(ex_target, ex_registry_down), (ex_target2, ex_hello)]
                  ex_registry) = Some CollaboratorFailure"
    by (simp add: ex_down_attempt)
  show ?thesis
    using ex_hello_recovers2 a g ex_stored2 ex_marking_rejected_loop
    by (simp add: t updateApiKeyRecoveryState_def)
qed

text \<open>
  C6, amended. Take a recovery cycle whose attempts all reach their first write (the stored
  timestamps of their entries are dates) and get their pending write and their failure
  write through. Then no attempt throws, whatever the probes answer (any status, a network
  error, a body the extraction throws on) and whether or not the result is written: the
  cycle runs the attempt of every target in turn, each from the state the one before left,
  and every target is probed. Take a keepalive cycle in which no read of an account after
  a usage refresh rejects during an evaluation, and no marking call rejects. Then the loop
  runs the round of every account in turn (its evaluation and, when that says so, its
  heartbeat), each from the state the one before left, whatever the token service, the
  proxy and the probes do. And whatever happens in a cycle, \<open>_tick\<close> does not throw and
  leaves the guard cleared.
\<close>

theorem cycle_error_containment:
  assumes recovery: "\<forall>(target, env) \<in> set targets.
             reachesFirstWrite svc target env \<and> pendingWriteOk env \<and> failureWriteOk env"
      and keepalive: "\<forall>(account, renv, senv) \<in> set rawAccounts.
             (\<forall>err. latestOutcome renv \<noteq> LatestRejected err) \<and> markError senv = None"
  shows "snd (attemptAll svc targets s) = None
     \<and> fst (attemptAll svc targets s)
         = foldl (\<lambda>st (target, env). fst (attemptRecovery svc target env st)) s targets
     \<and> length (filter is_probe (new_calls s (fst (attemptAll svc targets s)))) = length targets
     \<and> snd (heartbeatLoop deps cfg nowMs rawAccounts h) = None
     \<and> fst (heartbeatLoop deps cfg nowMs rawAccounts h)
         = foldl (\<lambda>st candidate. fst (heartbeatRound deps cfg nowMs candidate st)) h rawAccounts
     \<and> (\<forall>outcome. snd (recovery_tick svc outcome s) = None
           \<and> (\<not> isTickRunning s \<longrightarrow> \<not> isTickRunning (fst (recovery_tick svc outcome s))))
     \<and> (\<forall>outcome. snd (heartbeat_tick deps cfg nowMs outcome h) = None
           \<and> (\<not> isRunning h \<longrightarrow> \<not> isRunning (fst (heartbeat_tick deps cfg nowMs outcome h))))"
proof -
  from attemptAll_contained[OF recovery, of s] obtain cs where
    "snd (attemptAll svc targets s) = None"
    "calls (fst (attemptAll svc targets s)) = calls s @ cs"
    "length (filter is_probe cs) = length targets" by blast
  then have r: "snd (attemptAll svc targets s) = None
     \<and> length (filter is_probe (new_calls s (fst (attemptAll svc targets s)))) = length targets"
    by (simp add: new_calls_def)
  have rf: "fst (attemptAll svc targets s)
         = foldl (\<lambda>st (target, env). fst (attemptRecovery svc target env st)) s targets"
    by (simp add: attemptAll_fold[OF recovery])
  have kf: "fst (heartbeatLoop deps cfg nowMs rawAccounts h)
         = foldl (\<lambda>st candidate. fst (heartbeatRound deps cfg nowMs candidate st)) h rawAccounts"
    by (simp add: heartbeatLoop_fold[OF keepalive])
  show ?thesis
    using r rf kf heartbeatLoop_contained[OF keepalive, of deps cfg nowMs h]
      recovery_tick_guard[of svc _ s] heartbeat_tick_guard[of deps cfg nowMs _ h]
    by simp
qed

lemma ex_refused_ok:
  "reachesFirstWrite ex_service ex_target ex_refused \<and> pendingWriteOk ex_refused
   \<and> failureWriteOk ex_refused"
  using ex_refused_fails by (simp add: ex_refused_def ex_hello_def)

lemma ex_hello_ok2:
  "reachesFirstWrite ex_service ex_target2 ex_hello \<and> pendingWriteOk ex_hello
   \<and> failureWriteOk ex_hello"
  using ex_hello_recovers2 by (simp add: recovers_def ex_hello_def)

lemma ex_keepalive_ok:
  "(\<forall>err. latestOutcome ex_refresh_none \<noteq> LatestRejected err)
   \<and> markError ex_send_429 = None \<and> markError ex_send_401 = None"
  by (simp add: ex_refresh_none_def ex_send_429_def ex_send_401_def)

text \<open>
  A refused connection for the first key: the second key is probed too. A probe answered
  429 for the first account: the second account is evaluated and probed in its turn (and
  answered 401).
\<close>

theorem cycle_error_containment_witness:
  "reachesFirstWrite ex_service ex_target ex_refused \<and> pendingWriteOk ex_refused
   \<and> failureWriteOk ex_refused
   \<and> reachesFirstWrite ex_service ex_target2 ex_hello \<and> pendingWriteOk ex_hello
   \<and> failureWriteOk ex_hello
   \<and> (\<forall>err. latestOutcome ex_refresh_none \<noteq> LatestRejected err)
   \<and> markError ex_send_429 = None \<and> markError ex_send_401 = None
   \<and> snd (attemptAll ex_service [(ex_target, ex_refused), (ex_target2, ex_hello)] ex_registry)
       = None
   \<and> fst (attemptAll ex_service [(ex_target, ex_refused), (ex_target2, ex_hello)] ex_registry)
       = fst (attemptRecovery ex_service ex_target2 ex_hello
                (fst (attemptRecovery ex_service ex_target ex_refused ex_registry)))
   \<and> length (filter is_probe
        (new_calls ex_registry
           (fst (attemptAll ex_service [(ex_target, ex_refused), (ex_target2, ex_hello)]
                   ex_registry)))) = 2
   \<and> snd (heartbeatLoop ex_deps ex_hb_config 1700003600000
            [(ex_account, ex_refresh_none, ex_send_429),
             (ex_account2, ex_refresh_none, ex_send_401)] ex_hb_state) = None
   \<and> hcalls (fst (heartbeatLoop ex_deps ex_hb_config 1700003600000
            [(ex_account, ex_refresh_none, ex_send_429),
             (ex_account2, ex_refresh_none, ex_send_401)] ex_hb_state))
       = [FetchOAuthUsage (js ''acct-9''), GetClaudeAccount (js ''acct-9''),
          GetValidAccessToken (js ''acct-9''), CreateProxyAgent (js ''acct-9''),
          PostHeartbeat (js ''acct-9'') (js ''tok''),
          MarkAccountRateLimited (js ''acct-9'') (Some 1700000000),
          FetchOAuthUsage (js ''acct-10''), GetClaudeAccount (js ''acct-10''),
          GetValidAccessToken (js ''acct-10''), CreateProxyAgent (js ''acct-10''),
          PostHeartbeat (js ''acct-10'') (js ''tok'')]
   \<and> \<not> isTickRunning ex_registry
   \<and> \<not> isTickRunning
         (fst (recovery_tick ex_service (Targets [(ex_target, ex_registry_down)]) ex_registry))
   \<and> \<not> isRunning ex_hb_state
   \<and> \<not> isRunning
         (fst (heartbeat_tick ex_deps ex_hb_config 1700003600000
                 (Accounts [(ex_account, ex_refresh_none, ex_send_mark_down)]) ex_hb_state))"
proof -
  have h1: "\<forall>(target, env) \<in> set [(ex_target, ex_refused), (ex_target2, ex_hello)].
             reachesFirstWrite ex_service target env \<and> pendingWriteOk env \<and> failureWriteOk env"
    using ex_refused_ok ex_hello_ok2 by simp
  have h2: "\<forall>(account, renv, senv) \<in> set [(ex_account, ex_refresh_none, ex_send_429),
                                             (ex_account2, ex_refresh_none, ex_send_401)].
             (\<forall>err. latestOutcome renv \<noteq> LatestRejected err) \<and> markError senv = None"
    using ex_keepalive_ok by simp
  have g: "\<not> isTickRunning ex_registry" "\<not> isRunning ex_hb_state"
    by (simp_all add: ex_registry_def ex_hb_state_def)
  note t = cycle_error_containment[OF h1 h2, where s = ex_registry and deps = ex_deps
      and cfg = ex_hb_config and nowMs = 1700003600000 and h = ex_hb_state]
  note t1 = conjunct1[OF t]
  note t2 = conjunct1[OF conjunct2[OF t]]
  note t3 = conjunct1[OF conjunct2[OF conjunct2[OF t]]]
  note t4 = conjunct1[OF conjunct2[OF conjunct2[OF conjunct2[OF t]]]]
  note t5 = conjunct1[OF conjunct2[OF conjunct2[OF conjunct2[OF conjunct2[OF t]]]]]
  note t6 = conjunct1[OF conjunct2[OF conjunct2[OF conjunct2[OF conjunct2[OF conjunct2[OF t]]]]]]
  note t7 = conjunct2[OF conjunct2[OF conjunct2[OF conjunct2[OF conjunct2[OF conjunct2[OF t]]]]]]
  have c2: "fst (attemptAll ex_service [(ex_target, ex_refused), (ex_target2, ex_hello)] ex_registry)
       = fst (attemptRecovery ex_service ex_target2 ex_hello
                (fst (attemptRecovery ex_service ex_target ex_refused ex_registry)))"
    using t2 by (simp del: attemptAll.simps)
  have c3: "length (filter is_probe
        (new_calls ex_registry
           (fst (attemptAll ex_service [(ex_target, ex_refused), (ex_target2, ex_hello)]
                   ex_registry)))) = 2"
    using t3 by (simp del: attemptAll.simps)
  have c5: "fst (heartbeatLoop ex_deps ex_hb_config 1700003600000
            [(ex_account, ex_refresh_none, ex_send_429),
             (ex_account2, ex_refresh_none, ex_send_401)] ex_hb_state)
       = fst (heartbeatRound ex_deps ex_hb_config 1700003600000
                (ex_account2, ex_refresh_none, ex_send_401)
                (fst (heartbeatRound ex_deps ex_hb_config 1700003600000
                        (ex_account, ex_refresh_none, ex_send_429) ex_hb_state)))"
    using t5 by (simp del: heartbeatLoop.simps)
  have c6: "\<not> isTickRunning
         (fst (recovery_tick ex_service (Targets [(ex_target, ex_registry_down)]) ex_registry))"
    using t6 g(1) by blast
  have c7: "\<not> isRunning
         (fst (heartbeat_tick ex_deps ex_hb_config 1700003600000
                 (Accounts [(ex_account, ex_refresh_none, ex_send_mark_down)]) ex_hb_state))"
    using t7 g(2) by blast
  define s1 where "s1 = ex_hb_state
         \<lparr> hcalls := [FetchOAuthUsage (js ''acct-9''), GetClaudeAccount (js ''acct-9''),
                      GetValidAccessToken (js ''acct-9''), CreateProxyAgent (js ''acct-9''),
                      PostHeartbeat (js ''acct-9'') (js ''tok''),
                      MarkAccountRateLimited (js ''acct-9'') (Some 1700000000)],
           recentHeartbeats := (recentHeartbeats ex_hb_state) (js ''acct-9'' := Some 1700003601000) \<rparr>"
  have r1: "fst (heartbeatRound ex_deps ex_hb_config 1700003600000
                   (ex_account, ex_refresh_none, ex_send_429) ex_hb_state) = s1"
    by (simp only: ex_round_429 fst_conv s1_def)
  have free: "recentHeartbeats s1 (js ''acct-10'') = None"
    using ex_ids(3) by (simp add: s1_def ex_hb_state_def)
  have r2: "hcalls (fst (heartbeatRound ex_deps ex_hb_config 1700003600000
                   (ex_account2, ex_refresh_none, ex_send_401) s1))
       = hcalls s1 @ [FetchOAuthUsage (js ''acct-10''), GetClaudeAccount (js ''acct-10''),
                      GetValidAccessToken (js ''acct-10''), CreateProxyAgent (js ''acct-10''),
                      PostHeartbeat (js ''acct-10'') (js ''tok'')]"
    by (simp add: ex_round_401[OF free])
  have k: "hcalls (fst (heartbeatLoop ex_deps ex_hb_config 1700003600000
            [(ex_account, ex_refresh_none, ex_send_429),
             (ex_account2, ex_refresh_none, ex_send_401)] ex_hb_state))
       = [FetchOAuthUsage (js ''acct-9''), GetClaudeAccount (js ''acct-9''),
          GetValidAccessToken (js ''acct-9''), CreateProxyAgent (js ''acct-9''),
          PostHeartbeat (js ''acct-9'') (js ''tok''),
          MarkAccountRateLimited (js ''acct-9'') (Some 1700000000),
          FetchOAuthUsage (js ''acct-10''), GetClaudeAccount (js ''acct-10''),
          GetValidAccessToken (js ''acct-10''), CreateProxyAgent (js ''acct-10''),
          PostHeartbeat (js ''acct-10'') (js ''tok'')]"
    unfolding c5 r1 r2 by (simp add: s1_def)
  from ex_refused_ok ex_hello_ok2 ex_keepalive_ok t1 c2 c3 t4 k g c6 c7
  show ?thesis by (intro conjI) (elim conjE, assumption)+
qed

section \<open>Keepalive: the cooldown record\<close>

lemma send_cooldown:
  "recentHeartbeats (fst (sendHeartbeatForAccount deps cfg account env s)) (acc_id account)
     = Some (dateNow env)"
  by (simp add: sendHeartbeatForAccount_def split: prod.splits option.splits)

lemma evaluate_state:
  "fst (evaluateAccountForHeartbeat deps cfg renv account nowMs cooldownMs s) = s
   \<or> fst (evaluateAccountForHeartbeat deps cfg renv account nowMs cooldownMs s)
       = fst (currentSnapshot deps cfg renv account nowMs s)"
  by (auto simp add: evaluateAccountForHeartbeat_def split: prod.splits sum.splits)

lemma evaluate_in_cooldown:
  assumes "recentHeartbeats s (acc_id account) = Some t" "t \<noteq> 0" "nowMs - t < cooldownMs"
  shows "evaluateAccountForHeartbeat deps cfg renv account nowMs cooldownMs s = (s, Inr None)"
  using assms by (simp add: evaluateAccountForHeartbeat_def)

text \<open>What an evaluation and a heartbeat do to the cooldown map and to the log.\<close>

lemma currentSnapshot_facts:
  "recentHeartbeats (fst (currentSnapshot deps cfg renv account nowMs s)) = recentHeartbeats s
   \<and> (\<exists>cs. hcalls (fst (currentSnapshot deps cfg renv account nowMs s)) = hcalls s @ cs
           \<and> (\<forall>a tok. PostHeartbeat a tok \<notin> set cs))
   \<and> (\<forall>accountData snapshot.
         snd (currentSnapshot deps cfg renv account nowMs s) = Inr (accountData, snapshot)
         \<longrightarrow> acc_id accountData = acc_id account)"
  by (auto simp add: currentSnapshot_def refreshUsageSnapshot_def Let_def
        split: fetch_outcome.splits latest_outcome.splits)

lemma evaluate_account:
  assumes "snd (evaluateAccountForHeartbeat deps cfg renv account nowMs cooldownMs s)
             = Inr (Some accountData)"
  shows "\<exists>snapshot. snd (currentSnapshot deps cfg renv account nowMs s) = Inr (accountData, snapshot)"
  using assms
  by (cases "currentSnapshot deps cfg renv account nowMs s")
     (auto simp add: evaluateAccountForHeartbeat_def split: if_splits sum.splits)

lemma evaluate_facts:
  assumes ev: "evaluateAccountForHeartbeat deps cfg renv account nowMs cooldownMs s = (s1, r)"
  shows "recentHeartbeats s1 = recentHeartbeats s"
    and "\<exists>cs. hcalls s1 = hcalls s @ cs \<and> (\<forall>a tok. PostHeartbeat a tok \<notin> set cs)"
    and "r = Inr (Some accountData) \<Longrightarrow> acc_id accountData = acc_id account"
proof -
  note snap = currentSnapshot_facts[of deps cfg renv account nowMs s]
  have s1: "s1 = s \<or> s1 = fst (currentSnapshot deps cfg renv account nowMs s)"
    using evaluate_state[of deps cfg renv account nowMs cooldownMs s] ev by simp
  from s1 show "recentHeartbeats s1 = recentHeartbeats s"
  proof
    assume "s1 = s"
    then show ?thesis by simp
  next
    assume "s1 = fst (currentSnapshot deps cfg renv account nowMs s)"
    with conjunct1[OF snap] show ?thesis by simp
  qed
  from s1 show "\<exists>cs. hcalls s1 = hcalls s @ cs \<and> (\<forall>a tok. PostHeartbeat a tok \<notin> set cs)"
  proof
    assume "s1 = s"
    then show ?thesis by simp
  next
    assume "s1 = fst (currentSnapshot deps cfg renv account nowMs s)"
    with conjunct1[OF conjunct2[OF snap]] show ?thesis by simp
  qed
  show "acc_id accountData = acc_id account" if "r = Inr (Some accountData)"
  proof -
    from that ev have "snd (evaluateAccountForHeartbeat deps cfg renv account nowMs cooldownMs s)
             = Inr (Some accountData)" by simp
    from evaluate_account[OF this] obtain snapshot where
      "snd (currentSnapshot deps cfg renv account nowMs s) = Inr (accountData, snapshot)" by blast
    with conjunct2[OF conjunct2[OF snap]] show ?thesis by blast
  qed
qed

lemma try_facts:
  "recentHeartbeats (fst (tryHeartbeat deps cfg account env s)) = recentHeartbeats s
   \<and> (\<exists>cs. hcalls (fst (tryHeartbeat deps cfg account env s)) = hcalls s @ cs
           \<and> (\<forall>a tok. PostHeartbeat a tok \<in> set cs \<longrightarrow> a = acc_id account))"
  by (auto simp add: tryHeartbeat_def refreshUsageSnapshot_def Let_def
        split: token_outcome.splits option.splits fetch_outcome.splits latest_outcome.splits)

lemma catch_facts:
  "recentHeartbeats (fst (catchHeartbeat deps account env err s)) = recentHeartbeats s
   \<and> (\<exists>cs. hcalls (fst (catchHeartbeat deps account env err s)) = hcalls s @ cs
           \<and> (\<forall>a tok. PostHeartbeat a tok \<notin> set cs))"
  by (auto simp add: catchHeartbeat_def split: herror.splits)

lemma send_facts:
  assumes run: "sendHeartbeatForAccount deps cfg account env s = (s2, thrown)"
  shows "recentHeartbeats s2 = (recentHeartbeats s) (acc_id account := Some (dateNow env))"
    and "\<exists>cs. hcalls s2 = hcalls s @ cs
           \<and> (\<forall>a tok. PostHeartbeat a tok \<in> set cs \<longrightarrow> a = acc_id account)"
proof -
  obtain s1 r where t: "tryHeartbeat deps cfg account env s = (s1, r)"
    by (cases "tryHeartbeat deps cfg account env s")
  have t1: "recentHeartbeats s1 = recentHeartbeats s"
    using conjunct1[OF try_facts[of deps cfg account env s]] t by simp
  obtain cs1 where t2: "hcalls s1 = hcalls s @ cs1"
      and t3: "\<forall>a tok. PostHeartbeat a tok \<in> set cs1 \<longrightarrow> a = acc_id account"
    using conjunct2[OF try_facts[of deps cfg account env s]] t by auto
  obtain s1' where c: "(case r of None \<Rightarrow> (s1, None)
                          | Some err \<Rightarrow> catchHeartbeat deps account env err s1) = (s1', thrown)"
      and s2: "s2 = s1' \<lparr> recentHeartbeats := (recentHeartbeats s1') (acc_id account := Some (dateNow env)) \<rparr>"
    using run t by (auto simp add: sendHeartbeatForAccount_def split: prod.splits option.splits)
  have c1: "recentHeartbeats s1' = recentHeartbeats s1
          \<and> (\<exists>cs. hcalls s1' = hcalls s1 @ cs \<and> (\<forall>a tok. PostHeartbeat a tok \<notin> set cs))"
  proof (cases r)
    case None
    with c show ?thesis by simp
  next
    case (Some err)
    with c catch_facts[of deps account env err s1] show ?thesis by simp
  qed
  then obtain cs2 where c2: "hcalls s1' = hcalls s1 @ cs2"
      and c3: "\<forall>a tok. PostHeartbeat a tok \<notin> set cs2" by blast
  show "recentHeartbeats s2 = (recentHeartbeats s) (acc_id account := Some (dateNow env))"
    using s2 c1 t1 by simp
  have "hcalls s2 = hcalls s @ (cs1 @ cs2)" using s2 c2 t2 by simp
  moreover have "\<forall>a tok. PostHeartbeat a tok \<in> set (cs1 @ cs2) \<longrightarrow> a = acc_id account"
    using t3 c3 by auto
  ultimately show "\<exists>cs. hcalls s2 = hcalls s @ cs
           \<and> (\<forall>a tok. PostHeartbeat a tok \<in> set cs \<longrightarrow> a = acc_id account)" by blast
qed

text \<open>
  A record still in its window keeps the account out of every round of the loop, and is
  still there when the loop ends.
\<close>

lemma round_in_cooldown:
  assumes rec: "recentHeartbeats s a = Some t" "t \<noteq> 0" "nowMs - t < cooldownMsOf cfg"
      and run: "heartbeatRound deps cfg nowMs candidate s = (s', thrown)"
  shows "recentHeartbeats s' a = Some t"
    and "\<exists>cs. hcalls s' = hcalls s @ cs \<and> (\<forall>tok. PostHeartbeat a tok \<notin> set cs)"
proof -
  obtain rawAccount renv senv where p: "candidate = (rawAccount, renv, senv)" by (cases candidate)
  have both: "recentHeartbeats s' a = Some t
     \<and> (\<exists>cs. hcalls s' = hcalls s @ cs \<and> (\<forall>tok. PostHeartbeat a tok \<notin> set cs))"
  proof (cases "acc_id rawAccount = a")
    case True
    with rec have "evaluateAccountForHeartbeat deps cfg renv rawAccount nowMs (cooldownMsOf cfg) s
        = (s, Inr None)"
      by (simp add: evaluate_in_cooldown)
    with run p have "s' = s" by (simp add: heartbeatRound_def)
    with rec show ?thesis by simp
  next
    case False
    obtain s1 r where ev:
      "evaluateAccountForHeartbeat deps cfg renv rawAccount nowMs (cooldownMsOf cfg) s = (s1, r)"
      by (cases "evaluateAccountForHeartbeat deps cfg renv rawAccount nowMs (cooldownMsOf cfg) s")
    note e1 = evaluate_facts(1)[OF ev]
    from evaluate_facts(2)[OF ev] obtain cs1 where
      e2: "hcalls s1 = hcalls s @ cs1" and e3: "\<forall>a tok. PostHeartbeat a tok \<notin> set cs1" by blast
    have stay: "s' = s1 \<Longrightarrow> ?thesis"
      using e1 e2 e3 rec(1) by simp
    show ?thesis
    proof (cases r)
      case (Inl err)
      with p ev run have "s' = s1" by (simp add: heartbeatRound_def)
      then show ?thesis by (rule stay)
    next
      case (Inr found)
      show ?thesis
      proof (cases found)
        case None
        with Inr p ev run have "s' = s1" by (simp add: heartbeatRound_def)
        then show ?thesis by (rule stay)
      next
        case (Some accountData)
        with Inr have "r = Inr (Some accountData)" by simp
        from evaluate_facts(3)[OF ev this] False have other: "acc_id accountData \<noteq> a" by simp
        have sd: "sendHeartbeatForAccount deps cfg accountData senv s1 = (s', thrown)"
          using Some Inr p ev run by (simp add: heartbeatRound_def)
        from send_facts(2)[OF sd] obtain cs2 where
          d2: "hcalls s' = hcalls s1 @ cs2"
          and d3: "\<forall>a tok. PostHeartbeat a tok \<in> set cs2 \<longrightarrow> a = acc_id accountData" by blast
        have k1: "recentHeartbeats s' a = Some t"
          using send_facts(1)[OF sd] other e1 rec(1) by simp
        have k2: "hcalls s' = hcalls s @ (cs1 @ cs2)"
          using d2 e2 by simp
        have k3: "\<forall>tok. PostHeartbeat a tok \<notin> set (cs1 @ cs2)"
          using d3 e3 other by auto
        from k1 k2 k3 show ?thesis by blast
      qed
    qed
  qed
  from both show "recentHeartbeats s' a = Some t" by simp
  from both show "\<exists>cs. hcalls s' = hcalls s @ cs \<and> (\<forall>tok. PostHeartbeat a tok \<notin> set cs)" by simp
qed

lemma loop_in_cooldown:
  assumes rec: "recentHeartbeats s a = Some t" "t \<noteq> 0" "nowMs - t < cooldownMsOf cfg"
  shows "recentHeartbeats (fst (heartbeatLoop deps cfg nowMs rawAccounts s)) a = Some t
     \<and> (\<exists>cs. hcalls (fst (heartbeatLoop deps cfg nowMs rawAccounts s)) = hcalls s @ cs
             \<and> (\<forall>tok. PostHeartbeat a tok \<notin> set cs))"
  using rec(1)
proof (induction rawAccounts arbitrary: s)
  case Nil
  then show ?case by simp
next
  case (Cons p rest)
  obtain s1 r where rd: "heartbeatRound deps cfg nowMs p s = (s1, r)"
    by (cases "heartbeatRound deps cfg nowMs p s")
  note a1 = round_in_cooldown(1)[OF Cons.prems rec(2) rec(3) rd]
  from round_in_cooldown(2)[OF Cons.prems rec(2) rec(3) rd] obtain cs1 where
    a2: "hcalls s1 = hcalls s @ cs1" and a3: "\<forall>tok. PostHeartbeat a tok \<notin> set cs1" by blast
  show ?case
  proof (cases r)
    case (Some err)
    with rd a1 a2 a3 show ?thesis by (simp add: heartbeatLoop_round)
  next
    case None
    from Cons.IH[OF a1] obtain cs2 where
      b1: "recentHeartbeats (fst (heartbeatLoop deps cfg nowMs rest s1)) a = Some t"
      and b2: "hcalls (fst (heartbeatLoop deps cfg nowMs rest s1)) = hcalls s1 @ cs2"
      and b3: "\<forall>tok. PostHeartbeat a tok \<notin> set cs2" by blast
    have l: "heartbeatLoop deps cfg nowMs (p # rest) s = heartbeatLoop deps cfg nowMs rest s1"
      using None rd by (simp add: heartbeatLoop_round)
    have k2: "hcalls (fst (heartbeatLoop deps cfg nowMs rest s1)) = hcalls s @ (cs1 @ cs2)"
      using a2 b2 by simp
    have k3: "\<forall>tok. PostHeartbeat a tok \<notin> set (cs1 @ cs2)"
      using a3 b3 by simp
    from b1 k2 k3 show ?thesis unfolding l by blast
  qed
qed

lemma cycle_in_cooldown:
  assumes rec: "recentHeartbeats s a = Some t" "t \<noteq> 0" "nowMs - t < cooldownMsOf cfg"
      and kept: "nowMs - t \<le> 86400000"
  shows "recentHeartbeats (fst (runHeartbeatCycle deps cfg nowMs outcome s)) a = Some t
     \<and> (\<exists>cs. hcalls (fst (runHeartbeatCycle deps cfg nowMs outcome s)) = hcalls s @ cs
             \<and> (\<forall>tok. PostHeartbeat a tok \<notin> set cs))"
proof (cases outcome)
  case (AccountsRejected err)
  with rec show ?thesis by (simp add: runHeartbeatCycle_def)
next
  case (Accounts rawAccounts)
  define s0 where "s0 = cleanupRecentHeartbeats nowMs (s \<lparr> hcalls := hcalls s @ [GetAllClaudeAccounts] \<rparr>)"
  have r0: "recentHeartbeats s0 a = Some t"
    using rec kept by (simp add: s0_def cleanupRecentHeartbeats_def)
  have h0: "hcalls s0 = hcalls s @ [GetAllClaudeAccounts]"
    by (simp add: s0_def cleanupRecentHeartbeats_def)
  from loop_in_cooldown[OF r0 rec(2) rec(3), of deps rawAccounts] obtain cs where
    l1: "recentHeartbeats (fst (heartbeatLoop deps cfg nowMs rawAccounts s0)) a = Some t"
    and l2: "hcalls (fst (heartbeatLoop deps cfg nowMs rawAccounts s0)) = hcalls s0 @ cs"
    and l3: "\<forall>tok. PostHeartbeat a tok \<notin> set cs" by blast
  show ?thesis
  proof (cases "rawAccounts = []")
    case True
    with Accounts rec show ?thesis by (simp add: runHeartbeatCycle_def)
  next
    case False
    with Accounts have c: "runHeartbeatCycle deps cfg nowMs outcome s
        = heartbeatLoop deps cfg nowMs rawAccounts s0"
      by (simp add: runHeartbeatCycle_def s0_def Let_def)
    have k2: "hcalls (fst (heartbeatLoop deps cfg nowMs rawAccounts s0))
                = hcalls s @ (GetAllClaudeAccounts # cs)"
      using l2 h0 by simp
    have k3: "\<forall>tok. PostHeartbeat a tok \<notin> set (GetAllClaudeAccounts # cs)"
      using l3 by simp
    from l1 k2 k3 show ?thesis unfolding c by blast
  qed
qed

lemma cycles_in_cooldown:
  assumes rec: "recentHeartbeats s a = Some t" and nz: "t \<noteq> 0"
      and win: "\<forall>(nowMs, outcome) \<in> set cycles.
                  nowMs - t < cooldownMsOf cfg \<and> nowMs - t \<le> 86400000"
  shows "recentHeartbeats
           (foldl (\<lambda>st (nowMs, outcome). fst (runHeartbeatCycle deps cfg nowMs outcome st)) s cycles)
           a = Some t
     \<and> (\<exists>cs. hcalls
                (foldl (\<lambda>st (nowMs, outcome). fst (runHeartbeatCycle deps cfg nowMs outcome st)) s
                   cycles) = hcalls s @ cs
             \<and> (\<forall>tok. PostHeartbeat a tok \<notin> set cs))"
  using rec win
proof (induction cycles arbitrary: s)
  case Nil
  then show ?case by simp
next
  case (Cons c rest)
  obtain nowMs outcome where c: "c = (nowMs, outcome)" by (cases c)
  from Cons.prems(2) c have w: "nowMs - t < cooldownMsOf cfg" "nowMs - t \<le> 86400000" by auto
  from Cons.prems(2) have rest: "\<forall>(nowMs, outcome) \<in> set rest.
                  nowMs - t < cooldownMsOf cfg \<and> nowMs - t \<le> 86400000" by simp
  define s1 where "s1 = fst (runHeartbeatCycle deps cfg nowMs outcome s)"
  from cycle_in_cooldown[OF Cons.prems(1) nz w, of deps outcome] obtain cs1 where
    a1: "recentHeartbeats s1 a = Some t" and a2: "hcalls s1 = hcalls s @ cs1"
    and a3: "\<forall>tok. PostHeartbeat a tok \<notin> set cs1" unfolding s1_def by blast
  from Cons.IH[OF a1 rest] obtain cs2 where
    b1: "recentHeartbeats
           (foldl (\<lambda>st (nowMs, outcome). fst (runHeartbeatCycle deps cfg nowMs outcome st)) s1 rest)
           a = Some t"
    and b2: "hcalls
                (foldl (\<lambda>st (nowMs, outcome). fst (runHeartbeatCycle deps cfg nowMs outcome st)) s1
                   rest) = hcalls s1 @ cs2"
    and b3: "\<forall>tok. PostHeartbeat a tok \<notin> set cs2" by blast
  have f: "foldl (\<lambda>st (nowMs, outcome). fst (runHeartbeatCycle deps cfg nowMs outcome st)) s (c # rest)
         = foldl (\<lambda>st (nowMs, outcome). fst (runHeartbeatCycle deps cfg nowMs outcome st)) s1 rest"
    by (simp add: c s1_def)
  have k2: "hcalls
                (foldl (\<lambda>st (nowMs, outcome). fst (runHeartbeatCycle deps cfg nowMs outcome st)) s1
                   rest) = hcalls s @ (cs1 @ cs2)"
    using a2 b2 by simp
  have k3: "\<forall>tok. PostHeartbeat a tok \<notin> set (cs1 @ cs2)"
    using a3 b3 by simp
  from b1 k2 k3 show ?case unfolding f by blast
qed

lemma new_hcalls_append: "hcalls s' = hcalls s @ cs \<Longrightarrow> new_hcalls s s' = cs"
  by (simp add: new_hcalls_def)

lemma ex_after_401:
  "fst (sendHeartbeatForAccount ex_deps cfg ex_account ex_send_401 ex_hb_state)
     = (if hb_apiUrl cfg then
         ex_hb_state
           \<lparr> hcalls := [GetValidAccessToken (js ''acct-9''), CreateProxyAgent (js ''acct-9''),
                        PostHeartbeat (js ''acct-9'') (js ''tok'')],
             recentHeartbeats := (\<lambda>accountId. None) (js ''acct-9'' := Some 1700003601000) \<rparr>
        else fst (sendHeartbeatForAccount ex_deps cfg ex_account ex_send_401 ex_hb_state))"
  using ex_ids by (simp add: ex_send_401_any ex_hb_state_def)

lemma ex_cycle_again:
  assumes "hb_apiUrl cfg" "hb_usageRefreshMaxAgeMs cfg = None"
      and "recentHeartbeats (cleanupRecentHeartbeats nowMs s) (js ''acct-9'') = None"
  shows "new_hcalls s (fst (runHeartbeatCycle ex_deps cfg nowMs
             (Accounts [(ex_account, ex_refresh_none, ex_send_401)]) s))
     = [GetAllClaudeAccounts, FetchOAuthUsage (js ''acct-9''), GetClaudeAccount (js ''acct-9''),
        GetValidAccessToken (js ''acct-9''), CreateProxyAgent (js ''acct-9''),
        PostHeartbeat (js ''acct-9'') (js ''tok'')]"
proof -
  define s0 where "s0 = cleanupRecentHeartbeats nowMs (s \<lparr> hcalls := hcalls s @ [GetAllClaudeAccounts] \<rparr>)"
  have r0: "recentHeartbeats s0 (acc_id ex_account) = None"
    using assms(3) ex_ids by (simp add: s0_def cleanupRecentHeartbeats_def)
  have h0: "hcalls s0 = hcalls s @ [GetAllClaudeAccounts]"
    by (simp add: s0_def cleanupRecentHeartbeats_def)
  have c: "runHeartbeatCycle ex_deps cfg nowMs
             (Accounts [(ex_account, ex_refresh_none, ex_send_401)]) s
        = heartbeatLoop ex_deps cfg nowMs [(ex_account, ex_refresh_none, ex_send_401)] s0"
    by (simp add: runHeartbeatCycle_def s0_def Let_def)
  show ?thesis
    unfolding c
    using h0 ex_ids
    by (simp add: ex_evaluate_any[OF assms(2) _ r0] ex_send_401_any[OF assms(1)] new_hcalls_def)
qed

text \<open>
  C4, as the claim states it, fails. The cooldown is configured at 2000 minutes. A
  heartbeat to an eligible account is answered 401: the record is set, and nothing in the
  account changes. The cycle that starts 25 hours later, 8 hours before the window ends,
  first sweeps the records older than 24 hours, this one among them, and then probes the
  account again. And with the default cooldown of 10 minutes: \<open>stop()\<close> clears the map, and
  the cycle that starts 99 seconds after the heartbeat probes the account again.
\<close>

theorem cooldown_record_swept_within_window:
  "recentHeartbeats
     (fst (sendHeartbeatForAccount ex_deps ex_hb_long ex_account ex_send_401 ex_hb_state))
     (acc_id ex_account) = Some 1700003601000
   \<and> snd (sendHeartbeatForAccount ex_deps ex_hb_long ex_account ex_send_401 ex_hb_state) = None
   \<and> cooldownMsOf ex_hb_long = 120000000
   \<and> (1700093601000 :: int) - 1700003601000 < cooldownMsOf ex_hb_long
   \<and> new_hcalls
        (fst (sendHeartbeatForAccount ex_deps ex_hb_long ex_account ex_send_401 ex_hb_state))
        (fst (runHeartbeatCycle ex_deps ex_hb_long 1700093601000
                (Accounts [(ex_account, ex_refresh_none, ex_send_401)])
                (fst (sendHeartbeatForAccount ex_deps ex_hb_long ex_account ex_send_401
                        ex_hb_state))))
       = [GetAllClaudeAccounts, FetchOAuthUsage (acc_id ex_account),
          GetClaudeAccount (acc_id ex_account), GetValidAccessToken (acc_id ex_account),
          CreateProxyAgent (acc_id ex_account), PostHeartbeat (acc_id ex_account) (js ''tok'')]
   \<and> cooldownMsOf ex_hb_config = 600000
   \<and> (1700003700000 :: int) - 1700003601000 < cooldownMsOf ex_hb_config
   \<and> new_hcalls
        (heartbeat_stop
           (fst (sendHeartbeatForAccount ex_deps ex_hb_config ex_account ex_send_401 ex_hb_state)))
        (fst (runHeartbeatCycle ex_deps ex_hb_config 1700003700000
                (Accounts [(ex_account, ex_refresh_none, ex_send_401)])
                (heartbeat_stop
                   (fst (sendHeartbeatForAccount ex_deps ex_hb_config ex_account ex_send_401
                           ex_hb_state)))))
       = [GetAllClaudeAccounts, FetchOAuthUsage (acc_id ex_account),
          GetClaudeAccount (acc_id ex_account), GetValidAccessToken (acc_id ex_account),
          CreateProxyAgent (acc_id ex_account), PostHeartbeat (acc_id ex_account) (js ''tok'')]"
proof -
  have a: "fst (sendHeartbeatForAccount ex_deps ex_hb_long ex_account ex_send_401 ex_hb_state)
     = ex_hb_state
           \<lparr> hcalls := [GetValidAccessToken (js ''acct-9''), CreateProxyAgent (js ''acct-9''),
                        PostHeartbeat (js ''acct-9'') (js ''tok'')],
             recentHeartbeats := (\<lambda>accountId. None) (js ''acct-9'' := Some 1700003601000) \<rparr>"
    using ex_after_401[of ex_hb_long] ex_configs(3) by simp
  have b: "fst (sendHeartbeatForAccount ex_deps ex_hb_config ex_account ex_send_401 ex_hb_state)
     = ex_hb_state
           \<lparr> hcalls := [GetValidAccessToken (js ''acct-9''), CreateProxyAgent (js ''acct-9''),
                        PostHeartbeat (js ''acct-9'') (js ''tok'')],
             recentHeartbeats := (\<lambda>accountId. None) (js ''acct-9'' := Some 1700003601000) \<rparr>"
    using ex_after_401[of ex_hb_config] ex_configs(1) by simp
  have swept: "recentHeartbeats
       (cleanupRecentHeartbeats 1700093601000
          (fst (sendHeartbeatForAccount ex_deps ex_hb_long ex_account ex_send_401 ex_hb_state)))
       (js ''acct-9'') = None"
    by (simp add: a cleanupRecentHeartbeats_def)
  have cleared: "recentHeartbeats
       (cleanupRecentHeartbeats 1700003700000
          (heartbeat_stop
             (fst (sendHeartbeatForAccount ex_deps ex_hb_config ex_account ex_send_401
                     ex_hb_state))))
       (js ''acct-9'') = None"
    by (simp add: cleanupRecentHeartbeats_def heartbeat_stop_def)
  have thrown: "snd (sendHeartbeatForAccount ex_deps ex_hb_long ex_account ex_send_401 ex_hb_state)
      = None"
    by (simp add: ex_send_401_any[OF ex_configs(3)])
  show ?thesis
    using ex_cycle_again[OF ex_configs(3) ex_configs(4) swept]
      ex_cycle_again[OF ex_configs(1) ex_configs(2) cleared]
      send_cooldown[of ex_deps ex_hb_long ex_account ex_send_401 ex_hb_state]
      thrown ex_ids(1) ex_configs(5) ex_configs(6)
    by (simp add: ex_send_401_def ex_send_429_def)
qed

text \<open>
  C4, amended. However \<open>_sendHeartbeatForAccount\<close> ends (it returns, or it throws what the
  marking call of its \<open>catch\<close> threw), the cooldown map holds the clock of its \<open>finally\<close>
  for the account. The window is the configured \<open>cooldownMinutes\<close> (10 when absent or 0,
  0 when negative) in milliseconds. As long as that record is in the map, the account is
  not probed within the window: an evaluation of the account answers \<open>null\<close> and makes no
  call; the rest of the loop of the same cycle posts no heartbeat to it; and any sequence
  of cycles that each start within the window, and within the 24 hours the opening sweep
  of a cycle keeps a record, posts no heartbeat to it either and leaves the record in the
  map.
\<close>

theorem cooldown_recorded_on_every_exit:
  assumes run: "sendHeartbeatForAccount deps cfg account env s = (s', thrown)"
  shows "recentHeartbeats s' (acc_id account) = Some (dateNow env)
    \<and> cooldownMsOf cfg
        = max (case hb_cooldownMinutes cfg of None \<Rightarrow> 10 | Some n \<Rightarrow> if n = 0 then 10 else n) 0
          * 60000
    \<and> (\<forall>later renv account' nowMs.
          recentHeartbeats later (acc_id account) = Some (dateNow env)
          \<and> acc_id account' = acc_id account \<and> dateNow env \<noteq> 0
          \<and> nowMs - dateNow env < cooldownMsOf cfg
          \<longrightarrow> evaluateAccountForHeartbeat deps cfg renv account' nowMs (cooldownMsOf cfg) later
                = (later, Inr None))
    \<and> (\<forall>rest nowMs.
          dateNow env \<noteq> 0 \<and> nowMs - dateNow env < cooldownMsOf cfg
          \<longrightarrow> (\<forall>tok. PostHeartbeat (acc_id account) tok
                       \<notin> set (new_hcalls s' (fst (heartbeatLoop deps cfg nowMs rest s')))))
    \<and> (\<forall>later cycles.
          recentHeartbeats later (acc_id account) = Some (dateNow env) \<and> dateNow env \<noteq> 0
          \<and> (\<forall>(nowMs, outcome) \<in> set cycles.
                nowMs - dateNow env < cooldownMsOf cfg \<and> nowMs - dateNow env \<le> 86400000)
          \<longrightarrow> (\<forall>tok. PostHeartbeat (acc_id account) tok
                       \<notin> set (new_hcalls later
                                (foldl (\<lambda>st (nowMs, outcome).
                                          fst (runHeartbeatCycle deps cfg nowMs outcome st))
                                   later cycles)))
              \<and> recentHeartbeats
                  (foldl (\<lambda>st (nowMs, outcome). fst (runHeartbeatCycle deps cfg nowMs outcome st))
                     later cycles)
                  (acc_id account) = Some (dateNow env))"
proof -
  have rec: "recentHeartbeats s' (acc_id account) = Some (dateNow env)"
    using send_cooldown[of deps cfg account env s] run by simp
  have window: "cooldownMsOf cfg
        = max (case hb_cooldownMinutes cfg of None \<Rightarrow> 10 | Some n \<Rightarrow> if n = 0 then 10 else n) 0
          * 60000"
    by (simp add: cooldownMsOf_def or_default_def)
  have same: "\<forall>later renv account' nowMs.
          recentHeartbeats later (acc_id account) = Some (dateNow env)
          \<and> acc_id account' = acc_id account \<and> dateNow env \<noteq> 0
          \<and> nowMs - dateNow env < cooldownMsOf cfg
          \<longrightarrow> evaluateAccountForHeartbeat deps cfg renv account' nowMs (cooldownMsOf cfg) later
                = (later, Inr None)"
  proof (intro allI impI, elim conjE)
    fix later :: heartbeat_state and renv :: refresh_env and nowMs :: int
      and account' :: claude_account
    assume "recentHeartbeats later (acc_id account) = Some (dateNow env)"
       "acc_id account' = acc_id account" "dateNow env \<noteq> 0"
       "nowMs - dateNow env < cooldownMsOf cfg"
    then show "evaluateAccountForHeartbeat deps cfg renv account' nowMs (cooldownMsOf cfg) later
                = (later, Inr None)"
      using evaluate_in_cooldown[of later account' "dateNow env" nowMs "cooldownMsOf cfg" deps cfg renv]
      by simp
  qed
  have loop: "\<forall>rest nowMs.
          dateNow env \<noteq> 0 \<and> nowMs - dateNow env < cooldownMsOf cfg
          \<longrightarrow> (\<forall>tok. PostHeartbeat (acc_id account) tok
                       \<notin> set (new_hcalls s' (fst (heartbeatLoop deps cfg nowMs rest s'))))"
  proof (intro allI impI, elim conjE)
    fix rest nowMs tok
    assume w: "dateNow env \<noteq> 0" "nowMs - dateNow env < cooldownMsOf cfg"
    from loop_in_cooldown[OF rec w, of deps rest] obtain cs where
      "hcalls (fst (heartbeatLoop deps cfg nowMs rest s')) = hcalls s' @ cs"
      "\<forall>tok. PostHeartbeat (acc_id account) tok \<notin> set cs" by blast
    then show "PostHeartbeat (acc_id account) tok
                 \<notin> set (new_hcalls s' (fst (heartbeatLoop deps cfg nowMs rest s')))"
      by (simp add: new_hcalls_append)
  qed
  have cycles: "\<forall>later cycles.
          recentHeartbeats later (acc_id account) = Some (dateNow env) \<and> dateNow env \<noteq> 0
          \<and> (\<forall>(nowMs, outcome) \<in> set cycles.
                nowMs - dateNow env < cooldownMsOf cfg \<and> nowMs - dateNow env \<le> 86400000)
          \<longrightarrow> (\<forall>tok. PostHeartbeat (acc_id account) tok
                       \<notin> set (new_hcalls later
                                (foldl (\<lambda>st (nowMs, outcome).
                                          fst (runHeartbeatCycle deps cfg nowMs outcome st))
                                   later cycles)))
              \<and> recentHeartbeats
                  (foldl (\<lambda>st (nowMs, outcome). fst (runHeartbeatCycle deps cfg nowMs outcome st))
                     later cycles)
                  (acc_id account) = Some (dateNow env)"
  proof (intro allI impI, elim conjE)
    fix later :: heartbeat_state
      and cycles :: "(int \<times> accounts_outcome) list"
    assume w: "recentHeartbeats later (acc_id account) = Some (dateNow env)" "dateNow env \<noteq> 0"
       "\<forall>(nowMs, outcome) \<in> set cycles.
                nowMs - dateNow env < cooldownMsOf cfg \<and> nowMs - dateNow env \<le> 86400000"
    from cycles_in_cooldown[OF w, of deps] obtain cs where
      "recentHeartbeats
           (foldl (\<lambda>st (nowMs, outcome). fst (runHeartbeatCycle deps cfg nowMs outcome st)) later cycles)
           (acc_id account) = Some (dateNow env)"
      "hcalls
                (foldl (\<lambda>st (nowMs, outcome). fst (runHeartbeatCycle deps cfg nowMs outcome st)) later
                   cycles) = hcalls later @ cs"
      "\<forall>tok. PostHeartbeat (acc_id account) tok \<notin> set cs" by blast
    then show "(\<forall>tok. PostHeartbeat (acc_id account) tok
                       \<notin> set (new_hcalls later
                                (foldl (\<lambda>st (nowMs, outcome).
                                          fst (runHeartbeatCycle deps cfg nowMs outcome st))
                                   later cycles)))
              \<and> recentHeartbeats
                  (foldl (\<lambda>st (nowMs, outcome). fst (runHeartbeatCycle deps cfg nowMs outcome st))
                     later cycles)
                  (acc_id account) = Some (dateNow env)"
      by (simp add: new_hcalls_append)
  qed
  from rec window same loop cycles show ?thesis by (intro conjI)
qed

text \<open>
  The marking call rejects and the heartbeat throws: the record is set. The account is
  unchanged and passes every gate before the cooldown; the two cycles that start 99 and
  399 seconds later, within the default 10 minutes, list the accounts and post nothing.
\<close>

theorem cooldown_recorded_on_every_exit_witness:
  "recentHeartbeats
     (fst (sendHeartbeatForAccount ex_deps ex_hb_config ex_account ex_send_mark_down ex_hb_state))
     (acc_id ex_account) = Some 1700003601000
   \<and> snd (sendHeartbeatForAccount ex_deps ex_hb_config ex_account ex_send_mark_down ex_hb_state)
       = Some (HError None None)
   \<and> cooldownMsOf ex_hb_config = 600000
   \<and> isClaudePlatform ex_account \<and> isOAuthAccount ex_account \<and> isAccountHealthy ex_account
   \<and> isClaudeMaxAccount ex_deps ex_account
   \<and> (1700003601000 :: int) \<noteq> 0
   \<and> (1700003700000 :: int) - 1700003601000 < cooldownMsOf ex_hb_config
   \<and> (1700003700000 :: int) - 1700003601000 \<le> 86400000
   \<and> (1700004000000 :: int) - 1700003601000 < cooldownMsOf ex_hb_config
   \<and> (1700004000000 :: int) - 1700003601000 \<le> 86400000
   \<and> evaluateAccountForHeartbeat ex_deps ex_hb_config ex_refresh_none ex_account 1700003700000
        (cooldownMsOf ex_hb_config)
        (fst (sendHeartbeatForAccount ex_deps ex_hb_config ex_account ex_send_mark_down ex_hb_state))
      = (fst (sendHeartbeatForAccount ex_deps ex_hb_config ex_account ex_send_mark_down ex_hb_state),
         Inr None)
   \<and> (\<forall>tok. PostHeartbeat (acc_id ex_account) tok
          \<notin> set (new_hcalls
                   (fst (sendHeartbeatForAccount ex_deps ex_hb_config ex_account ex_send_mark_down
                           ex_hb_state))
                   (fst (runHeartbeatCycle ex_deps ex_hb_config 1700004000000
                           (Accounts [(ex_account, ex_refresh_none, ex_send_429)])
                           (fst (runHeartbeatCycle ex_deps ex_hb_config 1700003700000
                                   (Accounts [(ex_account, ex_refresh_none, ex_send_429)])
                                   (fst (sendHeartbeatForAccount ex_deps ex_hb_config ex_account
                                           ex_send_mark_down ex_hb_state))))))))"
proof -
  have now: "dateNow ex_send_mark_down = 1700003601000"
    by (simp add: ex_send_mark_down_def ex_send_429_def)
  have thrown: "snd (sendHeartbeatForAccount ex_deps ex_hb_config ex_account ex_send_mark_down ex_hb_state)
       = Some (HError None None)"
    by (simp add: sendHeartbeatForAccount_def tryHeartbeat_def catchHeartbeat_def Let_def
          ex_send_mark_down_def ex_send_429_def ex_hb_config_def opt_truthy_def js_def)
  note c = cooldown_recorded_on_every_exit[OF surjective_pairing,
      where deps = ex_deps and cfg = ex_hb_config and account = ex_account
        and env = ex_send_mark_down and s = ex_hb_state]
  note c1 = conjunct1[OF c]
  note c3 = conjunct1[OF conjunct2[OF conjunct2[OF c]], rule_format,
      where later = "fst (sendHeartbeatForAccount ex_deps ex_hb_config ex_account ex_send_mark_down
                            ex_hb_state)"
        and account' = ex_account and nowMs = 1700003700000 and renv = ex_refresh_none]
  note c5 = conjunct2[OF conjunct2[OF conjunct2[OF conjunct2[OF c]]], rule_format,
      where later = "fst (sendHeartbeatForAccount ex_deps ex_hb_config ex_account ex_send_mark_down
                            ex_hb_state)"
        and cycles = "[(1700003700000, Accounts [(ex_account, ex_refresh_none, ex_send_429)]),
                       (1700004000000, Accounts [(ex_account, ex_refresh_none, ex_send_429)])]"]
  have e: "evaluateAccountForHeartbeat ex_deps ex_hb_config ex_refresh_none ex_account 1700003700000
        (cooldownMsOf ex_hb_config)
        (fst (sendHeartbeatForAccount ex_deps ex_hb_config ex_account ex_send_mark_down ex_hb_state))
      = (fst (sendHeartbeatForAccount ex_deps ex_hb_config ex_account ex_send_mark_down ex_hb_state),
         Inr None)"
    using c3 c1 now ex_configs(5) by simp
  have p: "\<forall>tok. PostHeartbeat (acc_id ex_account) tok
          \<notin> set (new_hcalls
                   (fst (sendHeartbeatForAccount ex_deps ex_hb_config ex_account ex_send_mark_down
                           ex_hb_state))
                   (fst (runHeartbeatCycle ex_deps ex_hb_config 1700004000000
                           (Accounts [(ex_account, ex_refresh_none, ex_send_429)])
                           (fst (runHeartbeatCycle ex_deps ex_hb_config 1700003700000
                                   (Accounts [(ex_account, ex_refresh_none, ex_send_429)])
                                   (fst (sendHeartbeatForAccount ex_deps ex_hb_config ex_account
                                           ex_send_mark_down ex_hb_state)))))))"
    using c5 c1 now ex_configs(5) by simp
  from c1 now thrown ex_configs(5) ex_gates e p show ?thesis by simp
qed

section \<open>Keepalive: no token\<close>

lemma try_no_token:
  assumes "tokenOutcome env = TokenResolved token" "\<not> opt_truthy token"
  shows "tryHeartbeat deps cfg account env s =
           (s \<lparr> hcalls := hcalls s @ [GetValidAccessToken (acc_id account)] \<rparr>, None)"
  using assms by (simp add: tryHeartbeat_def Let_def)

lemma ex_notoken: "tokenOutcome ex_send_notoken = TokenResolved None \<and> \<not> opt_truthy None"
  by (simp add: ex_send_notoken_def ex_send_429_def opt_truthy_def)

text \<open>
  C5, as the claim states it, fails: the \<open>return\<close> on an absent token is inside the
  \<open>try\<close>, so the \<open>finally\<close> runs, and the account that had no cooldown record has one.
\<close>

theorem absent_token_sets_cooldown:
  "tokenOutcome ex_send_notoken = TokenResolved None
   \<and> recentHeartbeats ex_hb_state (acc_id ex_account) = None
   \<and> recentHeartbeats
        (fst (sendHeartbeatForAccount ex_deps ex_hb_config ex_account ex_send_notoken ex_hb_state))
        (acc_id ex_account) = Some 1700003601000"
  using send_cooldown[of ex_deps ex_hb_config ex_account ex_send_notoken ex_hb_state]
  by (simp add: ex_send_notoken_def ex_send_429_def ex_hb_state_def)

text \<open>
  C5, amended. When the token service resolves with no token, \<open>_sendHeartbeatForAccount\<close>
  returns normally having made one call, the request for the token: no probe is sent, no
  usage is fetched or written, the account is not marked. The one thing it changes is the
  cooldown record of the account, set to the clock of the \<open>finally\<close>.
\<close>

theorem absent_token_aborts_candidate:
  assumes "tokenOutcome env = TokenResolved token" "\<not> opt_truthy token"
  shows "sendHeartbeatForAccount deps cfg account env s =
           (s \<lparr> hcalls := hcalls s @ [GetValidAccessToken (acc_id account)],
                recentHeartbeats := (recentHeartbeats s) (acc_id account := Some (dateNow env)) \<rparr>,
            None)"
  using assms by (simp add: sendHeartbeatForAccount_def try_no_token)

theorem absent_token_aborts_candidate_witness:
  "tokenOutcome ex_send_notoken = TokenResolved None \<and> \<not> opt_truthy None
   \<and> sendHeartbeatForAccount ex_deps ex_hb_config ex_account ex_send_notoken ex_hb_state =
       (ex_hb_state \<lparr> hcalls := hcalls ex_hb_state @ [GetValidAccessToken (acc_id ex_account)],
            recentHeartbeats := (recentHeartbeats ex_hb_state)
               (acc_id ex_account := Some (dateNow ex_send_notoken)) \<rparr>, None)"
  using absent_token_aborts_candidate[where env = ex_send_notoken and token = None and deps = ex_deps
      and cfg = ex_hb_config and account = ex_account and s = ex_hb_state]
    ex_notoken
  by simp

section \<open>Keepalive: a positive countdown\<close>

lemma currentSnapshot_calls:
  assumes "currentSnapshot deps cfg renv account nowMs s = (s1, r)"
  shows "\<exists>cs. hcalls s1 = hcalls s @ cs
           \<and> set cs \<subseteq> {FetchOAuthUsage (acc_id account), UpdateClaudeUsageSnapshot (acc_id account),
                        GetClaudeAccount (acc_id account)}
           \<and> length (filter (\<lambda>c. c = FetchOAuthUsage (acc_id account)) cs) \<le> 1"
  using assms
  by (auto simp add: currentSnapshot_def refreshUsageSnapshot_def Let_def
        split: if_splits fetch_outcome.splits latest_outcome.splits)

text \<open>
  C8. Let the snapshot the evaluation holds after its refresh (it makes at most one, and
  only when the stored usage is stale and shows no countdown) have \<open>remainingSeconds\<close>
  above 0. Then \<open>_evaluateAccountForHeartbeat\<close> answers \<open>null\<close>, and the round of the
  cycle's loop for this account sends no heartbeat: the calls it makes are those of the one
  refresh at most.
\<close>

theorem positive_countdown_not_probed:
  assumes snap: "currentSnapshot deps cfg renv account nowMs s = (s1, Inr (accountData, snapshot))"
      and pos: "remainingSeconds snapshot = Some n" "0 < n"
  shows "snd (evaluateAccountForHeartbeat deps cfg renv account nowMs cooldownMs s) = Inr None
    \<and> snd (heartbeatLoop deps cfg nowMs [(account, renv, senv)] s) = None
    \<and> (\<exists>cs. hcalls (fst (heartbeatLoop deps cfg nowMs [(account, renv, senv)] s)) = hcalls s @ cs
           \<and> (\<forall>a tok. PostHeartbeat a tok \<notin> set cs)
           \<and> length (filter (\<lambda>c. c = FetchOAuthUsage (acc_id account)) cs) \<le> 1)"
proof -
  have cd: "hasCountdown snapshot" using pos by (simp add: hasCountdown_def)
  have ev: "snd (evaluateAccountForHeartbeat deps cfg renv account nowMs cooldownMs s) = Inr None"
    for cooldownMs
    using snap cd by (simp add: evaluateAccountForHeartbeat_def)
  have loop: "heartbeatLoop deps cfg nowMs [(account, renv, senv)] s =
          (fst (evaluateAccountForHeartbeat deps cfg renv account nowMs (cooldownMsOf cfg) s), None)"
    using ev[of "cooldownMsOf cfg"]
    by (cases "evaluateAccountForHeartbeat deps cfg renv account nowMs (cooldownMsOf cfg) s") simp
  from currentSnapshot_calls[OF snap] obtain cs where
    cs: "hcalls s1 = hcalls s @ cs"
      "set cs \<subseteq> {FetchOAuthUsage (acc_id account), UpdateClaudeUsageSnapshot (acc_id account),
                        GetClaudeAccount (acc_id account)}"
      "length (filter (\<lambda>c. c = FetchOAuthUsage (acc_id account)) cs) \<le> 1" by blast
  have "\<exists>cs. hcalls (fst (evaluateAccountForHeartbeat deps cfg renv account nowMs (cooldownMsOf cfg) s))
               = hcalls s @ cs
           \<and> (\<forall>a tok. PostHeartbeat a tok \<notin> set cs)
           \<and> length (filter (\<lambda>c. c = FetchOAuthUsage (acc_id account)) cs) \<le> 1"
    using evaluate_state[of deps cfg renv account nowMs "cooldownMsOf cfg" s]
  proof
    assume "fst (evaluateAccountForHeartbeat deps cfg renv account nowMs (cooldownMsOf cfg) s) = s"
    then show ?thesis by simp
  next
    assume "fst (evaluateAccountForHeartbeat deps cfg renv account nowMs (cooldownMsOf cfg) s)
       = fst (currentSnapshot deps cfg renv account nowMs s)"
    with snap cs show ?thesis by auto
  qed
  with ev loop show ?thesis by simp
qed

lemma ex_fresh_snapshot:
  "snd (currentSnapshot ex_deps ex_hb_config ex_refresh_fresh ex_account 1700003660000 ex_hb_state)
     = Inr (ex_account \<lparr> acc_claudeUsageUpdatedAt := TsDate 1700003600000 \<rparr>,
            \<lparr> remainingSeconds = Some 1200 \<rparr>)"
  by (simp add: currentSnapshot_def refreshUsageSnapshot_def hasCountdown_def usageIsStale_def
        or_default_def Let_def ex_deps_def ex_hb_config_def ex_refresh_fresh_def ex_account_def)

text \<open>An eligible account with stale usage: the refresh brings 20 minutes of countdown, and no probe follows.\<close>

theorem positive_countdown_not_probed_witness:
  "snd (currentSnapshot ex_deps ex_hb_config ex_refresh_fresh ex_account 1700003660000 ex_hb_state)
     = Inr (ex_account \<lparr> acc_claudeUsageUpdatedAt := TsDate 1700003600000 \<rparr>,
            \<lparr> remainingSeconds = Some 1200 \<rparr>)
   \<and> (0 :: int) < 1200
   \<and> isClaudePlatform ex_account \<and> isOAuthAccount ex_account \<and> isAccountHealthy ex_account
   \<and> isClaudeMaxAccount ex_deps ex_account
   \<and> snd (evaluateAccountForHeartbeat ex_deps ex_hb_config ex_refresh_fresh ex_account
            1700003660000 600000 ex_hb_state) = Inr None
   \<and> snd (heartbeatLoop ex_deps ex_hb_config 1700003660000
            [(ex_account, ex_refresh_fresh, ex_send_429)] ex_hb_state) = None"
proof -
  have h: "currentSnapshot ex_deps ex_hb_config ex_refresh_fresh ex_account 1700003660000 ex_hb_state
     = (fst (currentSnapshot ex_deps ex_hb_config ex_refresh_fresh ex_account 1700003660000 ex_hb_state),
        Inr (ex_account \<lparr> acc_claudeUsageUpdatedAt := TsDate 1700003600000 \<rparr>,
            \<lparr> remainingSeconds = Some 1200 \<rparr>))"
    using ex_fresh_snapshot
    by (metis surjective_pairing)
  have r: "remainingSeconds \<lparr> remainingSeconds = Some (1200 :: int) \<rparr> = Some 1200" by simp
  from positive_countdown_not_probed[OF h r, where cooldownMs = 600000 and senv = ex_send_429]
    ex_fresh_snapshot ex_gates
  show ?thesis by simp
qed

section \<open>Keepalive: rate limit and overload\<close>

lemma try_post_rejected:
  assumes "tokenOutcome env = TokenResolved (Some tok)" "tok \<noteq> []" "proxyAgentError env = None"
    "hb_apiUrl cfg" "postOutcome env = Some err"
  shows "tryHeartbeat deps cfg account env s =
           (s \<lparr> hcalls := hcalls s @ [GetValidAccessToken (acc_id account),
                   CreateProxyAgent (acc_id account), PostHeartbeat (acc_id account) tok] \<rparr>, Some err)"
  using assms by (simp add: tryHeartbeat_def Let_def opt_truthy_def)

lemma parsedReset_cases:
  "(resetHeader = None \<or> resetHeader = Some [] \<longrightarrow> parsedResetOf deps resetHeader = None)
   \<and> (\<forall>h. resetHeader = Some h \<and> parseInt10 h = None \<longrightarrow> parsedResetOf deps resetHeader = None)
   \<and> (\<forall>h v. resetHeader = Some h \<and> h \<noteq> [] \<and> parseInt10 h = Some v \<and> \<bar>v\<bar> \<le> 2 ^ 53
         \<longrightarrow> parsedResetOf deps resetHeader = Some v)"
  by (auto simp add: parsedResetOf_def opt_truthy_def)

text \<open>
  C9. Let the probe be sent and rejected with a status. At 429 the calls of the heartbeat
  end with \<open>markAccountRateLimited\<close>, whose reset argument is \<open>null\<close> when the reset
  header is absent, empty or has no leading integer, and the integer \<open>parseInt\<close> reads
  from it otherwise (exactly so up to 2^53). At 529 they end with
  \<open>markAccountOverloaded\<close> instead. In both cases the cooldown record is set.
\<close>

theorem rate_limit_remediation:
  assumes token: "tokenOutcome env = TokenResolved (Some tok)" "tok \<noteq> []"
      and proxy: "proxyAgentError env = None"
      and url: "hb_apiUrl cfg"
      and post: "postOutcome env = Some (HError (Some code) resetHeader)"
      and run: "sendHeartbeatForAccount deps cfg account env s = (s', thrown)"
  shows "(code = 429 \<longrightarrow>
            new_hcalls s s' =
              [GetValidAccessToken (acc_id account), CreateProxyAgent (acc_id account),
               PostHeartbeat (acc_id account) tok,
               MarkAccountRateLimited (acc_id account) (parsedResetOf deps resetHeader)])
    \<and> (code = 529 \<longrightarrow>
            new_hcalls s s' =
              [GetValidAccessToken (acc_id account), CreateProxyAgent (acc_id account),
               PostHeartbeat (acc_id account) tok, MarkAccountOverloaded (acc_id account)])
    \<and> recentHeartbeats s' (acc_id account) = Some (dateNow env)
    \<and> (resetHeader = None \<or> resetHeader = Some [] \<longrightarrow> parsedResetOf deps resetHeader = None)
    \<and> (\<forall>h. resetHeader = Some h \<and> parseInt10 h = None \<longrightarrow> parsedResetOf deps resetHeader = None)
    \<and> (\<forall>h v. resetHeader = Some h \<and> h \<noteq> [] \<and> parseInt10 h = Some v \<and> \<bar>v\<bar> \<le> 2 ^ 53
          \<longrightarrow> parsedResetOf deps resetHeader = Some v)"
proof -
  have rec: "recentHeartbeats s' (acc_id account) = Some (dateNow env)"
    using send_cooldown[of deps cfg account env s] run by simp
  have calls: "(code = 429 \<longrightarrow>
            new_hcalls s s' =
              [GetValidAccessToken (acc_id account), CreateProxyAgent (acc_id account),
               PostHeartbeat (acc_id account) tok,
               MarkAccountRateLimited (acc_id account) (parsedResetOf deps resetHeader)])
    \<and> (code = 529 \<longrightarrow>
            new_hcalls s s' =
              [GetValidAccessToken (acc_id account), CreateProxyAgent (acc_id account),
               PostHeartbeat (acc_id account) tok, MarkAccountOverloaded (acc_id account)])"
    using run try_post_rejected[OF token proxy url post, of deps account s]
    by (auto simp add: sendHeartbeatForAccount_def catchHeartbeat_def new_hcalls_def)
  show ?thesis using rec calls parsedReset_cases[of resetHeader deps] by blast
qed

lemma ex_parse: "parseInt10 (js ''1700000000'') = Some 1700000000"
  by (simp add: parseInt10_def js_def is_ws_def is_digit_def digits_value_def Let_def)

lemma ex_429:
  "tokenOutcome ex_send_429 = TokenResolved (Some (js ''tok'')) \<and> js ''tok'' \<noteq> []
   \<and> proxyAgentError ex_send_429 = None \<and> hb_apiUrl ex_hb_config
   \<and> postOutcome ex_send_429 = Some (HError (Some 429) (Some (js ''1700000000'')))"
  by (simp add: ex_send_429_def ex_hb_config_def js_def)

text \<open>The scenario of the spec: 429 with the header \<open>1700000000\<close>.\<close>

theorem rate_limit_remediation_witness:
  "tokenOutcome ex_send_429 = TokenResolved (Some (js ''tok'')) \<and> js ''tok'' \<noteq> []
   \<and> proxyAgentError ex_send_429 = None \<and> hb_apiUrl ex_hb_config
   \<and> postOutcome ex_send_429 = Some (HError (Some 429) (Some (js ''1700000000'')))
   \<and> new_hcalls ex_hb_state
        (fst (sendHeartbeatForAccount ex_deps ex_hb_config ex_account ex_send_429 ex_hb_state))
       = [GetValidAccessToken (acc_id ex_account), CreateProxyAgent (acc_id ex_account),
          PostHeartbeat (acc_id ex_account) (js ''tok''),
          MarkAccountRateLimited (acc_id ex_account) (Some 1700000000)]
   \<and> recentHeartbeats
        (fst (sendHeartbeatForAccount ex_deps ex_hb_config ex_account ex_send_429 ex_hb_state))
        (acc_id ex_account) = Some (dateNow ex_send_429)"
proof -
  have p: "js ''1700000000'' \<noteq> [] \<and> \<bar>1700000000 :: int\<bar> \<le> 2 ^ 53"
    by (simp add: js_def)
  from ex_429 have h: "tokenOutcome ex_send_429 = TokenResolved (Some (js ''tok''))"
    "js ''tok'' \<noteq> []" "proxyAgentError ex_send_429 = None" "hb_apiUrl ex_hb_config"
    "postOutcome ex_send_429 = Some (HError (Some 429) (Some (js ''1700000000'')))"
    by simp_all
  from rate_limit_remediation[OF h surjective_pairing, where deps = ex_deps and account = ex_account
      and s = ex_hb_state]
    ex_parse p ex_429
  show ?thesis by simp
qed

section \<open>The guard\<close>

lemma recovery_step_inv:
  assumes "recovery_step e (s, n) = Some (s', n')" "n \<le> 1" "isTickRunning s \<longleftrightarrow> n = 1"
  shows "n' \<le> 1 \<and> (isTickRunning s' \<longleftrightarrow> n' = 1)"
  using assms by (cases e) (auto simp add: recovery_stop_def split: if_splits)

lemma heartbeat_step_inv:
  assumes "heartbeat_step e (s, n) = Some (s', n')" "n \<le> 1" "isRunning s \<longleftrightarrow> n = 1"
    "e \<noteq> StopCalled \<or> n = 0"
  shows "n' \<le> 1 \<and> (isRunning s' \<longleftrightarrow> n' = 1)"
  using assms by (cases e) (auto simp add: heartbeat_stop_def split: if_splits)

lemma recovery_run_inv:
  assumes "run_events recovery_step evs (s, n) = Some (s', n')" "n \<le> 1" "isTickRunning s \<longleftrightarrow> n = 1"
  shows "n' \<le> 1 \<and> (isTickRunning s' \<longleftrightarrow> n' = 1)"
  using assms
proof (induction evs arbitrary: s n)
  case Nil
  then show ?case by simp
next
  case (Cons e evs)
  from Cons.prems(1) obtain s1 n1 where
    st: "recovery_step e (s, n) = Some (s1, n1)"
    and rest: "run_events recovery_step evs (s1, n1) = Some (s', n')"
    by (cases "recovery_step e (s, n)") auto
  from recovery_step_inv[OF st Cons.prems(2,3)] Cons.IH[OF rest] show ?case by blast
qed

lemma heartbeat_run_inv:
  assumes "run_events heartbeat_step evs (s, n) = Some (s', n')" "n \<le> 1" "isRunning s \<longleftrightarrow> n = 1"
    "stop_only_idle evs (s, n)"
  shows "n' \<le> 1 \<and> (isRunning s' \<longleftrightarrow> n' = 1)"
  using assms
proof (induction evs arbitrary: s n)
  case Nil
  then show ?case by simp
next
  case (Cons e evs)
  from Cons.prems(1) obtain s1 n1 where
    st: "heartbeat_step e (s, n) = Some (s1, n1)"
    and rest: "run_events heartbeat_step evs (s1, n1) = Some (s', n')"
    by (cases "heartbeat_step e (s, n)") auto
  from Cons.prems(4) st have idle: "e \<noteq> StopCalled \<or> n = 0" "stop_only_idle evs (s1, n1)"
    by simp_all
  from heartbeat_step_inv[OF st Cons.prems(2,3) idle(1)] Cons.IH[OF rest _ _ idle(2)]
  show ?case by blast
qed

text \<open>
  C1, as the claim states it, fails for the heartbeat service: its \<open>stop\<close> resets the
  guard while a cycle may be in flight. After start, a tick, stop, start again and a
  second tick, two cycle bodies are in flight.
\<close>

theorem heartbeat_stop_lets_ticks_overlap:
  "\<not> isRunning ex_hb_state
   \<and> map_option snd
       (run_events heartbeat_step [StartCalled, TickFires, StopCalled, StartCalled, TickFires]
          (ex_hb_state, 0)) = Some 2"
  by (simp add: ex_hb_state_def heartbeat_stop_def)

text \<open>
  C1, amended. Start either service idle and let ticks fire, cycles end and \<open>start\<close> and
  \<open>stop\<close> be called in any order, except that \<open>stop\<close> of the heartbeat service is not
  called while a cycle is in flight (\<open>stop\<close> of the recovery service leaves the guard
  alone, and may come at any time). Then at most one cycle body is in flight, and the guard
  is set exactly when one is. A tick that fires under the guard changes nothing and starts
  no cycle: \<open>_tick\<close> returns at once. When the cycle in flight ends, by returning or by
  throwing, the guard is cleared and no cycle is left in flight.
\<close>

theorem ticks_overlap_only_after_stop:
  assumes r0: "\<not> isTickRunning r0"
      and rrun: "run_events recovery_step revs (r0, 0) = Some (r, n)"
      and h0: "\<not> isRunning h0"
      and hrun: "run_events heartbeat_step hevs (h0, 0) = Some (h, m)"
      and idle: "stop_only_idle hevs (h0, 0)"
  shows "n \<le> 1 \<and> (isTickRunning r \<longleftrightarrow> n = 1)
     \<and> m \<le> 1 \<and> (isRunning h \<longleftrightarrow> m = 1)
     \<and> (isTickRunning r \<longrightarrow>
          recovery_step TickFires (r, n) = Some (r, n)
          \<and> (\<forall>svc outcome. recovery_tick svc outcome r = (r, None)))
     \<and> (isRunning h \<longrightarrow>
          heartbeat_step TickFires (h, m) = Some (h, m)
          \<and> (\<forall>deps cfg nowMs outcome. heartbeat_tick deps cfg nowMs outcome h = (h, None)))
     \<and> (\<forall>ended r' n'. (ended = CycleReturns \<or> ended = CycleThrows)
             \<and> recovery_step ended (r, n) = Some (r', n')
          \<longrightarrow> \<not> isTickRunning r' \<and> n' = 0)
     \<and> (\<forall>ended h' m'. (ended = CycleReturns \<or> ended = CycleThrows)
             \<and> heartbeat_step ended (h, m) = Some (h', m')
          \<longrightarrow> \<not> isRunning h' \<and> m' = 0)"
proof -
  have ri: "n \<le> 1 \<and> (isTickRunning r \<longleftrightarrow> n = 1)"
    using recovery_run_inv[OF rrun] r0 by simp
  have hi: "m \<le> 1 \<and> (isRunning h \<longleftrightarrow> m = 1)"
    using heartbeat_run_inv[OF hrun _ _ idle] h0 by simp
  have rskip: "isTickRunning r \<longrightarrow>
          recovery_step TickFires (r, n) = Some (r, n)
          \<and> (\<forall>svc outcome. recovery_tick svc outcome r = (r, None))"
    by (simp add: recovery_tick_def)
  have hskip: "isRunning h \<longrightarrow>
          heartbeat_step TickFires (h, m) = Some (h, m)
          \<and> (\<forall>deps cfg nowMs outcome. heartbeat_tick deps cfg nowMs outcome h = (h, None))"
    by (simp add: heartbeat_tick_def)
  have rend: "\<forall>ended r' n'. (ended = CycleReturns \<or> ended = CycleThrows)
             \<and> recovery_step ended (r, n) = Some (r', n')
          \<longrightarrow> \<not> isTickRunning r' \<and> n' = 0"
    using ri by (auto split: if_splits)
  have hend: "\<forall>ended h' m'. (ended = CycleReturns \<or> ended = CycleThrows)
             \<and> heartbeat_step ended (h, m) = Some (h', m')
          \<longrightarrow> \<not> isRunning h' \<and> m' = 0"
    using hi by (auto split: if_splits)
  from ri hi rskip hskip rend hend show ?thesis by blast
qed

lemma ex_recovery_run:
  "run_events recovery_step [StartCalled, TickFires, StopCalled, TickFires, CycleThrows, StartCalled]
     (ex_registry \<lparr> intervalHandle := False \<rparr>, 0)
   = Some (ex_registry \<lparr> intervalHandle := True, isTickRunning := True \<rparr>, 1)"
  by (simp add: ex_registry_def recovery_stop_def)

lemma ex_heartbeat_run:
  "run_events heartbeat_step [StartCalled, TickFires, TickFires, CycleReturns, StopCalled, StartCalled, TickFires]
     (ex_hb_state, 0)
   = Some (ex_hb_state \<lparr> isRunning := True \<rparr>, 1)"
  by (simp add: ex_hb_state_def heartbeat_stop_def)

lemma ex_heartbeat_idle:
  "stop_only_idle [StartCalled, TickFires, TickFires, CycleReturns, StopCalled, StartCalled, TickFires]
     (ex_hb_state, 0)"
  by (simp add: ex_hb_state_def heartbeat_stop_def)

theorem ticks_overlap_only_after_stop_witness:
  "\<not> isTickRunning (ex_registry \<lparr> intervalHandle := False \<rparr>)
   \<and> run_events recovery_step [StartCalled, TickFires, StopCalled, TickFires, CycleThrows, StartCalled]
       (ex_registry \<lparr> intervalHandle := False \<rparr>, 0)
     = Some (ex_registry \<lparr> intervalHandle := True, isTickRunning := True \<rparr>, 1)
   \<and> \<not> isRunning ex_hb_state
   \<and> run_events heartbeat_step
       [StartCalled, TickFires, TickFires, CycleReturns, StopCalled, StartCalled, TickFires]
       (ex_hb_state, 0)
     = Some (ex_hb_state \<lparr> isRunning := True \<rparr>, 1)
   \<and> stop_only_idle
       [StartCalled, TickFires, TickFires, CycleReturns, StopCalled, StartCalled, TickFires]
       (ex_hb_state, 0)
   \<and> recovery_step TickFires (ex_registry \<lparr> intervalHandle := True, isTickRunning := True \<rparr>, 1)
       = Some (ex_registry \<lparr> intervalHandle := True, isTickRunning := True \<rparr>, 1)
   \<and> heartbeat_tick ex_deps ex_hb_config 0 (Accounts []) (ex_hb_state \<lparr> isRunning := True \<rparr>)
       = (ex_hb_state \<lparr> isRunning := True \<rparr>, None)"
proof -
  have r0: "\<not> isTickRunning (ex_registry \<lparr> intervalHandle := False \<rparr>)"
    by (simp add: ex_registry_def)
  have h0: "\<not> isRunning ex_hb_state" by (simp add: ex_hb_state_def)
  from ticks_overlap_only_after_stop[OF r0 ex_recovery_run h0 ex_heartbeat_run ex_heartbeat_idle]
    r0 h0 ex_recovery_run ex_heartbeat_run ex_heartbeat_idle
  show ?thesis by simp
qed

end
